(* ===== verification/Prelude.thy ===== *)
theory Prelude
  imports Complex_Main "HOL-Library.AList" "HOL-Library.Char_ord" "HOL-Library.List_Lexorder"
begin

section \<open>Shared vocabulary of the development\<close>

text \<open>
  What every component model uses: Python values that arrive as decoded JSON, Python
  exceptions as values, dictionaries as insertion-ordered association lists
  (\<open>AList.update\<close> overwrites a key in place and appends a new one at the end, which is
  what a Python \<open>dict\<close> does), and Python's \<open>round\<close> and \<open>int\<close> on numbers.

  Python floats (confidences, thresholds, weights, monotonic seconds) are rationals here:
  arithmetic is exact, rounding is written out where the source writes \<open>round\<close> or
  \<open>int\<close>. The rounding error of binary floating point is not modelled.
\<close>

subsection \<open>Collections of facts\<close>

named_theorems dict_simps \<open>lookups and key sets of dictionaries after an update\<close>
named_theorems never_blank \<open>facts that an operation leaves something on the screen\<close>
named_theorems step_inv \<open>an operation keeps its component's invariant\<close>

subsection \<open>Values and errors\<close>

datatype json =
    JNull
  | JBool bool
  | JInt int
  | JFloat rat
  | JStr string
  | JArr "json list"
  | JObj "(string \<times> json) list"

text \<open>The exceptions the modelled code raises or catches.\<close>

datatype py_error =
    KeyError string
  | TypeError
  | ValueError
  | AttributeError
  | OSError
  | TimeoutError
  | RuntimeError
  | RecursionError
  | OverflowError
  | RendererError
  | RendererStartupError
  | FallbackBundleMissingError
  | PrivacyViolationError
  | DeviceNotFoundError
  | PipelineReadError
  | HTTPException nat

type_synonym 'a res = "py_error + 'a"

text \<open>
  What \<open>json.loads\<close> makes of a received payload: \<open>NotJson\<close> is an error the callers catch
  (\<open>JSONDecodeError\<close>, or \<open>UnicodeDecodeError\<close> where the caller lists it too). Every other error
  of the decoder escapes them: \<open>ValueError\<close> for an integer of more than 4300 digits,
  \<open>RecursionError\<close> for nesting that is too deep. Numbers are finite.
\<close>

datatype payload = NotJson | LoadsError py_error | Decoded json

text \<open>Python's truth value of a JSON value.\<close>

fun truthy :: "json \<Rightarrow> bool" where
  "truthy JNull = False"
| "truthy (JBool b) = b"
| "truthy (JInt i) = (i \<noteq> 0)"
| "truthy (JFloat x) = (x \<noteq> 0)"
| "truthy (JStr s) = (s \<noteq> [])"
| "truthy (JArr xs) = (xs \<noteq> [])"
| "truthy (JObj d) = (d \<noteq> [])"

text \<open>\<open>d.get(k)\<close> on a value known to be a dictionary (\<open>None\<close> is a missing key).\<close>

fun jget :: "json \<Rightarrow> string \<Rightarrow> json option" where
  "jget (JObj d) k = map_of d k"
| "jget _ k = None"

text \<open>\<open>d[k]\<close>: a missing key raises, indexing something that is no dictionary by a string raises.\<close>

fun jindex :: "json \<Rightarrow> string \<Rightarrow> json res" where
  "jindex (JObj d) k = (case map_of d k of None \<Rightarrow> Inl (KeyError k) | Some v \<Rightarrow> Inr v)"
| "jindex _ k = Inl TypeError"

text \<open>\<open>d.get(k) or {}\<close>.\<close>

definition jget_or_empty :: "json \<Rightarrow> string \<Rightarrow> json" where
  "jget_or_empty j k = (case jget j k of Some v \<Rightarrow> if truthy v then v else JObj [] | None \<Rightarrow> JObj [])"

text \<open>A JSON string as an optional Python string, everything else as \<open>None\<close>.\<close>

fun jstr_opt :: "json option \<Rightarrow> string option" where
  "jstr_opt (Some (JStr s)) = Some s"
| "jstr_opt _ = None"

lemma jstr_opt_Some_iff: "jstr_opt v = Some s \<longleftrightarrow> v = Some (JStr s)"
  by (cases v rule: jstr_opt.cases) auto

lemma jindex_jget: "jget m k = Some v \<Longrightarrow> jindex m k = Inr v"
  by (cases m) simp_all

lemma jindex_Inr: "jindex m k = Inr v \<longleftrightarrow> jget m k = Some v"
  by (cases m) (simp_all split: option.splits)

definition is_inl :: "'a + 'b \<Rightarrow> bool" where
  "is_inl r = (case r of Inl _ \<Rightarrow> True | Inr _ \<Rightarrow> False)"

lemma is_inl_simps [simp]: "is_inl (Inl e)" "\<not> is_inl (Inr v)"
  by (simp_all add: is_inl_def)

text \<open>Sequencing of computations that may raise.\<close>

definition res_bind :: "'a res \<Rightarrow> ('a \<Rightarrow> 'b res) \<Rightarrow> 'b res" where
  "res_bind r f = (case r of Inl e \<Rightarrow> Inl e | Inr v \<Rightarrow> f v)"

lemma res_bind_simps [simp]: "res_bind (Inl e) f = Inl e" "res_bind (Inr v) f = f v"
  by (simp_all add: res_bind_def)

lemma res_bind_Inr: "res_bind r f = Inr w \<longleftrightarrow> (\<exists>v. r = Inr v \<and> f v = Inr w)"
  by (cases r) auto

text \<open>
  A value the contracts type as \<open>integer\<close>: JSON Schema admits \<open>5\<close> and \<open>5.0\<close>.
\<close>

fun jint :: "json \<Rightarrow> int option" where
  "jint (JInt i) = Some i"
| "jint (JFloat x) = (if of_int \<lfloor>x\<rfloor> = x then Some \<lfloor>x\<rfloor> else None)"
| "jint _ = None"

fun is_obj :: "json \<Rightarrow> bool" where
  "is_obj (JObj _) = True"
| "is_obj _ = False"

text \<open>\<open>d.get(k)\<close> where \<open>d\<close> may be no dictionary: then the attribute lookup raises.\<close>

definition jget_attr :: "json \<Rightarrow> string \<Rightarrow> json option res" where
  "jget_attr j k = (if is_obj j then Inr (jget j k) else Inl AttributeError)"

lemma jget_attr_obj [simp]: "jget_attr (JObj d) k = Inr (map_of d k)"
  by (simp add: jget_attr_def)

text \<open>An optional value on the wire: \<open>None\<close> is \<open>null\<close>.\<close>

definition opt_json :: "('a \<Rightarrow> json) \<Rightarrow> 'a option \<Rightarrow> json" where
  "opt_json f v = (case v of None \<Rightarrow> JNull | Some x \<Rightarrow> f x)"

text \<open>A number, a nested field, a block of numeric fields and a flag of a decoded message.\<close>

fun jnum :: "json \<Rightarrow> rat option" where
  "jnum (JInt i) = Some (of_int i)"
| "jnum (JFloat x) = Some x"
| "jnum (JBool b) = Some (if b then 1 else 0)"
| "jnum _ = None"

fun jpath :: "json \<Rightarrow> string list \<Rightarrow> json option" where
  "jpath j [] = Some j"
| "jpath j (k # ks) = (case jget j k of None \<Rightarrow> None | Some v \<Rightarrow> jpath v ks)"

definition num_block :: "json \<Rightarrow> string \<Rightarrow> (string \<times> rat) list" where
  "num_block d k =
     (case jget d k of
        Some (JObj kvs) \<Rightarrow> List.map_filter (\<lambda>(n, v). map_option (Pair n) (jnum v)) kvs
      | _ \<Rightarrow> [])"

definition jtrue :: "json option \<Rightarrow> bool" where
  "jtrue v = (case v of Some j \<Rightarrow> truthy j | None \<Rightarrow> False)"

subsection \<open>Contract validation\<close>

text \<open>
  \<open>jsonschema\<close> is third-party code: its \<open>iter_errors\<close> is a parameter
  \<open>errs :: json \<Rightarrow> string list\<close> (the messages). Every service turns it into an error
  string the same way: \<open>None\<close> without errors, the first three messages joined by
  \<open>; \<close> otherwise; the callers test the truth value of that string.
\<close>

fun join :: "string \<Rightarrow> string list \<Rightarrow> string" where
  "join sep [] = []"
| "join sep [x] = x"
| "join sep (x # xs) = x @ sep @ join sep xs"

definition validation_error :: "(json \<Rightarrow> string list) \<Rightarrow> json \<Rightarrow> string option" where
  "validation_error errs msg =
     (case errs msg of [] \<Rightarrow> None | es \<Rightarrow> Some (join ''; '' (take 3 es)))"

definition schema_ok :: "(json \<Rightarrow> string list) \<Rightarrow> json \<Rightarrow> bool" where
  "schema_ok errs msg = (case validation_error errs msg of None \<Rightarrow> True | Some e \<Rightarrow> e = [])"

lemma schema_ok_no_errors: "errs msg = [] \<Longrightarrow> schema_ok errs msg"
  by (simp add: schema_ok_def validation_error_def)

text \<open>A validator that accepts exactly the messages a predicate describes.\<close>

definition errs_of :: "(json \<Rightarrow> bool) \<Rightarrow> json \<Rightarrow> string list" where
  "errs_of p msg = (if p msg then [] else [''invalid''])"

lemma schema_ok_errs_of [simp]: "schema_ok (errs_of p) msg = p msg"
  by (simp add: schema_ok_def validation_error_def errs_of_def)

subsection \<open>Timestamps\<close>

text \<open>
  \<open>datetime.fromisoformat\<close> is a parameter \<open>fromiso\<close>: a string is rejected (with the text of
  the \<open>ValueError\<close>) or denotes a datetime, which has a timezone or not. Instants are
  seconds since the epoch. Ordering an aware and a naive datetime raises \<open>TypeError\<close>.
\<close>

datatype py_datetime = Naive rat | Aware rat

type_synonym iso_parser = "string \<Rightarrow> string + py_datetime"

definition replace_z :: "string \<Rightarrow> string" where
  "replace_z s = concat (map (\<lambda>c. if c = CHR ''Z'' then ''+00:00'' else [c]) s)"

fun utc_instant :: "py_datetime \<Rightarrow> rat res" where
  "utc_instant (Aware t) = Inr t"
| "utc_instant (Naive t) = Inl TypeError"

subsection \<open>Dictionaries\<close>

definition dict_ok :: "('k \<times> 'v) list \<Rightarrow> bool" where
  "dict_ok d = distinct (map fst d)"

definition dict_keys :: "('k \<times> 'v) list \<Rightarrow> 'k list" where
  "dict_keys d = map fst d"

lemma length_dict_keys [simp]: "length (dict_keys d) = length d"
  by (simp add: dict_keys_def)

lemma dict_ok_Nil [simp, step_inv]: "dict_ok []"
  by (simp add: dict_ok_def)

lemma dict_ok_update [simp, step_inv]: "dict_ok d \<Longrightarrow> dict_ok (AList.update k v d)"
  by (simp add: dict_ok_def distinct_update)

lemma dict_ok_delete [simp, step_inv]: "dict_ok d \<Longrightarrow> dict_ok (AList.delete k d)"
  by (simp add: dict_ok_def distinct_delete)

lemma lookup_update [dict_simps]:
  "map_of (AList.update k v d) k' = (if k' = k then Some v else map_of d k')"
  by (simp add: update_conv')

lemma lookup_delete [dict_simps]:
  "map_of (AList.delete k d) k' = (if k' = k then None else map_of d k')"
  by (simp add: delete_conv')

lemma dict_keys_set [dict_simps]: "set (dict_keys d) = dom (map_of d)"
  by (simp add: dict_keys_def dom_map_of_conv_image_fst)

lemma update_fresh: "k \<notin> set (map fst d) \<Longrightarrow> AList.update k v d = d @ [(k, v)]"
  by (induction d) auto

lemma dict_ok_entry: "dict_ok d \<Longrightarrow> map_of d k = Some v \<longleftrightarrow> (k, v) \<in> set d"
  by (simp add: dict_ok_def)

subsection \<open>Numbers\<close>

text \<open>Python's \<open>round(x)\<close>: to the nearest integer, ties to the even one.\<close>

definition py_round :: "rat \<Rightarrow> int" where
  "py_round x =
     (let f = \<lfloor>x\<rfloor>; d = x - of_int f
      in if d < 1/2 then f else if 1/2 < d then f + 1 else if even f then f else f + 1)"

text \<open>\<open>round(x, 4)\<close> and \<open>round(x, 2)\<close>.\<close>

definition py_round4 :: "rat \<Rightarrow> rat" where
  "py_round4 x = of_int (py_round (x * 10000)) / 10000"

definition py_round2 :: "rat \<Rightarrow> rat" where
  "py_round2 x = of_int (py_round (x * 100)) / 100"

text \<open>Python's \<open>int(x)\<close> on a float truncates towards zero.\<close>

definition py_int :: "rat \<Rightarrow> int" where
  "py_int x = (if 0 \<le> x then \<lfloor>x\<rfloor> else \<lceil>x\<rceil>)"

lemma py_round_of_int [simp]: "py_round (of_int n) = n"
  by (simp add: py_round_def)

lemma py_round_floor: "py_round x = \<lfloor>x\<rfloor> \<or> py_round x = \<lfloor>x\<rfloor> + 1"
  by (simp add: py_round_def Let_def)

lemma py_round_ge:
  assumes "of_int n \<le> x"
  shows "n \<le> py_round x"
proof -
  from assms have "n \<le> \<lfloor>x\<rfloor>" by (simp add: le_floor_iff)
  then show ?thesis using py_round_floor [of x] by auto
qed

lemma py_round_le:
  assumes "x \<le> of_int n"
  shows "py_round x \<le> n"
proof (cases "x = of_int n")
  case True
  then show ?thesis by simp
next
  case False
  with assms have "\<lfloor>x\<rfloor> < n" by (simp add: floor_less_iff)
  then show ?thesis using py_round_floor [of x] by auto
qed

lemma py_round4_bounds:
  assumes "of_int a \<le> x" "x \<le> of_int b"
  shows "of_int a \<le> py_round4 x" "py_round4 x \<le> of_int b"
proof -
  have "(of_int (a * 10000) :: rat) \<le> x * 10000" using assms(1) by simp
  then have a: "a * 10000 \<le> py_round (x * 10000)" by (rule py_round_ge)
  have "x * 10000 \<le> (of_int (b * 10000) :: rat)" using assms(2) by simp
  then have b: "py_round (x * 10000) \<le> b * 10000" by (rule py_round_le)
  from a have "(of_int (a * 10000) :: rat) \<le> of_int (py_round (x * 10000))" by (simp only: of_int_le_iff)
  then show "of_int a \<le> py_round4 x" by (simp add: py_round4_def)
  from b have "(of_int (py_round (x * 10000)) :: rat) \<le> of_int (b * 10000)" by (simp only: of_int_le_iff)
  then show "py_round4 x \<le> of_int b" by (simp add: py_round4_def)
qed

lemma py_round4_unit: "0 \<le> x \<Longrightarrow> x \<le> 1 \<Longrightarrow> 0 \<le> py_round4 x \<and> py_round4 x \<le> 1"
  using py_round4_bounds [of 0 x 1] by simp

lemma py_int_nonneg: "0 \<le> x \<Longrightarrow> 0 \<le> py_int x"
  by (simp add: py_int_def)

subsection \<open>Strings and logs\<close>

text \<open>\<open>str.lower()\<close> on the ASCII letters.\<close>

definition ascii_lower :: "string \<Rightarrow> string" where
  "ascii_lower s = map (\<lambda>c. if CHR ''A'' \<le> c \<and> c \<le> CHR ''Z'' then char_of (of_char c + (32::nat)) else c) s"

text \<open>\<open>str(n)\<close> of an integer.\<close>

fun show_nat :: "nat \<Rightarrow> string" where
  "show_nat n = (if n < 10 then [char_of (48 + n)] else show_nat (n div 10) @ [char_of (48 + n mod 10)])"

declare show_nat.simps [simp del]

definition show_int :: "int \<Rightarrow> string" where
  "show_int i = (if i < 0 then ''-'' @ show_nat (nat (- i)) else show_nat (nat i))"

text \<open>The value of the last entry of a log that has one.\<close>

definition latest :: "('a \<Rightarrow> 'b option) \<Rightarrow> 'a list \<Rightarrow> 'b option" where
  "latest f xs = fold (\<lambda>x acc. case f x of Some y \<Rightarrow> Some y | None \<Rightarrow> acc) xs None"

lemma latest_Nil [simp]: "latest f [] = None"
  by (simp add: latest_def)

lemma latest_snoc [simp]:
  "latest f (xs @ [x]) = (case f x of Some y \<Rightarrow> Some y | None \<Rightarrow> latest f xs)"
  by (simp add: latest_def split: option.split)

subsection \<open>Means of lists\<close>

text \<open>\<open>sum(xs) / len(xs)\<close>, for a non-empty list.\<close>

definition mean :: "rat list \<Rightarrow> rat" where
  "mean xs = sum_list xs / of_nat (length xs)"

lemma sum_list_ge_length:
  "(\<And>x. x \<in> set xs \<Longrightarrow> a \<le> x) \<Longrightarrow> of_nat (length xs) * a \<le> (sum_list xs :: rat)"
  by (induction xs) (auto simp: algebra_simps intro: add_mono)

lemma sum_list_le_length:
  "(\<And>x. x \<in> set xs \<Longrightarrow> x \<le> b) \<Longrightarrow> (sum_list xs :: rat) \<le> of_nat (length xs) * b"
  by (induction xs) (auto simp: algebra_simps intro: add_mono)

lemma mean_bounds:
  assumes "xs \<noteq> []" and "\<And>x. x \<in> set xs \<Longrightarrow> a \<le> x" and "\<And>x. x \<in> set xs \<Longrightarrow> x \<le> b"
  shows "a \<le> mean xs" and "mean xs \<le> b"
proof -
  have n: "(0::rat) < of_nat (length xs)" using assms(1) by simp
  show "a \<le> mean xs"
    using sum_list_ge_length [of xs a] assms(2) n
    by (simp add: mean_def pos_le_divide_eq mult.commute)
  show "mean xs \<le> b"
    using sum_list_le_length [of xs b] assms(3) n
    by (simp add: mean_def pos_divide_le_eq mult.commute)
qed

lemma mean_bounds_ball:
  "xs \<noteq> [] \<Longrightarrow> \<forall>x \<in> set xs. a \<le> x \<and> x \<le> b \<Longrightarrow> a \<le> mean xs \<and> mean xs \<le> b"
  using mean_bounds [of xs a b] by blast

end
