(* ===== verification/Policy.thy ===== *)
theory Policy
  imports Prelude
begin

section \<open>Policy engine (services/decision-optimizer/decision_optimizer/policy.py)\<close>

text \<open>
  Rules with optional conditions over an audience-state signal, evaluation by priority and
  weighted random choice, and the rules-file loader. A signal is the record of the fields
  the service reads from the validated ICD-3 message; an absent block is \<open>None\<close>. The
  random number is the argument \<open>u\<close> (\<open>random.random()\<close>, in [0,1)); the UTC hour is \<open>hour\<close>.
\<close>

subsection \<open>Signals\<close>

record demographics =
  dg_suppressed :: "bool option"
  dg_age_group :: "(string \<times> rat) list"
  dg_gender :: "(string \<times> rat) list"
  dg_attire :: "(string \<times> rat) list"

text \<open>
  \<open>sg_presence\<close> is (count, confidence), \<open>None\<close> when \<open>signal["state"]["presence"]\<close> or one
  of them is missing; \<open>sg_attention\<close> the attention block with its \<open>engaged\<close> value.
\<close>

record audience_signal =
  sg_message_id :: string
  sg_presence :: "(int \<times> rat) option"
  sg_attention :: "rat option option"
  sg_demographics :: "demographics option"
  sg_pipeline_degraded :: bool
  sg_freeze_decision :: bool

subsection \<open>Rules\<close>

record rule =
  rl_rule_id :: string
  rl_priority :: int
  rl_manifest_id :: string
  rl_weight :: rat
  rl_presence_count_gte :: "rat option"
  rl_presence_count_lte :: "rat option"
  rl_presence_count_eq :: "rat option"
  rl_presence_confidence_gte :: "rat option"
  rl_age_group_child_gte :: "rat option"
  rl_age_group_young_adult_gte :: "rat option"
  rl_age_group_adult_gte :: "rat option"
  rl_age_group_senior_gte :: "rat option"
  rl_gender_male_gte :: "rat option"
  rl_gender_female_gte :: "rat option"
  rl_attire_formal_gte :: "rat option"
  rl_attire_business_casual_gte :: "rat option"
  rl_attire_casual_gte :: "rat option"
  rl_attire_athletic_gte :: "rat option"
  rl_attire_outdoor_technical_gte :: "rat option"
  rl_attire_workwear_uniform_gte :: "rat option"
  rl_attire_streetwear_gte :: "rat option"
  rl_attire_luxury_premium_gte :: "rat option"
  rl_attire_lounge_comfort_gte :: "rat option"
  rl_attire_smart_occasion_gte :: "rat option"
  rl_demographics_suppressed_eq :: "bool option"
  rl_attention_engaged_gte :: "rat option"
  rl_time_hour_gte :: "rat option"
  rl_time_hour_lte :: "rat option"

text \<open>
  The sixteen demographic conditions in the order \<open>matches\<close> checks them: the block, the
  bucket and the threshold.
\<close>

definition demographic_conditions :: "rule \<Rightarrow> (string \<times> string \<times> rat option) list" where
  "demographic_conditions r =
     [(''age_group'', ''child'', rl_age_group_child_gte r),
      (''age_group'', ''young_adult'', rl_age_group_young_adult_gte r),
      (''age_group'', ''adult'', rl_age_group_adult_gte r),
      (''age_group'', ''senior'', rl_age_group_senior_gte r),
      (''gender'', ''male'', rl_gender_male_gte r),
      (''gender'', ''female'', rl_gender_female_gte r),
      (''attire'', ''formal'', rl_attire_formal_gte r),
      (''attire'', ''business_casual'', rl_attire_business_casual_gte r),
      (''attire'', ''casual'', rl_attire_casual_gte r),
      (''attire'', ''athletic'', rl_attire_athletic_gte r),
      (''attire'', ''outdoor_technical'', rl_attire_outdoor_technical_gte r),
      (''attire'', ''workwear_uniform'', rl_attire_workwear_uniform_gte r),
      (''attire'', ''streetwear'', rl_attire_streetwear_gte r),
      (''attire'', ''luxury_premium'', rl_attire_luxury_premium_gte r),
      (''attire'', ''lounge_comfort'', rl_attire_lounge_comfort_gte r),
      (''attire'', ''smart_occasion'', rl_attire_smart_occasion_gte r)]"

definition has_demographic_condition :: "rule \<Rightarrow> bool" where
  "has_demographic_condition r \<longleftrightarrow> list_ex (\<lambda>(_, _, t). t \<noteq> None) (demographic_conditions r)"

definition gte :: "rat option \<Rightarrow> rat \<Rightarrow> bool" where
  "gte threshold v \<longleftrightarrow> (case threshold of None \<Rightarrow> True | Some t \<Rightarrow> t \<le> v)"

definition lte :: "rat option \<Rightarrow> rat \<Rightarrow> bool" where
  "lte threshold v \<longleftrightarrow> (case threshold of None \<Rightarrow> True | Some t \<Rightarrow> v \<le> t)"

definition eqs :: "rat option \<Rightarrow> rat \<Rightarrow> bool" where
  "eqs threshold v \<longleftrightarrow> (case threshold of None \<Rightarrow> True | Some t \<Rightarrow> v = t)"

text \<open>\<open>demographics_block.get(block, {}).get(bucket, 0.0)\<close>\<close>

definition bucket :: "demographics \<Rightarrow> string \<Rightarrow> string \<Rightarrow> rat" where
  "bucket d block k =
     (case map_of (if block = ''age_group'' then dg_age_group d
                   else if block = ''gender'' then dg_gender d else dg_attire d) k of
        None \<Rightarrow> 0 | Some v \<Rightarrow> v)"

definition suppressed :: "audience_signal \<Rightarrow> bool" where
  "suppressed sg =
     (case sg_demographics sg of
        None \<Rightarrow> True
      | Some d \<Rightarrow> (case dg_suppressed d of None \<Rightarrow> True | Some b \<Rightarrow> b))"

definition attention_ok :: "rule \<Rightarrow> audience_signal \<Rightarrow> bool" where
  "attention_ok r sg \<longleftrightarrow>
     (case sg_attention sg of Some (Some engaged) \<Rightarrow> gte (rl_attention_engaged_gte r) engaged | _ \<Rightarrow> True)"

definition demographics_ok :: "rule \<Rightarrow> audience_signal \<Rightarrow> bool" where
  "demographics_ok r sg \<longleftrightarrow>
     (if has_demographic_condition r then
        (if suppressed sg then False
         else (case sg_demographics sg of
                 None \<Rightarrow> False
               | Some d \<Rightarrow> list_all (\<lambda>(block, k, t). gte t (bucket d block k)) (demographic_conditions r)))
      else True)"

text \<open>\<open>hour\<close> is \<open>now_hour\<close> when it is not negative, the clock's hour otherwise.\<close>

definition rule_matches :: "int \<Rightarrow> int \<Rightarrow> rule \<Rightarrow> audience_signal \<Rightarrow> bool" where
  "rule_matches clock_hour now_hour r sg =
     (case sg_presence sg of
        None \<Rightarrow> False
      | Some (count, confidence) \<Rightarrow>
          gte (rl_presence_count_gte r) (of_int count) \<and>
          lte (rl_presence_count_lte r) (of_int count) \<and>
          eqs (rl_presence_count_eq r) (of_int count) \<and>
          gte (rl_presence_confidence_gte r) confidence \<and>
          attention_ok r sg \<and>
          (case rl_demographics_suppressed_eq r of None \<Rightarrow> True | Some b \<Rightarrow> suppressed sg = b) \<and>
          demographics_ok r sg \<and>
          (let hour = (if 0 \<le> now_hour then now_hour else clock_hour)
           in gte (rl_time_hour_gte r) (of_int hour) \<and> lte (rl_time_hour_lte r) (of_int hour)))"

subsection \<open>Weighted choice\<close>

text \<open>
  \<open>random.choices(population, weights, k=1)\<close> of the standard library: cumulative weights,
  \<open>ValueError\<close> when their total is not positive, and \<open>bisect\<close> (bisect_right) of
  \<open>u * total\<close> with upper limit \<open>n - 1\<close>.
\<close>

fun cumulative :: "rat \<Rightarrow> rat list \<Rightarrow> rat list" where
  "cumulative acc [] = []"
| "cumulative acc (w # ws) = (acc + w) # cumulative (acc + w) ws"

function bisect_right :: "rat list \<Rightarrow> rat \<Rightarrow> nat \<Rightarrow> nat \<Rightarrow> nat" where
  "bisect_right a x lo hi =
     (if lo < hi then
        (let mid = (lo + hi) div 2
         in if x < a ! mid then bisect_right a x lo mid else bisect_right a x (Suc mid) hi)
      else lo)"
  by pat_completeness auto
termination by (relation "measure (\<lambda>(a, x, lo, hi). hi - lo)") auto

declare bisect_right.simps [simp del]

definition choices :: "rat \<Rightarrow> rule list \<Rightarrow> rule res" where
  "choices u rs =
     (let cum = cumulative 0 (map rl_weight rs); total = last cum
      in if total \<le> 0 then Inl ValueError
         else Inr (rs ! bisect_right cum (u * total) 0 (length rs - 1)))"

subsection \<open>Engine\<close>

record policy_engine =
  pe_rules :: "rule list"
  pe_min_dwell_ms :: int
  pe_cooldown_ms :: int

text \<open>\<open>sorted(rules, key=priority, reverse=True)\<close> is stable: equal priorities keep file order.\<close>

definition make_engine :: "rule list \<Rightarrow> int \<Rightarrow> int \<Rightarrow> policy_engine" where
  "make_engine rules min_dwell cooldown =
     \<lparr>pe_rules = sort_key (\<lambda>r. - rl_priority r) rules, pe_min_dwell_ms = min_dwell, pe_cooldown_ms = cooldown\<rparr>"

definition evaluate :: "int \<Rightarrow> rat \<Rightarrow> policy_engine \<Rightarrow> audience_signal \<Rightarrow> string option res" where
  "evaluate hour u eng sg =
     (case filter (\<lambda>r. rule_matches hour hour r sg) (pe_rules eng) of
        [] \<Rightarrow> Inr None
      | m # ms \<Rightarrow>
          (let top_tier = filter (\<lambda>r. rl_priority r = rl_priority m) (m # ms)
           in case top_tier of
                [r] \<Rightarrow> Inr (Some (rl_manifest_id r))
              | _ \<Rightarrow> (case choices u top_tier of
                        Inl e \<Rightarrow> Inl e
                      | Inr r \<Rightarrow> Inr (Some (rl_manifest_id r)))))"

subsection \<open>Loader\<close>

text \<open>
  \<open>int(...)\<close> and \<open>float(...)\<close> of a JSON value; \<open>parse_int\<close> and \<open>parse_float\<close> are what they make of a string.
  A condition that is no number raises here rather than at the first comparison.
\<close>

definition py_float :: "(string \<Rightarrow> rat option) \<Rightarrow> json \<Rightarrow> rat res" where
  "py_float parse j =
     (case j of
        JStr s \<Rightarrow> (case parse s of Some x \<Rightarrow> Inr x | None \<Rightarrow> Inl ValueError)
      | _ \<Rightarrow> (case jnum j of Some x \<Rightarrow> Inr x | None \<Rightarrow> Inl TypeError))"

text \<open>\<open>int(v)\<close>: floats are truncated; \<open>parse_int\<close> is what it makes of a string.\<close>

definition py_int_of :: "(string \<Rightarrow> rat option) \<Rightarrow> json \<Rightarrow> int res" where
  "py_int_of parse_int j = res_bind (py_float parse_int j) (\<lambda>x. Inr (py_int x))"

definition get_or :: "json \<Rightarrow> string \<Rightarrow> json \<Rightarrow> json" where
  "get_or d k v = (case jget d k of Some j \<Rightarrow> j | None \<Rightarrow> v)"

definition cond_num :: "json \<Rightarrow> string \<Rightarrow> rat option" where
  "cond_num cond k = (case jget cond k of Some j \<Rightarrow> jnum j | None \<Rightarrow> None)"

definition condition_keys :: "string list" where
  "condition_keys = [''presence_count_gte'', ''presence_count_lte'', ''presence_count_eq'',
     ''presence_confidence_gte'', ''age_group_child_gte'', ''age_group_young_adult_gte'', ''age_group_adult_gte'',
     ''age_group_senior_gte'', ''gender_male_gte'', ''gender_female_gte'', ''attire_formal_gte'',
     ''attire_business_casual_gte'', ''attire_casual_gte'', ''attire_athletic_gte'',
     ''attire_outdoor_technical_gte'', ''attire_workwear_uniform_gte'', ''attire_streetwear_gte'',
     ''attire_luxury_premium_gte'', ''attire_lounge_comfort_gte'', ''attire_smart_occasion_gte'',
     ''demographics_suppressed_eq'', ''attention_engaged_gte'', ''time_hour_gte'', ''time_hour_lte'']"

definition conditions_typed :: "json \<Rightarrow> bool" where
  "conditions_typed cond \<longleftrightarrow>
     list_all (\<lambda>k. case jget cond k of None \<Rightarrow> True | Some j \<Rightarrow> j = JNull \<or> jnum j \<noteq> None) condition_keys \<and>
     cond_num cond ''demographics_suppressed_eq'' \<in> {None, Some 0, Some 1}"

definition load_rule :: "(string \<Rightarrow> rat option) \<Rightarrow> (string \<Rightarrow> rat option) \<Rightarrow> json \<Rightarrow> rule res" where
  "load_rule parse_int parse_float r =
     (if \<not> is_obj r then Inl AttributeError
      else let cond = get_or r ''conditions'' (JObj []); num = cond_num cond in
      if \<not> is_obj cond then Inl AttributeError
      else case jindex r ''rule_id'' of Inl e \<Rightarrow> Inl e | Inr jid \<Rightarrow>
     (case py_float parse_int (get_or r ''priority'' (JInt 0)) of Inl e \<Rightarrow> Inl e | Inr prio \<Rightarrow>
     (case jindex r ''manifest_id'' of Inl e \<Rightarrow> Inl e | Inr jmid \<Rightarrow>
     (case py_float parse_float (get_or r ''weight'' (JInt 1)) of Inl e \<Rightarrow> Inl e | Inr w \<Rightarrow>
     (case (jstr_opt (Some jid), jstr_opt (Some jmid)) of
        (Some rid, Some mid) \<Rightarrow>
          if \<not> conditions_typed cond then Inl TypeError
          else Inr \<lparr>rl_rule_id = rid, rl_priority = py_int prio, rl_manifest_id = mid, rl_weight = w,
           rl_presence_count_gte = num ''presence_count_gte'',
           rl_presence_count_lte = num ''presence_count_lte'',
           rl_presence_count_eq = num ''presence_count_eq'',
           rl_presence_confidence_gte = num ''presence_confidence_gte'',
           rl_age_group_child_gte = num ''age_group_child_gte'',
           rl_age_group_young_adult_gte = num ''age_group_young_adult_gte'',
           rl_age_group_adult_gte = num ''age_group_adult_gte'',
           rl_age_group_senior_gte = num ''age_group_senior_gte'',
           rl_gender_male_gte = num ''gender_male_gte'',
           rl_gender_female_gte = num ''gender_female_gte'',
           rl_attire_formal_gte = num ''attire_formal_gte'',
           rl_attire_business_casual_gte = num ''attire_business_casual_gte'',
           rl_attire_casual_gte = num ''attire_casual_gte'',
           rl_attire_athletic_gte = num ''attire_athletic_gte'',
           rl_attire_outdoor_technical_gte = num ''attire_outdoor_technical_gte'',
           rl_attire_workwear_uniform_gte = num ''attire_workwear_uniform_gte'',
           rl_attire_streetwear_gte = num ''attire_streetwear_gte'',
           rl_attire_luxury_premium_gte = num ''attire_luxury_premium_gte'',
           rl_attire_lounge_comfort_gte = num ''attire_lounge_comfort_gte'',
           rl_attire_smart_occasion_gte = num ''attire_smart_occasion_gte'',
           rl_demographics_suppressed_eq = map_option (\<lambda>x. x = 1) (num ''demographics_suppressed_eq''),
           rl_attention_engaged_gte = num ''attention_engaged_gte'',
           rl_time_hour_gte = num ''time_hour_gte'',
           rl_time_hour_lte = num ''time_hour_lte''\<rparr>
      | _ \<Rightarrow> Inl TypeError)))))"

fun load_rules :: "(string \<Rightarrow> rat option) \<Rightarrow> (string \<Rightarrow> rat option) \<Rightarrow> json list \<Rightarrow> rule list res" where
  "load_rules parse_int parse_float [] = Inr []"
| "load_rules parse_int parse_float (j # js) =
     (case load_rule parse_int parse_float j of
        Inl e \<Rightarrow> Inl e
      | Inr r \<Rightarrow> (case load_rules parse_int parse_float js of Inl e \<Rightarrow> Inl e | Inr rs \<Rightarrow> Inr (r # rs)))"

text \<open>\<open>load_policy\<close> on the decoded file; \<open>None\<close> when opening or decoding it raises.\<close>

definition load_policy :: "(string \<Rightarrow> rat option) \<Rightarrow> (string \<Rightarrow> rat option) \<Rightarrow> json option \<Rightarrow> policy_engine res" where
  "load_policy parse_int parse_float file =
     (case file of
        None \<Rightarrow> Inl OSError
      | Some data \<Rightarrow>
          if \<not> is_obj data then Inl AttributeError
          else if jget data ''schema_version'' \<noteq> Some (JStr ''1.0.0'') then Inl ValueError
          else (case get_or data ''rules'' (JArr []) of
                  JArr (j # js) \<Rightarrow>
                    (case load_rules parse_int parse_float (j # js) of
                       Inl e \<Rightarrow> Inl e
                     | Inr rules \<Rightarrow>
                    (case py_float parse_int (get_or data ''min_dwell_ms'' (JInt 10000)) of
                       Inl e \<Rightarrow> Inl e
                     | Inr dwell \<Rightarrow>
                    (case py_float parse_int (get_or data ''cooldown_ms'' (JInt 5000)) of
                       Inl e \<Rightarrow> Inl e
                     | Inr cooldown \<Rightarrow> Inr (make_engine rules (py_int dwell) (py_int cooldown)))))
                | v \<Rightarrow> if truthy v then Inl TypeError else Inl ValueError))"

text \<open>A rule without conditions, as the dataclass defaults make it.\<close>

definition plain_rule :: "string \<Rightarrow> int \<Rightarrow> string \<Rightarrow> rat \<Rightarrow> rule" where
  "plain_rule rid prio mid w =
     \<lparr>rl_rule_id = rid, rl_priority = prio, rl_manifest_id = mid, rl_weight = w,
      rl_presence_count_gte = None, rl_presence_count_lte = None, rl_presence_count_eq = None,
      rl_presence_confidence_gte = None, rl_age_group_child_gte = None, rl_age_group_young_adult_gte = None, rl_age_group_adult_gte =
      None, rl_age_group_senior_gte = None, rl_gender_male_gte = None, rl_gender_female_gte = None,
      rl_attire_formal_gte = None, rl_attire_business_casual_gte = None, rl_attire_casual_gte = None,
      rl_attire_athletic_gte = None, rl_attire_outdoor_technical_gte = None,
      rl_attire_workwear_uniform_gte = None, rl_attire_streetwear_gte = None,
      rl_attire_luxury_premium_gte = None, rl_attire_lounge_comfort_gte = None,
      rl_attire_smart_occasion_gte = None,
      rl_demographics_suppressed_eq = None, rl_attention_engaged_gte = None,
      rl_time_hour_gte = None, rl_time_hour_lte = None\<rparr>"

lemma plain_rule_weight: "rl_weight (plain_rule rid prio mid w) = w"
  by (simp add: plain_rule_def)

subsection \<open>Properties\<close>

lemma rule_matches_suppressed:
  "suppressed sg \<Longrightarrow> rule_matches ch h r sg = rule_matches ch h r (sg\<lparr>sg_demographics := None\<rparr>)"
  by (simp add: rule_matches_def demographics_ok_def attention_ok_def suppressed_def split: option.split)

text \<open>
  C19. Privacy guard: when the demographics of a signal are suppressed (or absent), the
  decision does not depend on them. Evaluation gives the same result as for the same
  signal without any demographics block.
\<close>

theorem suppressed_noninterference:
  assumes "suppressed sg"
  shows "evaluate hour u eng sg = evaluate hour u eng (sg\<lparr>sg_demographics := None\<rparr>)"
  unfolding evaluate_def
  by (simp only: rule_matches_suppressed [OF assms])

definition demo_signal :: audience_signal where
  "demo_signal = \<lparr>sg_message_id = ''s1'', sg_presence = Some (3, 0.8), sg_attention = None,
     sg_demographics = Some \<lparr>dg_suppressed = Some True, dg_age_group = [(''child'', 0.9)],
       dg_gender = [], dg_attire = []\<rparr>, sg_pipeline_degraded = False, sg_freeze_decision = False\<rparr>"

theorem suppressed_noninterference_witness:
  "evaluate 12 0 (make_engine [plain_rule ''r1'' 5 ''m1'' 1] 0 0) demo_signal =
   evaluate 12 0 (make_engine [plain_rule ''r1'' 5 ''m1'' 1] 0 0) (demo_signal\<lparr>sg_demographics := None\<rparr>)"
  by (rule suppressed_noninterference) (simp add: demo_signal_def suppressed_def)

lemma bisect_right_step:
  "lo < hi \<Longrightarrow> bisect_right a x lo hi =
     (if x < a ! ((lo + hi) div 2) then bisect_right a x lo ((lo + hi) div 2)
      else bisect_right a x (Suc ((lo + hi) div 2)) hi)"
  by (subst bisect_right.simps) (simp only: Let_def if_True)

lemma bisect_right_stop: "\<not> lo < hi \<Longrightarrow> bisect_right a x lo hi = lo"
  by (subst bisect_right.simps) (simp only: if_False)

lemma bisect_right_bounds: "lo \<le> hi \<Longrightarrow> lo \<le> bisect_right a x lo hi \<and> bisect_right a x lo hi \<le> hi"
proof (induction a x lo hi rule: bisect_right.induct)
  case (1 a x lo hi)
  show ?case
  proof (cases "lo < hi")
    case True
    let ?mid = "(lo + hi) div 2"
    have mid: "lo \<le> ?mid" "?mid < hi" using True by auto
    show ?thesis
    proof (cases "x < a ! ?mid")
      case less: True
      with 1(1) [OF True refl less] mid show ?thesis unfolding bisect_right_step [OF True] by simp
    next
      case False
      with 1(2) [OF True refl False] mid show ?thesis unfolding bisect_right_step [OF True] by simp
    qed
  next
    case False
    with 1(3) show ?thesis by (simp add: bisect_right_stop)
  qed
qed

lemma bisect_right_unique:
  "lo \<le> i \<Longrightarrow> i \<le> hi \<Longrightarrow> (\<And>j. lo \<le> j \<Longrightarrow> j < i \<Longrightarrow> a ! j \<le> x) \<Longrightarrow> (\<And>j. i \<le> j \<Longrightarrow> j < hi \<Longrightarrow> x < a ! j) \<Longrightarrow>
   bisect_right a x lo hi = i"
proof (induction a x lo hi rule: bisect_right.induct)
  case (1 a x lo hi)
  show ?case
  proof (cases "lo < hi")
    case True
    let ?mid = "(lo + hi) div 2"
    have mid: "lo \<le> ?mid" "?mid < hi" using True by auto
    show ?thesis
    proof (cases "x < a ! ?mid")
      case less: True
      have "i \<le> ?mid"
      proof (rule ccontr)
        assume "\<not> i \<le> ?mid"
        then have "?mid < i" by (simp only: not_le)
        then have "a ! ?mid \<le> x" by (rule 1(5) [OF mid(1)])
        with less show False by (meson not_le)
      qed
      have "bisect_right a x lo ?mid = i"
      proof (rule 1(1) [OF True refl less 1(3) \<open>i \<le> ?mid\<close>])
        show "a ! j \<le> x" if "lo \<le> j" "j < i" for j by (rule 1(5) [OF that])
        show "x < a ! j" if "i \<le> j" "j < ?mid" for j
          by (rule 1(6) [OF that(1) less_trans [OF that(2) mid(2)]])
      qed
      then show ?thesis by (simp only: bisect_right_step [OF True] less if_True)
    next
      case False
      have "?mid < i"
      proof (rule ccontr)
        assume "\<not> ?mid < i"
        then have "i \<le> ?mid" by (simp only: not_less)
        then have "x < a ! ?mid" by (rule 1(6) [OF _ mid(2)])
        with False show False by contradiction
      qed
      have "bisect_right a x (Suc ?mid) hi = i"
      proof (rule 1(2) [OF True refl False Suc_leI [OF \<open>?mid < i\<close>] 1(4)])
        show "a ! j \<le> x" if "Suc ?mid \<le> j" "j < i" for j
          by (rule 1(5) [OF order_trans [OF mid(1) Suc_leD [OF that(1)]] that(2)])
        show "x < a ! j" if "i \<le> j" "j < hi" for j by (rule 1(6) [OF that])
      qed
      then show ?thesis by (simp only: bisect_right_step [OF True] False if_False)
    qed
  next
    case False
    then show ?thesis using 1(3,4) bisect_right_stop [OF False, of a x] by linarith
  qed
qed

lemma length_cumulative [simp]: "length (cumulative acc ws) = length ws"
  by (induction ws arbitrary: acc) auto

lemma cumulative_nth: "j < length ws \<Longrightarrow> cumulative acc ws ! j = acc + sum_list (take (Suc j) ws)"
  by (induction ws arbitrary: acc j) (auto simp: nth_Cons split: nat.split)

lemma cumulative_Nil [simp]: "cumulative acc ws = [] \<longleftrightarrow> ws = []"
  by (cases ws) auto

lemma cumulative_last_acc: "ws \<noteq> [] \<Longrightarrow> last (cumulative acc ws) = acc + sum_list ws"
proof (induction ws arbitrary: acc)
  case Nil
  then show ?case by simp
next
  case (Cons w ws)
  then show ?case by (cases "ws = []") (simp_all add: add.assoc)
qed

lemma cumulative_last: "ws \<noteq> [] \<Longrightarrow> last (cumulative 0 ws) = sum_list ws"
  by (simp add: cumulative_last_acc)

lemma sum_list_take_mono:
  "(\<And>w. w \<in> set ws \<Longrightarrow> (0::rat) \<le> w) \<Longrightarrow> j \<le> k \<Longrightarrow> sum_list (take j ws) \<le> sum_list (take k ws)"
proof -
  assume n: "\<And>w. w \<in> set ws \<Longrightarrow> 0 \<le> w" and "j \<le> k"
  then have "take k ws = take j ws @ take (k - j) (drop j ws)"
    by (simp flip: take_add)
  moreover have "0 \<le> sum_list (take (k - j) (drop j ws))"
    by (rule sum_list_nonneg) (auto intro!: n dest: in_set_takeD in_set_dropD)
  ultimately show ?thesis by simp
qed

text \<open>
  Weighted choice: with non-negative weights and a positive total, the draw \<open>u\<close>
  selects rule \<open>i\<close> exactly on the interval of \<open>u * total\<close> between the sums of the weights
  before and up to \<open>i\<close>, so its share of the unit interval is its weight over the total.
\<close>

theorem choices_interval:
  assumes "\<And>r. r \<in> set rs \<Longrightarrow> 0 \<le> rl_weight r" and "0 < sum_list (map rl_weight rs)"
    and "i < length rs"
    and "sum_list (take i (map rl_weight rs)) \<le> u * sum_list (map rl_weight rs)"
    and "u * sum_list (map rl_weight rs) < sum_list (take (Suc i) (map rl_weight rs))"
  shows "choices u rs = Inr (rs ! i)"
proof -
  define ws where "ws = map rl_weight rs"
  have nn: "0 \<le> w" if "w \<in> set ws" for w using that assms(1) by (auto simp: ws_def)
  have len: "length ws = length rs" and ne: "ws \<noteq> []" using assms(3) by (auto simp: ws_def)
  have "bisect_right (cumulative 0 ws) (u * sum_list ws) 0 (length rs - 1) = i"
  proof (rule bisect_right_unique)
    fix j assume "j < i"
    then have "cumulative 0 ws ! j = sum_list (take (Suc j) ws)"
      using assms(3) len by (simp add: cumulative_nth)
    also have "\<dots> \<le> sum_list (take i ws)" by (rule sum_list_take_mono) (use nn \<open>j < i\<close> in auto)
    finally show "cumulative 0 ws ! j \<le> u * sum_list ws" using assms(4) by (simp add: ws_def)
  next
    fix j assume "i \<le> j" "j < length rs - 1"
    then have "sum_list (take (Suc i) ws) \<le> sum_list (take (Suc j) ws)"
      by (intro sum_list_take_mono) (use nn in auto)
    also have "\<dots> = cumulative 0 ws ! j" using \<open>j < length rs - 1\<close> len by (simp add: cumulative_nth)
    finally show "u * sum_list ws < cumulative 0 ws ! j" using assms(5) by (simp add: ws_def)
  qed (use assms(3) in auto)
  with assms(2) ne show ?thesis by (simp add: choices_def Let_def cumulative_last flip: ws_def)
qed

theorem choices_interval_witness:
  "choices (4/5) [plain_rule ''r1'' 5 ''m1'' 1, plain_rule ''r2'' 5 ''m2'' (3/10)] =
     Inr (plain_rule ''r2'' 5 ''m2'' (3/10))"
proof -
  let ?rs = "[plain_rule ''r1'' 5 ''m1'' 1, plain_rule ''r2'' 5 ''m2'' (3/10)]"
  have "choices (4/5) ?rs = Inr (?rs ! 1)"
    by (rule choices_interval) (auto simp: plain_rule_weight)
  then show ?thesis by simp
qed

lemma choices_in:
  assumes "rs \<noteq> []" and "choices u rs = Inr r"
  shows "r \<in> set rs"
proof -
  have "bisect_right (cumulative 0 (map rl_weight rs)) x 0 (length rs - 1) < length rs" for x
    using bisect_right_bounds [of 0 "length rs - 1" "cumulative 0 (map rl_weight rs)" x] assms(1)
    by (cases rs) auto
  with assms(2) show ?thesis by (auto simp: choices_def Let_def split: if_splits intro!: nth_mem)
qed

lemma set_make_engine [simp]: "set (pe_rules (make_engine rules d c)) = set rules"
  by (simp add: make_engine_def)

text \<open>The first match of an engine has the highest priority of all matches.\<close>

lemma make_engine_first:
  assumes "filter P (pe_rules (make_engine rules d c)) = m # ms" and "r \<in> set rules" and "P r"
  shows "rl_priority r \<le> rl_priority m"
proof -
  have "sorted (map (\<lambda>r. - rl_priority r) (filter P (pe_rules (make_engine rules d c))))"
    by (simp add: make_engine_def sorted_filter)
  then have s: "sorted (map (\<lambda>r. - rl_priority r) (m # ms))" by (simp only: assms(1))
  have "r \<in> set (filter P (pe_rules (make_engine rules d c)))" using assms(2,3) by simp
  then have "r \<in> set (m # ms)" by (simp only: assms(1))
  with s show ?thesis by auto
qed

lemma evaluate_cases:
  "case evaluate hour u (make_engine rules d c) sg of
     Inr None \<Rightarrow> \<not> list_ex (\<lambda>r. rule_matches hour hour r sg) rules
   | Inr (Some mid) \<Rightarrow> list_ex (\<lambda>r. rule_matches hour hour r sg \<and> rl_manifest_id r = mid \<and>
       list_all (\<lambda>r'. rule_matches hour hour r' sg \<longrightarrow> rl_priority r' \<le> rl_priority r) rules) rules
   | Inl e \<Rightarrow> e = ValueError \<and> (\<exists>tier. 2 \<le> length tier \<and> set tier \<subseteq> set rules \<and> sum_list (map rl_weight tier) \<le> 0)"
proof -
  let ?P = "\<lambda>r. rule_matches hour hour r sg"
  show ?thesis
  proof (cases "filter ?P (pe_rules (make_engine rules d c))")
    case Nil
    then have "\<forall>r \<in> set rules. \<not> ?P r" by (metis filter_empty_conv set_make_engine)
    with Nil show ?thesis by (simp add: evaluate_def list_ex_iff)
  next
    case (Cons m ms)
    define tier where "tier = filter (\<lambda>r. rl_priority r = rl_priority m) (m # ms)"
    have ne: "tier \<noteq> []" by (simp add: tier_def)
    have in_rules: "r \<in> set rules \<and> ?P r" if "r \<in> set tier" for r
    proof -
      from that have "r \<in> set (m # ms)" by (auto simp: tier_def)
      then have "r \<in> set (filter ?P (pe_rules (make_engine rules d c)))" by (simp only: Cons)
      then show ?thesis by simp
    qed
    have good: "list_ex (\<lambda>r. ?P r \<and> rl_manifest_id r = rl_manifest_id r0 \<and>
        list_all (\<lambda>r'. ?P r' \<longrightarrow> rl_priority r' \<le> rl_priority r) rules) rules" if "r0 \<in> set tier" for r0
    proof -
      have "rl_priority r0 = rl_priority m" using that by (auto simp: tier_def)
      with in_rules [OF that] make_engine_first [OF Cons] show ?thesis
        by (auto simp: list_ex_iff list_all_iff)
    qed
    have ev: "evaluate hour u (make_engine rules d c) sg =
        (case tier of [r] \<Rightarrow> Inr (Some (rl_manifest_id r))
         | _ \<Rightarrow> (case choices u tier of Inl e \<Rightarrow> Inl e | Inr r \<Rightarrow> Inr (Some (rl_manifest_id r))))"
      by (simp add: evaluate_def Cons tier_def Let_def)
    show ?thesis
    proof (cases "length tier = 1")
      case True
      then obtain r where "tier = [r]" by (cases tier) auto
      with good show ?thesis by (simp add: ev)
    next
      case False
      with ne have len: "2 \<le> length tier" by (cases tier) (auto simp: Suc_le_eq)
      then have ev': "evaluate hour u (make_engine rules d c) sg =
          (case choices u tier of Inl e \<Rightarrow> Inl e | Inr r \<Rightarrow> Inr (Some (rl_manifest_id r)))"
        by (auto simp: ev split: list.split)
      show ?thesis
      proof (cases "choices u tier")
        case (Inl e)
        then have "e = ValueError" "sum_list (map rl_weight tier) \<le> 0"
          using ne by (auto simp: choices_def Let_def cumulative_last split: if_splits)
        with Inl len in_rules show ?thesis by (auto simp: ev')
      next
        case (Inr r)
        with good [OF choices_in [OF ne Inr]] show ?thesis by (simp add: ev')
      qed
    qed
  qed
qed

lemma evaluate_answers:
  assumes "r \<in> set rules" "rule_matches hour hour r sg" "\<And>r. r \<in> set rules \<Longrightarrow> 0 < rl_weight r"
  shows "\<exists>r' \<in> set rules. evaluate hour u (make_engine rules d c) sg = Inr (Some (rl_manifest_id r')) \<and>
    rule_matches hour hour r' sg"
proof (cases "evaluate hour u (make_engine rules d c) sg")
  case (Inl e)
  then obtain tier where t: "2 \<le> length tier" "set tier \<subseteq> set rules" "sum_list (map rl_weight tier) \<le> 0"
    using evaluate_cases [where hour = hour and u = u and rules = rules and d = d and c = c and sg = sg] by auto
  then obtain r0 rs where "tier = r0 # rs" by (cases tier) auto
  moreover have "0 \<le> sum_list (map rl_weight rs)"
    by (rule sum_list_nonneg) (use t(2) assms(3) calculation in \<open>force intro: less_imp_le\<close>)
  moreover have "0 < rl_weight r0" using assms(3) t(2) calculation by auto
  ultimately show ?thesis using t(3) by simp
next
  case (Inr v)
  then show ?thesis
    using evaluate_cases [where hour = hour and u = u and rules = rules and d = d and c = c and sg = sg] assms(1,2)
    by (cases v) (auto simp: list_ex_iff list_all_iff)
qed

text \<open>
  C18. Evaluation answers \<open>None\<close> exactly when no rule matches, otherwise the manifest of a
  matching rule whose priority is the highest among the matching rules; it raises only
  \<open>ValueError\<close>, when several rules share that priority and their weights sum to at most 0.
\<close>

theorem evaluate_spec:
  "case evaluate hour u (make_engine rules d c) sg of
     Inr None \<Rightarrow> \<not> list_ex (\<lambda>r. rule_matches hour hour r sg) rules
   | Inr (Some mid) \<Rightarrow> list_ex (\<lambda>r. rule_matches hour hour r sg \<and> rl_manifest_id r = mid \<and>
       list_all (\<lambda>r'. rule_matches hour hour r' sg \<longrightarrow> rl_priority r' \<le> rl_priority r) rules) rules
   | Inl e \<Rightarrow> e = ValueError \<and> (\<exists>tier. 2 \<le> length tier \<and> set tier \<subseteq> set rules \<and> sum_list (map rl_weight tier) \<le> 0)"
  by (rule evaluate_cases)

theorem evaluate_spec_witness:
  "evaluate 12 0 (make_engine [plain_rule ''r1'' 1 ''m1'' 1, plain_rule ''r2'' 5 ''m2'' 2] 0 0) demo_signal \<noteq> Inr None"
  using evaluate_spec [where hour = 12 and u = 0 and d = 0 and c = 0 and sg = demo_signal
      and rules = "[plain_rule ''r1'' 1 ''m1'' 1, plain_rule ''r2'' 5 ''m2'' 2]"]
  by (auto simp: rule_matches_def demo_signal_def plain_rule_def gte_def lte_def eqs_def attention_ok_def
      demographics_ok_def has_demographic_condition_def demographic_conditions_def)

end
