(* ===== verification/RuleGenerator.thy ===== *)
theory RuleGenerator
  imports Policy
begin

section \<open>Rule generator (services/dashboard-api/dashboard_api/rule_generator.py)\<close>

text \<open>
  From the audience tags an operator puts on a manifest to the rules file that the decision
  optimizer loads. A manifest is the pair of columns the generator reads; a condition
  dictionary maps the names of the policy's condition fields to numbers; a rule dictionary
  is the record \<open>gen_rule\<close>. The properties run the generated file through the loader and the
  engine of theory Policy.
\<close>

type_synonym conditions = "(string \<times> rat) list"

record tagged_manifest =
  tm_manifest_id :: string
  tm_audience_tags :: "string list option"

record gen_rule =
  gr_rule_id :: string
  gr_priority :: int
  gr_weight :: rat
  gr_manifest_id :: string
  gr_conditions :: conditions
  gr_tiebreak_index :: "nat option"

subsection \<open>Tag tables\<close>

definition AUDIENCE_TAGS :: "string list" where
  "AUDIENCE_TAGS =
     [''attract'', ''general'', ''solo_adult'', ''group_adults'', ''adult_with_child'',
      ''teenager_group'', ''seniors'', ''male_focus'', ''female_focus'', ''attire_formal'',
      ''attire_business_casual'', ''attire_casual'', ''attire_athletic'',
      ''attire_outdoor_technical'', ''attire_workwear_uniform'', ''attire_streetwear'',
      ''attire_luxury_premium'', ''attire_lounge_comfort'', ''attire_smart_occasion'']"

definition TIME_TAGS :: "string list" where
  "TIME_TAGS = [''time_morning'', ''time_lunch'', ''time_afternoon'', ''time_happy_hour'',
     ''time_evening'', ''time_late_night'', ''time_all_day'']"

definition OCCASION_TAGS :: "string list" where
  "OCCASION_TAGS = [''promo_featured'', ''promo_limited_time'', ''promo_seasonal'']"

definition FREQUENCY_TAGS :: "string list" where
  "FREQUENCY_TAGS = [''freq_primary'', ''freq_recurring'', ''freq_ambient'']"

definition ALL_VALID_TAGS :: "string list" where
  "ALL_VALID_TAGS = AUDIENCE_TAGS @ TIME_TAGS @ OCCASION_TAGS @ FREQUENCY_TAGS"

definition attention_gate_threshold :: rat where
  "attention_gate_threshold = 35/100"

definition attention_gate_excluded :: "string list" where
  "attention_gate_excluded = [''attract'', ''general'']"

definition dimension_groups :: "(string \<times> string) list" where
  "dimension_groups =
     [(''solo_adult'', ''age''), (''group_adults'', ''age''), (''adult_with_child'', ''age''),
      (''teenager_group'', ''age''), (''seniors'', ''age''),
      (''male_focus'', ''gender''), (''female_focus'', ''gender''),
      (''attire_formal'', ''attire''), (''attire_business_casual'', ''attire''),
      (''attire_casual'', ''attire''), (''attire_athletic'', ''attire''),
      (''attire_outdoor_technical'', ''attire''), (''attire_workwear_uniform'', ''attire''),
      (''attire_streetwear'', ''attire''), (''attire_luxury_premium'', ''attire''),
      (''attire_lounge_comfort'', ''attire''), (''attire_smart_occasion'', ''attire'')]"

definition cross_dim_priority_bonus :: int where
  "cross_dim_priority_bonus = 3"

text \<open>The attire tags share the shape of their conditions and differ in the threshold.\<close>

definition attire_conditions :: "string \<Rightarrow> rat \<Rightarrow> conditions" where
  "attire_conditions k t = [(''presence_count_gte'', 1), (''presence_confidence_gte'', 6/10), (k, t)]"

definition audience_conditions :: "(string \<times> conditions) list" where
  "audience_conditions =
     [(''attract'', []),
      (''general'', [(''presence_count_gte'', 1), (''presence_confidence_gte'', 6/10)]),
      (''solo_adult'', [(''presence_count_eq'', 1), (''presence_confidence_gte'', 7/10),
         (''age_group_adult_gte'', 5/10)]),
      (''group_adults'', [(''presence_count_gte'', 2), (''presence_confidence_gte'', 7/10),
         (''age_group_adult_gte'', 5/10)]),
      (''adult_with_child'', [(''presence_count_gte'', 2), (''presence_confidence_gte'', 7/10),
         (''age_group_child_gte'', 2/10), (''age_group_adult_gte'', 3/10)]),
      (''teenager_group'', [(''presence_count_gte'', 1), (''presence_confidence_gte'', 7/10),
         (''age_group_young_adult_gte'', 5/10)]),
      (''seniors'', [(''presence_count_gte'', 1), (''presence_confidence_gte'', 7/10),
         (''age_group_senior_gte'', 4/10)]),
      (''male_focus'', [(''presence_count_gte'', 1), (''presence_confidence_gte'', 6/10),
         (''gender_male_gte'', 55/100)]),
      (''female_focus'', [(''presence_count_gte'', 1), (''presence_confidence_gte'', 6/10),
         (''gender_female_gte'', 55/100)]),
      (''attire_formal'', attire_conditions ''attire_formal_gte'' (45/100)),
      (''attire_athletic'', attire_conditions ''attire_athletic_gte'' (45/100)),
      (''attire_outdoor_technical'', attire_conditions ''attire_outdoor_technical_gte'' (45/100)),
      (''attire_workwear_uniform'', attire_conditions ''attire_workwear_uniform_gte'' (45/100)),
      (''attire_business_casual'', attire_conditions ''attire_business_casual_gte'' (50/100)),
      (''attire_streetwear'', attire_conditions ''attire_streetwear_gte'' (50/100)),
      (''attire_casual'', attire_conditions ''attire_casual_gte'' (50/100)),
      (''attire_luxury_premium'', attire_conditions ''attire_luxury_premium_gte'' (55/100)),
      (''attire_smart_occasion'', attire_conditions ''attire_smart_occasion_gte'' (55/100)),
      (''attire_lounge_comfort'', attire_conditions ''attire_lounge_comfort_gte'' (55/100))]"

datatype window = AllDay | Hours int int | Slots "(int \<times> int) list"

definition time_windows :: "(string \<times> window) list" where
  "time_windows =
     [(''time_morning'', Hours 6 10), (''time_lunch'', Hours 11 13), (''time_afternoon'', Hours 14 16),
      (''time_happy_hour'', Hours 16 18), (''time_evening'', Hours 18 21),
      (''time_late_night'', Slots [(22, 23), (0, 5)]), (''time_all_day'', AllDay)]"

definition audience_base_priority :: "(string \<times> int) list" where
  "audience_base_priority =
     (''attract'', 0) # (''general'', 5) # map (\<lambda>t. (t, 10))
       [''solo_adult'', ''group_adults'', ''adult_with_child'', ''teenager_group'', ''seniors'',
        ''male_focus'', ''female_focus'', ''attire_formal'', ''attire_business_casual'',
        ''attire_casual'', ''attire_athletic'', ''attire_outdoor_technical'',
        ''attire_workwear_uniform'', ''attire_streetwear'', ''attire_luxury_premium'',
        ''attire_lounge_comfort'', ''attire_smart_occasion'']"

definition time_only_priority_boost :: int where
  "time_only_priority_boost = 10"

definition time_audience_priority_boost :: int where
  "time_audience_priority_boost = 20"

definition occasion_priority_bonus :: "(string \<times> int) list" where
  "occasion_priority_bonus = [(''promo_featured'', 15), (''promo_limited_time'', 30), (''promo_seasonal'', 0)]"

text \<open>Priority and weight of the reminder rule.\<close>

definition freq_reminder :: "(string \<times> int \<times> rat) list" where
  "freq_reminder = [(''freq_recurring'', 7, 3/10), (''freq_ambient'', 3, 2/10)]"

subsection \<open>Conditions\<close>

definition lookup_or :: "('k \<times> 'v) list \<Rightarrow> 'k \<Rightarrow> 'v \<Rightarrow> 'v" where
  "lookup_or d k v = (case map_of d k of None \<Rightarrow> v | Some x \<Rightarrow> x)"

definition tag_conditions :: "string \<Rightarrow> conditions" where
  "tag_conditions tag = lookup_or audience_conditions tag []"

definition inject_attention_gate :: "conditions \<Rightarrow> string \<Rightarrow> conditions" where
  "inject_attention_gate cond tag =
     (if tag \<in> set attention_gate_excluded then cond
      else AList.update ''attention_engaged_gte'' attention_gate_threshold cond)"

text \<open>A key of both dictionaries keeps the larger number (every condition is a number here).\<close>

definition merge_conditions :: "conditions \<Rightarrow> conditions \<Rightarrow> conditions" where
  "merge_conditions a b =
     fold (\<lambda>(key, val) merged.
       case map_of merged key of
         None \<Rightarrow> AList.update key val merged
       | Some x \<Rightarrow> AList.update key (max x val) merged) b a"

definition with_slot :: "(int \<times> int) option \<Rightarrow> conditions \<Rightarrow> conditions" where
  "with_slot slot cond =
     (case slot of
        None \<Rightarrow> cond
      | Some (lo, hi) \<Rightarrow>
          AList.update ''time_hour_lte'' (of_int hi) (AList.update ''time_hour_gte'' (of_int lo) cond))"

definition presence_conditions :: conditions where
  "presence_conditions = [(''presence_count_gte'', 1), (''presence_confidence_gte'', 6/10)]"

subsection \<open>Rules of one manifest\<close>

definition mk_rule :: "string \<Rightarrow> int \<Rightarrow> rat \<Rightarrow> string \<Rightarrow> conditions \<Rightarrow> gen_rule" where
  "mk_rule rid priority weight mid cond =
     \<lparr>gr_rule_id = rid, gr_priority = priority, gr_weight = weight, gr_manifest_id = mid,
      gr_conditions = cond, gr_tiebreak_index = None\<rparr>"

definition slot_suffix :: "nat \<Rightarrow> string" where
  "slot_suffix slot_idx = (if 0 < slot_idx then ''-s'' @ show_nat slot_idx else '''')"

text \<open>\<open>itertools.combinations(xs, 2)\<close>\<close>

fun pairs :: "'a list \<Rightarrow> ('a \<times> 'a) list" where
  "pairs [] = []"
| "pairs (x # xs) = map (Pair x) xs @ pairs xs"

definition dimensioned :: "string list \<Rightarrow> (string \<times> string) list" where
  "dimensioned tags = List.map_filter (\<lambda>t. map_option (Pair t) (map_of dimension_groups t)) tags"

definition cross_rule :: "string \<Rightarrow> (int \<times> int) option \<Rightarrow> nat \<Rightarrow> string option \<Rightarrow> int \<Rightarrow> string \<Rightarrow> string \<Rightarrow> gen_rule" where
  "cross_rule manifest_id slot slot_idx time_tag occasion_bonus tag_a tag_b =
     (let merged = merge_conditions (tag_conditions tag_a) (tag_conditions tag_b);
          cond = with_slot slot (AList.update ''attention_engaged_gte'' attention_gate_threshold merged);
          base_pri = 10 + cross_dim_priority_bonus;
          priority = (if time_tag \<noteq> None then base_pri + time_audience_priority_boost + occasion_bonus
                      else base_pri + occasion_bonus);
          time_part = (case time_tag of None \<Rightarrow> '''' | Some t \<Rightarrow> ''-'' @ t @ slot_suffix slot_idx)
      in mk_rule (''autogen-'' @ manifest_id @ time_part @ ''-'' @ tag_a @ ''+'' @ tag_b)
           priority 1 manifest_id cond)"

definition generate_cross_dim_rules :: "string \<Rightarrow> string list \<Rightarrow> (int \<times> int) option \<Rightarrow> nat \<Rightarrow> string option \<Rightarrow> int
    \<Rightarrow> gen_rule list" where
  "generate_cross_dim_rules manifest_id audience_tags slot slot_idx time_tag occasion_bonus =
     map (\<lambda>((tag_a, _), (tag_b, _)). cross_rule manifest_id slot slot_idx time_tag occasion_bonus tag_a tag_b)
       (filter (\<lambda>((_, dim_a), (_, dim_b)). dim_a \<noteq> dim_b) (pairs (dimensioned audience_tags)))"

definition window_slots :: "string \<Rightarrow> (int \<times> int) option list" where
  "window_slots time_tag =
     (case lookup_or time_windows time_tag AllDay of
        AllDay \<Rightarrow> [None]
      | Hours lo hi \<Rightarrow> [Some (lo, hi)]
      | Slots xs \<Rightarrow> map Some xs)"

definition timed_rules :: "string \<Rightarrow> string list \<Rightarrow> int \<Rightarrow> string \<Rightarrow> nat \<Rightarrow> (int \<times> int) option \<Rightarrow> gen_rule list" where
  "timed_rules manifest_id audience occasion_bonus time_tag slot_idx slot =
     (if audience \<noteq> [] then
        map (\<lambda>aud_tag.
          mk_rule (''autogen-'' @ manifest_id @ ''-'' @ time_tag @ slot_suffix slot_idx @ ''-'' @ aud_tag)
            (lookup_or audience_base_priority aud_tag 10 + time_audience_priority_boost + occasion_bonus)
            1 manifest_id
            (with_slot slot (inject_attention_gate (tag_conditions aud_tag) aud_tag))) audience @
        generate_cross_dim_rules manifest_id audience slot slot_idx (Some time_tag) occasion_bonus
      else
        [mk_rule (''autogen-'' @ manifest_id @ ''-'' @ time_tag @ slot_suffix slot_idx)
           (time_only_priority_boost + occasion_bonus) 1 manifest_id
           (with_slot slot presence_conditions)])"

definition untimed_rules :: "string \<Rightarrow> string list \<Rightarrow> int \<Rightarrow> gen_rule list" where
  "untimed_rules manifest_id audience occasion_bonus =
     map (\<lambda>aud_tag.
       mk_rule (''autogen-'' @ manifest_id @ ''-'' @ aud_tag)
         (lookup_or audience_base_priority aud_tag 10 + occasion_bonus) 1 manifest_id
         (inject_attention_gate (tag_conditions aud_tag) aud_tag)) audience @
     generate_cross_dim_rules manifest_id audience None 0 None occasion_bonus"

definition generate_rules_for_manifest :: "tagged_manifest \<Rightarrow> gen_rule list" where
  "generate_rules_for_manifest manifest =
     (let tags = (case tm_audience_tags manifest of None \<Rightarrow> [] | Some ts \<Rightarrow> ts) in
      if tags = [] then []
      else
        let mid = tm_manifest_id manifest;
            audience = filter (\<lambda>t. t \<in> set AUDIENCE_TAGS) tags;
            time_tags = filter (\<lambda>t. t \<in> set TIME_TAGS) tags;
            occasion = filter (\<lambda>t. t \<in> set OCCASION_TAGS) tags;
            freq = (case find (\<lambda>t. t \<in> set FREQUENCY_TAGS) tags of None \<Rightarrow> ''freq_primary'' | Some t \<Rightarrow> t);
            occasion_bonus = sum_list (map (\<lambda>t. lookup_or occasion_priority_bonus t 0) occasion);
            rules = (if time_tags \<noteq> []
              then concat (map (\<lambda>time_tag.
                concat (map (\<lambda>(slot_idx, slot). timed_rules mid audience occasion_bonus time_tag slot_idx slot)
                  (enumerate 0 (window_slots time_tag)))) time_tags)
              else untimed_rules mid audience occasion_bonus)
        in case map_of freq_reminder freq of
             Some (priority, weight) \<Rightarrow>
               if rules \<noteq> []
               then rules @ [mk_rule (''autogen-'' @ mid @ ''-reminder'') priority weight mid presence_conditions]
               else rules
           | None \<Rightarrow> rules)"

subsection \<open>The rules file\<close>

record rules_file =
  rf_min_dwell_ms :: int
  rf_cooldown_ms :: int
  rf_rules :: "gen_rule list"

definition collect_rules :: "tagged_manifest list \<Rightarrow> gen_rule list" where
  "collect_rules enabled =
     concat (map (\<lambda>(idx, manifest).
       map (\<lambda>r. r\<lparr>gr_tiebreak_index := Some idx\<rparr>) (generate_rules_for_manifest manifest))
       (enumerate 0 enabled))"

definition build_rules_file :: "tagged_manifest list \<Rightarrow> int \<Rightarrow> int \<Rightarrow> rules_file" where
  "build_rules_file enabled_manifests min_dwell_ms cooldown_ms =
     (let all_rules = collect_rules enabled_manifests;
          has_fallback = list_ex (\<lambda>r. length (gr_conditions r) = 0) all_rules;
          fallback_target = (case enabled_manifests of [] \<Rightarrow> ''manifest-attract'' | m # _ \<Rightarrow> tm_manifest_id m)
      in \<lparr>rf_min_dwell_ms = min_dwell_ms, rf_cooldown_ms = cooldown_ms,
          rf_rules = (if has_fallback then all_rules
            else all_rules @ [mk_rule ''autogen-safety-fallback'' (-1) 1 fallback_target []])\<rparr>)"

text \<open>The dictionaries as \<open>json.dump\<close> writes them.\<close>

definition num_json :: "rat \<Rightarrow> json" where
  "num_json x = (if of_int \<lfloor>x\<rfloor> = x then JInt \<lfloor>x\<rfloor> else JFloat x)"

definition rule_json :: "gen_rule \<Rightarrow> json" where
  "rule_json r = JObj
     ([(''rule_id'', JStr (gr_rule_id r)), (''priority'', JInt (gr_priority r)),
       (''weight'', JFloat (gr_weight r)), (''manifest_id'', JStr (gr_manifest_id r)),
       (''conditions'', JObj (map (\<lambda>(k, v). (k, num_json v)) (gr_conditions r)))] @
      (case gr_tiebreak_index r of None \<Rightarrow> [] | Some n \<Rightarrow> [(''_tiebreak_index'', JInt (int n))]))"

definition rules_file_json :: "rules_file \<Rightarrow> json" where
  "rules_file_json f = JObj
     [(''schema_version'', JStr ''1.0.0''), (''min_dwell_ms'', JInt (rf_min_dwell_ms f)),
      (''cooldown_ms'', JInt (rf_cooldown_ms f)), (''rules'', JArr (map rule_json (rf_rules f)))]"

subsection \<open>Well-formed condition dictionaries\<close>

definition demographic_keys :: "string list" where
  "demographic_keys = [''age_group_child_gte'', ''age_group_young_adult_gte'', ''age_group_adult_gte'',
     ''age_group_senior_gte'', ''gender_male_gte'', ''gender_female_gte'', ''attire_formal_gte'',
     ''attire_business_casual_gte'', ''attire_casual_gte'', ''attire_athletic_gte'',
     ''attire_outdoor_technical_gte'', ''attire_workwear_uniform_gte'', ''attire_streetwear_gte'',
     ''attire_luxury_premium_gte'', ''attire_lounge_comfort_gte'', ''attire_smart_occasion_gte'']"

definition generated_keys :: "string list" where
  "generated_keys = [''presence_count_gte'', ''presence_count_eq'', ''presence_confidence_gte'',
     ''attention_engaged_gte'', ''time_hour_gte'', ''time_hour_lte''] @ demographic_keys"

definition conds_ok :: "conditions \<Rightarrow> bool" where
  "conds_ok c \<longleftrightarrow> list_all (\<lambda>(k, _). k \<in> set generated_keys) c"

definition targeted :: "conditions \<Rightarrow> bool" where
  "targeted c \<longleftrightarrow> list_ex (\<lambda>k. map_of c k \<noteq> None) demographic_keys"

definition gated :: "conditions \<Rightarrow> bool" where
  "gated c \<longleftrightarrow> (targeted c \<longrightarrow> map_of c ''attention_engaged_gte'' = Some attention_gate_threshold)"

definition rule_ok :: "string set \<Rightarrow> gen_rule \<Rightarrow> bool" where
  "rule_ok mids r \<longleftrightarrow>
     conds_ok (gr_conditions r) \<and> gated (gr_conditions r) \<and> 0 < gr_weight r \<and> gr_manifest_id r \<in> mids"

named_theorems gen_intros \<open>the generator builds well-formed rules\<close>

lemma conds_ok_update [gen_intros]:
  "conds_ok c \<Longrightarrow> k \<in> set generated_keys \<Longrightarrow> conds_ok (AList.update k v c)"
  by (induction c) (auto simp: conds_ok_def)

lemma time_keys [simp]:
  "''time_hour_gte'' \<in> set generated_keys" "''time_hour_lte'' \<in> set generated_keys"
  "''attention_engaged_gte'' \<in> set generated_keys"
  by (simp_all add: generated_keys_def)

lemma merge_conditions_simps:
  "merge_conditions a [] = a"
  "merge_conditions a ((k, v) # b) =
     merge_conditions (AList.update k (case map_of a k of None \<Rightarrow> v | Some x \<Rightarrow> max x v) a) b"
  by (simp_all add: merge_conditions_def split: option.split)

lemma conds_ok_Cons: "conds_ok ((k, v) # c) \<longleftrightarrow> k \<in> set generated_keys \<and> conds_ok c"
  by (simp add: conds_ok_def)

lemma conds_ok_merge [gen_intros]:
  "conds_ok a \<Longrightarrow> conds_ok b \<Longrightarrow> conds_ok (merge_conditions a b)"
proof (induction b arbitrary: a)
  case Nil
  then show ?case by (simp add: merge_conditions_simps)
next
  case (Cons kv b)
  then show ?case by (cases kv) (simp add: merge_conditions_simps conds_ok_Cons conds_ok_update)
qed

lemma tag_conditions_cases:
  assumes "P []" "list_all (\<lambda>(_, c). P c) audience_conditions"
  shows "P (tag_conditions tag)"
proof (cases "map_of audience_conditions tag")
  case None
  with assms(1) show ?thesis by (simp add: tag_conditions_def lookup_or_def)
next
  case (Some c)
  with assms(2) show ?thesis
    by (auto simp: tag_conditions_def lookup_or_def list_all_iff dest: map_of_SomeD)
qed

lemma conds_ok_tag [gen_intros]: "conds_ok (tag_conditions tag)"
  by (rule tag_conditions_cases, code_simp, code_simp)

lemma conds_ok_slot [gen_intros]: "conds_ok c \<Longrightarrow> conds_ok (with_slot slot c)"
  by (auto simp: with_slot_def split: option.split intro!: conds_ok_update)

lemma conds_ok_gate [gen_intros]: "conds_ok c \<Longrightarrow> conds_ok (inject_attention_gate c tag)"
  by (simp add: inject_attention_gate_def conds_ok_update)

lemma conds_ok_presence [gen_intros]: "conds_ok presence_conditions" "conds_ok []"
  by (simp_all add: presence_conditions_def conds_ok_def generated_keys_def)

lemma attention_is_no_demographic: "''attention_engaged_gte'' \<notin> set demographic_keys"
  by (simp add: demographic_keys_def)

lemma gated_update_gate [gen_intros]: "gated (AList.update ''attention_engaged_gte'' attention_gate_threshold c)"
  by (simp add: gated_def dict_simps)

lemma gated_slot [gen_intros]: "gated c \<Longrightarrow> gated (with_slot slot c)"
  by (auto simp: gated_def targeted_def with_slot_def dict_simps demographic_keys_def
      split: option.splits if_splits)

lemma gated_untargeted: "\<not> targeted c \<Longrightarrow> gated c"
  by (simp add: gated_def)

lemma gated_presence [gen_intros]: "gated presence_conditions" "gated []"
  by (simp_all add: gated_def targeted_def presence_conditions_def demographic_keys_def)

lemma excluded_untargeted:
  "\<not> targeted (tag_conditions ''attract'')" "\<not> targeted (tag_conditions ''general'')"
  by code_simp+

lemma gated_gate [gen_intros]: "gated (inject_attention_gate (tag_conditions tag) tag)"
proof (cases "tag \<in> set attention_gate_excluded")
  case True
  then have "\<not> targeted (tag_conditions tag)"
    by (auto simp: attention_gate_excluded_def excluded_untargeted)
  with True show ?thesis by (simp add: inject_attention_gate_def gated_untargeted)
next
  case False
  then show ?thesis by (simp add: inject_attention_gate_def gated_update_gate)
qed

lemma rule_ok_mk:
  "conds_ok c \<Longrightarrow> gated c \<Longrightarrow> 0 < w \<Longrightarrow> mid \<in> mids \<Longrightarrow> rule_ok mids (mk_rule rid p w mid c)"
  by (simp add: rule_ok_def mk_rule_def)

lemma cross_rule_ok: "mid \<in> mids \<Longrightarrow> rule_ok mids (cross_rule mid slot n tt ob ta tb)"
  by (auto simp: cross_rule_def Let_def intro!: rule_ok_mk gen_intros)

lemma cross_rules_ok:
  "mid \<in> mids \<Longrightarrow> r \<in> set (generate_cross_dim_rules mid aud slot n tt ob) \<Longrightarrow> rule_ok mids r"
  by (auto simp: generate_cross_dim_rules_def split_beta intro!: cross_rule_ok)

lemma timed_rules_ok:
  "mid \<in> mids \<Longrightarrow> r \<in> set (timed_rules mid aud ob tt n slot) \<Longrightarrow> rule_ok mids r"
  by (auto simp: timed_rules_def split: if_splits intro: cross_rules_ok intro!: rule_ok_mk gen_intros)

lemma untimed_rules_ok:
  "mid \<in> mids \<Longrightarrow> r \<in> set (untimed_rules mid aud ob) \<Longrightarrow> rule_ok mids r"
  by (auto simp: untimed_rules_def intro: cross_rules_ok intro!: rule_ok_mk gen_intros)

lemma freq_reminder_weight: "map_of freq_reminder f = Some (p, w) \<Longrightarrow> 0 < w"
  by (auto simp: freq_reminder_def split: if_splits)

lemma generated_ok:
  assumes "r \<in> set (generate_rules_for_manifest m)" "tm_manifest_id m \<in> mids"
  shows "rule_ok mids r"
  using assms
  by (auto simp: generate_rules_for_manifest_def Let_def split: if_splits option.splits
      intro: timed_rules_ok untimed_rules_ok
      intro!: rule_ok_mk gen_intros dest: freq_reminder_weight)

lemma collected_ok: "r \<in> set (collect_rules ms) \<Longrightarrow> rule_ok (tm_manifest_id ` set ms) r"
proof -
  assume "r \<in> set (collect_rules ms)"
  then obtain n m r' where "(n, m) \<in> set (enumerate 0 ms)"
    "r' \<in> set (generate_rules_for_manifest m)" "r = r'\<lparr>gr_tiebreak_index := Some n\<rparr>"
    by (auto simp: collect_rules_def)
  moreover from this have "m \<in> set ms" by (auto simp: in_set_enumerate_eq)
  ultimately show ?thesis
    using generated_ok [of r' m "tm_manifest_id ` set ms"] by (auto simp: rule_ok_def)
qed

text \<open>The manifests a rules file may name.\<close>

definition allowed_ids :: "tagged_manifest list \<Rightarrow> string set" where
  "allowed_ids ms = (if ms = [] then {''manifest-attract''} else tm_manifest_id ` set ms)"

lemma collect_Nil [simp]: "collect_rules [] = []"
  by (simp add: collect_rules_def)

lemma rules_file_ok:
  assumes "r \<in> set (rf_rules (build_rules_file ms d c))"
  shows "rule_ok (allowed_ids ms) r"
proof (cases "r \<in> set (collect_rules ms)")
  case True
  with collected_ok [OF True] show ?thesis by (cases ms) (simp_all add: allowed_ids_def)
next
  case False
  with assms show ?thesis
    by (cases ms) (auto simp: build_rules_file_def Let_def allowed_ids_def split: if_splits
        intro!: rule_ok_mk gen_intros)
qed

subsection \<open>What the policy loader makes of a generated file\<close>

definition loaded :: "gen_rule \<Rightarrow> rule" where
  "loaded r =
     (let num = map_of (gr_conditions r) in
      \<lparr>rl_rule_id = gr_rule_id r, rl_priority = gr_priority r, rl_manifest_id = gr_manifest_id r,
        rl_weight = gr_weight r,
        rl_presence_count_gte = num ''presence_count_gte'',
        rl_presence_count_lte = num ''presence_count_lte'',
        rl_presence_count_eq = num ''presence_count_eq'',
        rl_presence_confidence_gte = num ''presence_confidence_gte'',
        rl_age_group_child_gte = num ''age_group_child_gte'',
        rl_age_group_young_adult_gte = num ''age_group_young_adult_gte'',
        rl_age_group_adult_gte = num ''age_group_adult_gte'',
        rl_age_group_senior_gte = num ''age_group_senior_gte'',
        rl_gender_male_gte = num ''gender_male_gte'',
        rl_gender_female_gte = num ''gender_female_gte'',
        rl_attire_formal_gte = num ''attire_formal_gte'',
        rl_attire_business_casual_gte = num ''attire_business_casual_gte'',
        rl_attire_casual_gte = num ''attire_casual_gte'',
        rl_attire_athletic_gte = num ''attire_athletic_gte'',
        rl_attire_outdoor_technical_gte = num ''attire_outdoor_technical_gte'',
        rl_attire_workwear_uniform_gte = num ''attire_workwear_uniform_gte'',
        rl_attire_streetwear_gte = num ''attire_streetwear_gte'',
        rl_attire_luxury_premium_gte = num ''attire_luxury_premium_gte'',
        rl_attire_lounge_comfort_gte = num ''attire_lounge_comfort_gte'',
        rl_attire_smart_occasion_gte = num ''attire_smart_occasion_gte'',
        rl_demographics_suppressed_eq = None,
        rl_attention_engaged_gte = num ''attention_engaged_gte'',
        rl_time_hour_gte = num ''time_hour_gte'',
        rl_time_hour_lte = num ''time_hour_lte''\<rparr>)"

lemma loaded_fields:
  "rl_presence_count_gte (loaded r) = map_of (gr_conditions r) ''presence_count_gte''"
  "rl_presence_count_lte (loaded r) = map_of (gr_conditions r) ''presence_count_lte''"
  "rl_presence_count_eq (loaded r) = map_of (gr_conditions r) ''presence_count_eq''"
  "rl_presence_confidence_gte (loaded r) = map_of (gr_conditions r) ''presence_confidence_gte''"
  "rl_age_group_child_gte (loaded r) = map_of (gr_conditions r) ''age_group_child_gte''"
  "rl_age_group_young_adult_gte (loaded r) = map_of (gr_conditions r) ''age_group_young_adult_gte''"
  "rl_age_group_adult_gte (loaded r) = map_of (gr_conditions r) ''age_group_adult_gte''"
  "rl_age_group_senior_gte (loaded r) = map_of (gr_conditions r) ''age_group_senior_gte''"
  "rl_gender_male_gte (loaded r) = map_of (gr_conditions r) ''gender_male_gte''"
  "rl_gender_female_gte (loaded r) = map_of (gr_conditions r) ''gender_female_gte''"
  "rl_attire_formal_gte (loaded r) = map_of (gr_conditions r) ''attire_formal_gte''"
  "rl_attire_business_casual_gte (loaded r) = map_of (gr_conditions r) ''attire_business_casual_gte''"
  "rl_attire_casual_gte (loaded r) = map_of (gr_conditions r) ''attire_casual_gte''"
  "rl_attire_athletic_gte (loaded r) = map_of (gr_conditions r) ''attire_athletic_gte''"
  "rl_attire_outdoor_technical_gte (loaded r) = map_of (gr_conditions r) ''attire_outdoor_technical_gte''"
  "rl_attire_workwear_uniform_gte (loaded r) = map_of (gr_conditions r) ''attire_workwear_uniform_gte''"
  "rl_attire_streetwear_gte (loaded r) = map_of (gr_conditions r) ''attire_streetwear_gte''"
  "rl_attire_luxury_premium_gte (loaded r) = map_of (gr_conditions r) ''attire_luxury_premium_gte''"
  "rl_attire_lounge_comfort_gte (loaded r) = map_of (gr_conditions r) ''attire_lounge_comfort_gte''"
  "rl_attire_smart_occasion_gte (loaded r) = map_of (gr_conditions r) ''attire_smart_occasion_gte''"
  "rl_attention_engaged_gte (loaded r) = map_of (gr_conditions r) ''attention_engaged_gte''"
  "rl_time_hour_gte (loaded r) = map_of (gr_conditions r) ''time_hour_gte''"
  "rl_time_hour_lte (loaded r) = map_of (gr_conditions r) ''time_hour_lte''"
  "rl_demographics_suppressed_eq (loaded r) = None" "rl_weight (loaded r) = gr_weight r"
  "rl_manifest_id (loaded r) = gr_manifest_id r" "rl_priority (loaded r) = gr_priority r"
  by (simp_all add: loaded_def Let_def)

lemma jnum_num_json [simp]: "jnum (num_json x) = Some x"
  by (simp add: num_json_def)

lemma cond_num_json: "cond_num (JObj (map (\<lambda>(k, v). (k, num_json v)) c)) k = map_of c k"
  by (simp add: cond_num_def map_of_map split: option.split)

lemma map_of_json_keys: "map_of (map (\<lambda>(k, v). (k, num_json v)) c) k = map_option num_json (map_of c k)"
  by (simp add: map_of_map)

lemma conds_ok_no_suppressed: "conds_ok c \<Longrightarrow> map_of c ''demographics_suppressed_eq'' = None"
  by (induction c) (auto simp: conds_ok_def generated_keys_def demographic_keys_def)

lemma conds_ok_typed: "conds_ok c \<Longrightarrow> conditions_typed (JObj (map (\<lambda>(k, v). (k, num_json v)) c))"
  by (auto simp: conditions_typed_def list_all_iff cond_num_json conds_ok_no_suppressed map_of_json_keys
      split: option.split)

lemma py_int_of_int [simp]: "py_int (of_int n) = n"
  by (simp add: py_int_def)

lemma load_rule_json:
  assumes "conds_ok (gr_conditions r)"
  shows "load_rule parse_int parse_float (rule_json r) = Inr (loaded r)"
  using conds_ok_typed [OF assms] conds_ok_no_suppressed [OF assms]
  by (simp add: load_rule_def rule_json_def loaded_def get_or_def Let_def py_float_def cond_num_json)

lemma load_rules_json:
  "(\<And>r. r \<in> set rs \<Longrightarrow> conds_ok (gr_conditions r)) \<Longrightarrow>
   load_rules parse_int parse_float (map rule_json rs) = Inr (map loaded rs)"
  by (induction rs) (simp_all add: load_rule_json)

lemma rf_fields [simp]:
  "rf_min_dwell_ms (build_rules_file ms d c) = d" "rf_cooldown_ms (build_rules_file ms d c) = c"
  by (simp_all add: build_rules_file_def Let_def)

lemma catch_all_present: "\<exists>r \<in> set (rf_rules (build_rules_file ms d c)). gr_conditions r = []"
  by (auto simp: build_rules_file_def Let_def mk_rule_def list_ex_iff)

lemma load_built_file:
  "load_policy parse_int parse_float (Some (rules_file_json (build_rules_file ms d c))) =
     Inr (make_engine (map loaded (rf_rules (build_rules_file ms d c))) d c)"
proof -
  define rs where "rs = rf_rules (build_rules_file ms d c)"
  have ok: "conds_ok (gr_conditions r)" if "r \<in> set rs" for r
    using rules_file_ok [of r ms d c] that by (simp add: rs_def rule_ok_def)
  obtain r0 rs' where "rs = r0 # rs'" using catch_all_present [of ms d c] rs_def by (cases rs) force+
  then have "load_rules parse_int parse_float (rule_json r0 # map rule_json rs') = Inr (map loaded rs)"
    and "map rule_json rs = rule_json r0 # map rule_json rs'"
    using load_rules_json [of rs parse_int parse_float] ok by simp_all
  then show ?thesis
    by (simp add: load_policy_def rules_file_json_def get_or_def py_float_def flip: rs_def)
qed

lemma targeted_loaded: "has_demographic_condition (loaded r) \<longleftrightarrow> targeted (gr_conditions r)"
  by (simp add: has_demographic_condition_def demographic_conditions_def targeted_def
      demographic_keys_def loaded_def Let_def)

lemma catch_all_matches:
  assumes "gr_conditions r = []" "sg_presence sg \<noteq> None"
  shows "rule_matches ch h (loaded r) sg"
proof -
  have "\<not> has_demographic_condition (loaded r)"
    using assms(1) by (simp add: targeted_loaded targeted_def list_ex_iff)
  with assms show ?thesis
    by (auto simp: rule_matches_def demographics_ok_def attention_ok_def gte_def lte_def eqs_def
        loaded_def Let_def split: option.split)
qed

lemma generated_answers:
  assumes "sg_presence sg \<noteq> None"
  shows "\<exists>mid \<in> allowed_ids ms.
    evaluate hour u (make_engine (map loaded (rf_rules (build_rules_file ms d c))) d c) sg = Inr (Some mid)"
proof -
  obtain r where r: "r \<in> set (rf_rules (build_rules_file ms d c))" "gr_conditions r = []"
    using catch_all_present by blast
  have "0 < rl_weight r'" if "r' \<in> set (map loaded (rf_rules (build_rules_file ms d c)))" for r'
    using that rules_file_ok by (auto simp: loaded_fields rule_ok_def)
  moreover have "loaded r \<in> set (map loaded (rf_rules (build_rules_file ms d c)))" using r(1) by simp
  ultimately obtain r' where r': "r' \<in> set (map loaded (rf_rules (build_rules_file ms d c)))"
    "evaluate hour u (make_engine (map loaded (rf_rules (build_rules_file ms d c))) d c) sg = Inr (Some (rl_manifest_id r'))"
    using evaluate_answers catch_all_matches [OF r(2) assms] by blast
  then have "rl_manifest_id r' \<in> allowed_ids ms"
    using rules_file_ok by (auto simp: loaded_fields rule_ok_def)
  with r'(2) show ?thesis by blast
qed

text \<open>
  C20. The rules file never leaves the optimizer without an answer: whatever manifests are
  enabled (also none), the generated file loads with the given dwell and cooldown, and every
  signal with a presence block, at every hour and for every draw, is answered with an
  enabled manifest (with none enabled: the stub \<open>manifest-attract\<close>).
\<close>

theorem rules_never_blank:
  "\<exists>eng. load_policy parse_int parse_float (Some (rules_file_json (build_rules_file ms d c))) = Inr eng \<and>
     pe_min_dwell_ms eng = d \<and> pe_cooldown_ms eng = c \<and>
     (\<forall>(sg :: audience_signal) hour u. sg_presence sg \<noteq> None \<longrightarrow>
        (\<exists>mid \<in> allowed_ids ms. evaluate hour u eng sg = Inr (Some mid)))"
  using load_built_file [of parse_int parse_float ms d c] generated_answers [of _ ms _ _ d c]
  by (auto simp: make_engine_def)

theorem rules_never_blank_witness:
  "\<exists>eng. load_policy (\<lambda>_. None) (\<lambda>_. None) (Some (rules_file_json (build_rules_file [] 10000 5000))) = Inr eng \<and>
     evaluate 12 0 eng demo_signal = Inr (Some ''manifest-attract'')"
proof -
  have "sg_presence demo_signal \<noteq> None" by (simp add: demo_signal_def)
  then show ?thesis
    using rules_never_blank [of "\<lambda>_. None" "\<lambda>_. None" "[]" 10000 5000] by (auto simp: allowed_ids_def)
qed

text \<open>
  Attention gate: in a loaded generated file no rule with a demographic condition fires
  while the attention block reports less than 35 percent engaged.
\<close>

theorem attention_gate_enforced:
  assumes "load_policy parse_int parse_float (Some (rules_file_json (build_rules_file ms d c))) = Inr eng"
    and "r \<in> set (pe_rules eng)" "has_demographic_condition r"
    and "sg_attention sg = Some (Some engaged)" "engaged < 35 / 100"
  shows "\<not> rule_matches clock_hour now_hour r sg"
proof -
  from assms(1,2) obtain g where g: "g \<in> set (rf_rules (build_rules_file ms d c))" "r = loaded g"
    by (auto simp: load_built_file)
  then have "targeted (gr_conditions g)" using assms(3) by (simp add: targeted_loaded)
  then have "rl_attention_engaged_gte r = Some (35 / 100)"
    using rules_file_ok [OF g(1)]
    by (simp add: g(2) loaded_def Let_def rule_ok_def gated_def attention_gate_threshold_def)
  then have "\<not> attention_ok r sg" using assms(4,5) by (simp add: attention_ok_def gte_def)
  then show ?thesis by (auto simp: rule_matches_def split: option.split)
qed

definition demo_tagged :: "tagged_manifest list" where
  "demo_tagged = [\<lparr>tm_manifest_id = ''m1'', tm_audience_tags = Some [''male_focus'', ''time_lunch'']\<rparr>]"

theorem attention_gate_enforced_witness:
  "\<not> rule_matches 12 12 (loaded (hd (rf_rules (build_rules_file demo_tagged 10000 5000))))
     (demo_signal\<lparr>sg_attention := Some (Some (1/5)),
        sg_demographics := Some \<lparr>dg_suppressed = Some False, dg_age_group = [],
          dg_gender = [(''male'', 9/10)], dg_attire = []\<rparr>\<rparr>)"
proof -
  let ?rs = "rf_rules (build_rules_file demo_tagged 10000 5000)"
  have "?rs \<noteq> []" by code_simp
  then have "loaded (hd ?rs) \<in> set (pe_rules (make_engine (map loaded ?rs) 10000 5000))" by simp
  moreover have "has_demographic_condition (loaded (hd ?rs))" by code_simp
  ultimately show ?thesis
    by (rule attention_gate_enforced
        [OF load_built_file [of "\<lambda>_. None" "\<lambda>_. None" demo_tagged 10000 5000], where engaged = "1/5"])
      simp_all
qed

subsection \<open>Cross-dimension rules\<close>

lemma map_of_merge:
  "distinct (map fst b) \<Longrightarrow>
   map_of (merge_conditions a b) k =
     (case (map_of a k, map_of b k) of
        (Some x, Some y) \<Rightarrow> Some (max x y) | (None, y) \<Rightarrow> y | (x, None) \<Rightarrow> x)"
proof (induction b arbitrary: a)
  case Nil
  then show ?case by (simp add: merge_conditions_simps split: option.split)
next
  case (Cons kv b)
  obtain k' v where kv: "kv = (k', v)" by (cases kv)
  then have fresh: "map_of b k' = None" using Cons.prems by (auto simp: map_of_eq_None_iff)
  have "distinct (map fst b)" using Cons.prems by simp
  note IH = Cons.IH [OF this]
  show ?case
    using fresh by (auto simp: kv merge_conditions_simps IH dict_simps split: option.splits)
qed

text \<open>
  One condition dictionary asks for no more than another: lower bounds, and for the upper
  bounds and the equality the same number or none.
\<close>

definition upper_key :: "string \<Rightarrow> bool" where
  "upper_key k \<longleftrightarrow> k \<in> {''presence_count_eq'', ''presence_count_lte'', ''time_hour_lte''}"

definition asks_less :: "conditions \<Rightarrow> conditions \<Rightarrow> bool" where
  "asks_less c' c \<longleftrightarrow>
     (\<forall>k v. \<not> upper_key k \<longrightarrow> gte (map_of c k) v \<longrightarrow> gte (map_of c' k) v) \<and>
     (\<forall>k. upper_key k \<longrightarrow> map_of c' k = None \<or> map_of c' k = map_of c k)"

lemma upper_keys [simp]:
  "upper_key ''presence_count_eq''" "upper_key ''presence_count_lte''" "upper_key ''time_hour_lte''"
  "\<not> upper_key ''presence_count_gte''" "\<not> upper_key ''presence_confidence_gte''"
  "\<not> upper_key ''time_hour_gte''" "\<not> upper_key ''attention_engaged_gte''"
  by (simp_all add: upper_key_def)

lemma demographic_no_upper: "k \<in> set demographic_keys \<Longrightarrow> \<not> upper_key k"
  by (auto simp: demographic_keys_def upper_key_def)

lemma gte_None [simp]: "gte None v"
  by (simp add: gte_def)

lemma asks_less_targeted:
  assumes "asks_less c' c" "targeted c'"
  shows "targeted c"
proof -
  from assms(2) obtain k t where k: "k \<in> set demographic_keys" "map_of c' k = Some t"
    by (auto simp: targeted_def list_ex_iff)
  then have "\<not> upper_key k" by (simp add: demographic_no_upper)
  moreover have "\<not> gte (map_of c' k) (t - 1)" using k by (simp add: gte_def)
  ultimately have "\<not> gte (map_of c k) (t - 1)" using assms(1) unfolding asks_less_def by blast
  then have "map_of c k \<noteq> None" by (cases "map_of c k") auto
  with k(1) show ?thesis by (auto simp: targeted_def list_ex_iff)
qed

definition demographic_table :: "(string \<times> string \<times> string) list" where
  "demographic_table =
     [(''age_group'', ''child'', ''age_group_child_gte''),
      (''age_group'', ''young_adult'', ''age_group_young_adult_gte''),
      (''age_group'', ''adult'', ''age_group_adult_gte''),
      (''age_group'', ''senior'', ''age_group_senior_gte''),
      (''gender'', ''male'', ''gender_male_gte''), (''gender'', ''female'', ''gender_female_gte'')] @
     map (\<lambda>k. (''attire'', k, ''attire_'' @ k @ ''_gte''))
       [''formal'', ''business_casual'', ''casual'', ''athletic'', ''outdoor_technical'',
        ''workwear_uniform'', ''streetwear'', ''luxury_premium'', ''lounge_comfort'', ''smart_occasion'']"

lemma demographic_conditions_loaded:
  "demographic_conditions (loaded r) = map (\<lambda>(b, k, key). (b, k, map_of (gr_conditions r) key)) demographic_table"
  by (simp add: demographic_conditions_def demographic_table_def loaded_fields)

lemma demographic_table_keys: "(b, k, key) \<in> set demographic_table \<Longrightarrow> \<not> upper_key key"
proof -
  have "list_all (\<lambda>(_, _, key). \<not> upper_key key) demographic_table" by code_simp
  then show "(b, k, key) \<in> set demographic_table \<Longrightarrow> \<not> upper_key key" by (auto simp: list_all_iff)
qed

lemma asks_less_gte:
  "asks_less c' c \<Longrightarrow> \<not> upper_key k \<Longrightarrow> gte (map_of c k) v \<Longrightarrow> gte (map_of c' k) v"
  unfolding asks_less_def by blast

lemma asks_less_same:
  "asks_less c' c \<Longrightarrow> upper_key k \<Longrightarrow> map_of c' k = None \<or> map_of c' k = map_of c k"
  unfolding asks_less_def by blast

lemma asks_less_upper:
  assumes "asks_less c' c"
  shows "eqs (map_of c ''presence_count_eq'') v \<Longrightarrow> eqs (map_of c' ''presence_count_eq'') v"
    and "lte (map_of c ''presence_count_lte'') v \<Longrightarrow> lte (map_of c' ''presence_count_lte'') v"
    and "lte (map_of c ''time_hour_lte'') v \<Longrightarrow> lte (map_of c' ''time_hour_lte'') v"
  using asks_less_same [OF assms, of "''presence_count_eq''"]
    asks_less_same [OF assms, of "''presence_count_lte''"] asks_less_same [OF assms, of "''time_hour_lte''"]
  by (auto simp: eqs_def lte_def)

lemma asks_less_demographics:
  assumes less: "asks_less (gr_conditions r') (gr_conditions r)" and m: "demographics_ok (loaded r) sg"
  shows "demographics_ok (loaded r') sg"
proof (cases "targeted (gr_conditions r')")
  case True
  with less have "targeted (gr_conditions r)" by (rule asks_less_targeted)
  with m obtain d where d: "\<not> suppressed sg" "sg_demographics sg = Some d"
    "list_all (\<lambda>(block, k, t). gte t (bucket d block k)) (demographic_conditions (loaded r))"
    by (auto simp: demographics_ok_def targeted_loaded split: if_splits option.splits)
  have "gte (map_of (gr_conditions r') key) (bucket d b k)" if "(b, k, key) \<in> set demographic_table" for b k key
  proof (rule asks_less_gte [OF less demographic_table_keys [OF that]])
    from d(3) have "\<forall>x \<in> set demographic_table. case x of (b, k, key) \<Rightarrow>
        gte (map_of (gr_conditions r) key) (bucket d b k)"
      by (simp add: demographic_conditions_loaded list_all_iff split_beta)
    with that show "gte (map_of (gr_conditions r) key) (bucket d b k)" by blast
  qed
  then have "list_all (\<lambda>(block, k, t). gte t (bucket d block k)) (demographic_conditions (loaded r'))"
    by (auto simp: demographic_conditions_loaded list_all_iff)
  with d show ?thesis by (simp add: demographics_ok_def)
qed (simp add: demographics_ok_def targeted_loaded)

lemma asks_less_matches:
  assumes less: "asks_less (gr_conditions r') (gr_conditions r)"
    and m: "rule_matches ch h (loaded r) sg"
  shows "rule_matches ch h (loaded r') sg"
proof -
  have att: "attention_ok (loaded r') sg" if "attention_ok (loaded r) sg"
    using that asks_less_gte [OF less, of "''attention_engaged_gte''"]
    by (auto simp: attention_ok_def loaded_fields split: option.splits)
  obtain n cf where pres: "sg_presence sg = Some (n, cf)"
    using m by (auto simp: rule_matches_def split: option.splits)
  show ?thesis
    using m asks_less_demographics [OF less] att asks_less_upper [OF less]
      asks_less_gte [OF less, of "''presence_count_gte''"]
      asks_less_gte [OF less, of "''presence_confidence_gte''"]
      asks_less_gte [OF less, of "''time_hour_gte''"]
    unfolding rule_matches_def pres prod.case option.case loaded_fields Let_def by simp
qed

lemma asks_less_update: "asks_less c' c \<Longrightarrow> asks_less (AList.update k v c') (AList.update k v c)"
  by (simp add: asks_less_def dict_simps)

lemma asks_less_slot: "asks_less c' c \<Longrightarrow> asks_less (with_slot slot c') (with_slot slot c)"
  by (auto simp: with_slot_def asks_less_update split: option.split)

lemma asks_less_merge:
  assumes "distinct (map fst b)" "\<And>k. upper_key k \<Longrightarrow> map_of a k = None \<or> map_of b k = None"
  shows "asks_less a (merge_conditions a b)" "asks_less b (merge_conditions a b)"
  using assms(2)
  by (fastforce simp: asks_less_def map_of_merge [OF assms(1)] gte_def split: option.splits)+

definition dimension_facts :: "string \<times> string \<Rightarrow> bool" where
  "dimension_facts = (\<lambda>(t, d).
     t \<notin> set attention_gate_excluded \<and> lookup_or audience_base_priority t 10 = 10 \<and>
     distinct (map fst (tag_conditions t)) \<and>
     map_of (tag_conditions t) ''presence_count_lte'' = None \<and>
     map_of (tag_conditions t) ''time_hour_lte'' = None \<and>
     (d \<noteq> ''age'' \<longrightarrow> map_of (tag_conditions t) ''presence_count_eq'' = None))"

lemma dimension_table: "list_all dimension_facts dimension_groups"
  by code_simp

lemma dimension_tag: "map_of dimension_groups t = Some d \<Longrightarrow> dimension_facts (t, d)"
  using dimension_table by (auto simp: list_all_iff dest: map_of_SomeD)

lemma dimension_gate:
  "map_of dimension_groups t = Some d \<Longrightarrow>
   inject_attention_gate c t = AList.update ''attention_engaged_gte'' attention_gate_threshold c"
  using dimension_tag [of t d] by (simp add: dimension_facts_def inject_attention_gate_def)

lemma cross_dim_asks_more:
  assumes "map_of dimension_groups ta = Some da" "map_of dimension_groups tb = Some db" "da \<noteq> db"
  shows "asks_less (tag_conditions ta) (merge_conditions (tag_conditions ta) (tag_conditions tb))"
    and "asks_less (tag_conditions tb) (merge_conditions (tag_conditions ta) (tag_conditions tb))"
proof -
  note f = dimension_tag [OF assms(1)] dimension_tag [OF assms(2)]
  have excl: "map_of (tag_conditions ta) k = None \<or> map_of (tag_conditions tb) k = None" if "upper_key k" for k
    using that f assms(3) by (cases "da = ''age''") (auto simp: upper_key_def dimension_facts_def)
  have dist: "distinct (map fst (tag_conditions tb))" using f by (simp add: dimension_facts_def)
  show "asks_less (tag_conditions ta) (merge_conditions (tag_conditions ta) (tag_conditions tb))"
    by (rule asks_less_merge(1) [OF dist excl])
  show "asks_less (tag_conditions tb) (merge_conditions (tag_conditions ta) (tag_conditions tb))"
    by (rule asks_less_merge(2) [OF dist excl])
qed

lemma cross_rule_fields:
  "gr_conditions (cross_rule mid slot n tt ob ta tb) =
     with_slot slot (AList.update ''attention_engaged_gte'' attention_gate_threshold
       (merge_conditions (tag_conditions ta) (tag_conditions tb)))"
  "gr_priority (cross_rule mid slot n (Some t) ob ta tb) = 33 + ob"
  by (simp_all add: cross_rule_def Let_def mk_rule_def cross_dim_priority_bonus_def
      time_audience_priority_boost_def)

text \<open>
  Cross-dimension targeting: for two tags of different dimensions and a time slot, the
  generated pair rule fires only when each of the two single-tag rules fires as well, and it
  outranks them; so the more specific match wins.
\<close>

theorem cross_rule_most_specific:
  assumes "map_of dimension_groups ta = Some da" "map_of dimension_groups tb = Some db" "da \<noteq> db"
    and "r \<in> set (timed_rules mid [ta, tb] ob tt n slot)"
  shows "cross_rule mid slot n (Some tt) ob ta tb \<in> set (timed_rules mid [ta, tb] ob tt n slot) \<and>
    gr_priority r \<le> gr_priority (cross_rule mid slot n (Some tt) ob ta tb) \<and>
    (rule_matches ch h (loaded (cross_rule mid slot n (Some tt) ob ta tb)) sg \<longrightarrow> rule_matches ch h (loaded r) sg)"
proof -
  let ?cross = "cross_rule mid slot n (Some tt) ob ta tb"
  let ?single = "\<lambda>t. with_slot slot (inject_attention_gate (tag_conditions t) t)"
  have gen: "generate_cross_dim_rules mid [ta, tb] slot n (Some tt) ob = [?cross]"
    using assms(1-3) by (simp add: generate_cross_dim_rules_def dimensioned_def List.map_filter_simps)
  note f = dimension_tag [OF assms(1)] dimension_tag [OF assms(2)]
  have less: "asks_less (?single ta) (gr_conditions ?cross)" "asks_less (?single tb) (gr_conditions ?cross)"
    using cross_dim_asks_more [OF assms(1-3)] assms(1,2)
    by (simp_all add: cross_rule_fields dimension_gate asks_less_slot asks_less_update)
  let ?rid = "\<lambda>t. ''autogen-'' @ mid @ ''-'' @ tt @ slot_suffix n @ ''-'' @ t"
  let ?single_rule = "\<lambda>t. mk_rule (?rid t)
      (lookup_or audience_base_priority t 10 + time_audience_priority_boost + ob) 1 mid (?single t)"
  have rules: "timed_rules mid [ta, tb] ob tt n slot = [?single_rule ta, ?single_rule tb, ?cross]"
    by (simp add: timed_rules_def gen)
  have single: "gr_conditions (?single_rule t) = ?single t \<and>
      gr_priority (?single_rule t) = lookup_or audience_base_priority t 10 + 20 + ob" for t
    by (simp add: mk_rule_def time_audience_priority_boost_def)
  from assms(4) consider "r = ?cross" | t where "t \<in> {ta, tb}" "r = ?single_rule t"
    unfolding rules by (simp del: append.simps) blast
  then show ?thesis
  proof cases
    case 1
    then show ?thesis by (simp add: rules)
  next
    case (2 t)
    then have "asks_less (gr_conditions r) (gr_conditions ?cross)" using less single [of t] by auto
    then have "rule_matches ch h (loaded ?cross) sg \<Longrightarrow> rule_matches ch h (loaded r) sg"
      by (rule asks_less_matches)
    moreover have "gr_priority r = 30 + ob" using 2 f single [of t] by (auto simp: dimension_facts_def)
    ultimately show ?thesis by (simp add: rules cross_rule_fields)
  qed
qed

theorem cross_rule_most_specific_witness:
  "gr_priority (hd (timed_rules ''m1'' [''seniors'', ''male_focus''] 0 ''time_lunch'' 0 (Some (11, 13)))) \<le>
   gr_priority (cross_rule ''m1'' (Some (11, 13)) 0 (Some ''time_lunch'') 0 ''seniors'' ''male_focus'')"
proof -
  have "hd (timed_rules ''m1'' [''seniors'', ''male_focus''] 0 ''time_lunch'' 0 (Some (11, 13)))
      \<in> set (timed_rules ''m1'' [''seniors'', ''male_focus''] 0 ''time_lunch'' 0 (Some (11, 13)))"
    by (simp add: timed_rules_def)
  from cross_rule_most_specific [OF _ _ _ this, of "''age''" "''gender''"] show ?thesis
    by (simp add: dimension_groups_def)
qed

end
