(* ===== verification/Fallback.thy ===== *)
theory Fallback
  imports Prelude
begin

section \<open>Fallback bundle (services/player/player/fallback.py)\<close>

text \<open>
  Selection of the on-device asset shown when no approved manifest plays. A directory is
  the list of its entries with the text \<open>read_text\<close> returns for each (\<open>None\<close> when it
  raises); \<open>None\<close> for the directory itself is a missing directory. An empty
  \<open>FALLBACK_LIBRARY_PATH\<close> is a missing library.
\<close>

type_synonym fb_dir = "(string \<times> string option) list"

record fb_env =
  fe_bundle_path :: string
  fe_bundle :: "fb_dir option"
  fe_library_path :: string
  fe_library :: "fb_dir option"
  fe_asset_name :: string

record fallback_bundle =
  fb_asset_path :: "string option"
  fb_asset_type :: "string option"
  fb_source :: string

definition init_fb :: fallback_bundle where
  "init_fb = \<lparr>fb_asset_path = None, fb_asset_type = None, fb_source = ''uninitialised''\<rparr>"

subsection \<open>Names and paths\<close>

text \<open>\<open>Path.suffix\<close> of a file name: from the last dot, unless that is the first or last character.\<close>

definition path_suffix :: "string \<Rightarrow> string" where
  "path_suffix n =
     (let ext = rev (takeWhile (\<lambda>c. c \<noteq> CHR ''.'') (rev n));
          stem = length n - length ext
      in if CHR ''.'' \<notin> set n \<or> ext = [] \<or> stem \<le> 1 then [] else CHR ''.'' # ext)"

definition path_join :: "string \<Rightarrow> string \<Rightarrow> string" where
  "path_join d n = d @ ''/'' @ n"

definition ext_to_type :: "(string \<times> string) list" where
  "ext_to_type = [(''.jpg'', ''image''), (''.jpeg'', ''image''), (''.png'', ''image''),
     (''.mp4'', ''video''), (''.webm'', ''video''), (''.html'', ''html'')]"

definition builtin_name :: string where "builtin_name = ''fallback-builtin.png''"
definition selected_marker :: string where "selected_marker = ''_selected''"

definition fb_reserved :: "string list" where
  "fb_reserved = [''_selected'', ''.gitkeep'', builtin_name]"

definition asset_type_of :: "string \<Rightarrow> string option" where
  "asset_type_of n = map_of ext_to_type (ascii_lower (path_suffix n))"

definition supported :: "string \<Rightarrow> bool" where
  "supported n = (asset_type_of n \<noteq> None)"

definition fb_has :: "fb_dir \<Rightarrow> string \<Rightarrow> bool" where
  "fb_has d n = (n \<in> set (map fst d))"

definition fb_names :: "fb_dir \<Rightarrow> string list" where
  "fb_names d = sort (map fst d)"

text \<open>\<open>str.strip()\<close> for ASCII white space.\<close>

definition is_space :: "char \<Rightarrow> bool" where
  "is_space c \<longleftrightarrow> of_char c \<in> {9, 10, 11, 12, 13, 28, 29, 30, 31, 32 :: nat}"

definition py_strip :: "string \<Rightarrow> string" where
  "py_strip s = rev (dropWhile is_space (rev (dropWhile is_space s)))"

subsection \<open>Selection\<close>

definition fb_set :: "string \<Rightarrow> string \<Rightarrow> string \<Rightarrow> fallback_bundle \<Rightarrow> fallback_bundle" where
  "fb_set dir name source fb =
     fb\<lparr>fb_asset_path := Some (path_join dir name), fb_asset_type := asset_type_of name,
        fb_source := source\<rparr>"

text \<open>The first of the directories that holds a supported file of that name.\<close>

fun fb_first_dir :: "(string \<times> fb_dir option) list \<Rightarrow> string \<Rightarrow> string option" where
  "fb_first_dir [] name = None"
| "fb_first_dir ((path, d) # ds) name =
     (if (case d of None \<Rightarrow> False | Some files \<Rightarrow> fb_has files name) \<and> supported name
      then Some path else fb_first_dir ds name)"

definition fb_bundle_dir :: "fb_env \<Rightarrow> string \<times> fb_dir option" where
  "fb_bundle_dir env = (fe_bundle_path env, fe_bundle env)"

definition fb_library_dir :: "fb_env \<Rightarrow> (string \<times> fb_dir option) option" where
  "fb_library_dir env =
     (if fe_library_path env = [] then None else Some (fe_library_path env, fe_library env))"

definition fb_search_dirs :: "(string \<times> fb_dir option) \<Rightarrow> (string \<times> fb_dir option) option
    \<Rightarrow> (string \<times> fb_dir option) list" where
  "fb_search_dirs marker_dir other =
     marker_dir # (case other of None \<Rightarrow> [] | Some o' \<Rightarrow> if fst o' \<noteq> fst marker_dir then [o'] else [])"

definition try_selected_marker :: "(string \<times> fb_dir option) \<Rightarrow> (string \<times> fb_dir option) option
    \<Rightarrow> string \<Rightarrow> fallback_bundle \<Rightarrow> bool res \<times> fallback_bundle" where
  "try_selected_marker marker_dir other source fb =
     (case snd marker_dir of
        None \<Rightarrow> (Inr False, fb)
      | Some files \<Rightarrow>
     (case map_of files selected_marker of
        None \<Rightarrow> (Inr False, fb)
      | Some None \<Rightarrow> (Inl OSError, fb)
      | Some (Some text) \<Rightarrow>
          (let name = py_strip text in
           if name = [] \<or> CHR ''/'' \<in> set name \<or> CHR 0x5C \<in> set name then (Inr False, fb)
           else (case fb_first_dir (fb_search_dirs marker_dir other) name of
                   None \<Rightarrow> (Inr False, fb)
                 | Some dir \<Rightarrow> (Inr True, fb_set dir name source fb)))))"

text \<open>Priorities 4 to 6, and the reset when nothing is found.\<close>

definition fb_auto :: "fb_env \<Rightarrow> fallback_bundle \<Rightarrow> fallback_bundle" where
  "fb_auto env fb =
     (let bundle = (case fe_bundle env of None \<Rightarrow> [] | Some d \<Rightarrow> fb_names d);
          library = (if fe_library_path env = [] then []
                     else case fe_library env of None \<Rightarrow> [] | Some d \<Rightarrow> fb_names d)
      in case find (\<lambda>n. n \<notin> set fb_reserved \<and> supported n) bundle of
           Some n \<Rightarrow> fb_set (fe_bundle_path env) n ''bundle-auto'' fb
         | None \<Rightarrow>
        (case find (\<lambda>n. n \<noteq> selected_marker \<and> supported n) library of
           Some n \<Rightarrow> fb_set (fe_library_path env) n ''library-auto'' fb
         | None \<Rightarrow>
           if builtin_name \<in> set bundle
           then fb_set (fe_bundle_path env) builtin_name ''builtin'' fb
           else fb\<lparr>fb_asset_path := None, fb_asset_type := None, fb_source := ''none''\<rparr>))"

definition fb_resolve :: "fb_env \<Rightarrow> fallback_bundle \<Rightarrow> unit res \<times> fallback_bundle" where
  "fb_resolve env fb =
     (let explicit_dirs = fb_bundle_dir env # (case fb_library_dir env of None \<Rightarrow> [] | Some l \<Rightarrow> [l]);
          bundle_and_below = (\<lambda>fb.
            case try_selected_marker (fb_bundle_dir env) (fb_library_dir env) ''selected-bundle'' fb of
              (Inl e, fb') \<Rightarrow> (Inl e, fb')
            | (Inr True, fb') \<Rightarrow> (Inr (), fb')
            | (Inr False, fb') \<Rightarrow> (Inr (), fb_auto env fb'))
      in case (if fe_asset_name env = [] then None else fb_first_dir explicit_dirs (fe_asset_name env)) of
           Some dir \<Rightarrow> (Inr (), fb_set dir (fe_asset_name env) ''explicit'' fb)
         | None \<Rightarrow>
        (case fb_library_dir env of
           None \<Rightarrow> bundle_and_below fb
         | Some lib \<Rightarrow>
             if snd lib = None then bundle_and_below fb
             else (case try_selected_marker lib (Some lib) ''selected-library'' fb of
                     (Inl e, fb') \<Rightarrow> (Inl e, fb')
                   | (Inr True, fb') \<Rightarrow> (Inr (), fb')
                   | (Inr False, fb') \<Rightarrow> bundle_and_below fb')))"

subsection \<open>Public operations\<close>

definition fb_validate :: "fb_env \<Rightarrow> fallback_bundle \<Rightarrow> unit res \<times> fallback_bundle" where
  "fb_validate env fb =
     (case fb_resolve env fb of
        (Inl e, fb') \<Rightarrow> (Inl e, fb')
      | (Inr _, fb') \<Rightarrow>
          if fb_asset_path fb' = None then (Inl FallbackBundleMissingError, fb') else (Inr (), fb'))"

text \<open>\<open>refresh\<close> keeps the selection when resolving raises, and reports a changed path.\<close>

definition fb_refresh :: "fb_env \<Rightarrow> fallback_bundle \<Rightarrow> bool \<times> fallback_bundle" where
  "fb_refresh env fb =
     (let fb' = snd (fb_resolve env fb) in (fb_asset_path fb' \<noteq> fb_asset_path fb, fb'))"

record fb_listing =
  fl_path :: string
  fl_name :: string
  fl_asset_type :: string
  fl_source :: string
  fl_is_active :: bool

definition fb_list_dir :: "string option \<Rightarrow> string \<Rightarrow> string \<Rightarrow> fb_dir option \<Rightarrow> fb_listing list" where
  "fb_list_dir active source path d =
     (case d of
        None \<Rightarrow> []
      | Some files \<Rightarrow>
          map (\<lambda>n. \<lparr>fl_path = path_join path n, fl_name = n, fl_asset_type = the (asset_type_of n),
                    fl_source = source, fl_is_active = (Some (path_join path n) = active)\<rparr>)
            (filter supported (fb_names files)))"

definition list_available :: "fb_env \<Rightarrow> fallback_bundle \<Rightarrow> fb_listing list" where
  "list_available env fb =
     fb_list_dir (fb_asset_path fb) ''bundle'' (fe_bundle_path env) (fe_bundle env) @
     (if fe_library_path env = [] then []
      else fb_list_dir (fb_asset_path fb) ''library'' (fe_library_path env) (fe_library env))"

definition asset_path :: "fallback_bundle \<Rightarrow> string res" where
  "asset_path fb = (case fb_asset_path fb of None \<Rightarrow> Inl FallbackBundleMissingError | Some p \<Rightarrow> Inr p)"

definition asset_type :: "fallback_bundle \<Rightarrow> string res" where
  "asset_type fb = (case fb_asset_type fb of None \<Rightarrow> Inl FallbackBundleMissingError | Some t \<Rightarrow> Inr t)"

subsection \<open>The selection as a priority list\<close>

text \<open>
  The specification: every asset each rule could select, as (directory, name, source), in
  order of priority.
\<close>

definition holders :: "(string \<times> fb_dir option) list \<Rightarrow> string \<Rightarrow> string list" where
  "holders ds n =
     map fst (filter (\<lambda>(p, d). (case d of None \<Rightarrow> False | Some files \<Rightarrow> fb_has files n) \<and> supported n) ds)"

definition marker_names :: "fb_dir option \<Rightarrow> string list" where
  "marker_names d =
     (case d of None \<Rightarrow> [] | Some files \<Rightarrow>
        (case map_of files selected_marker of
           Some (Some t) \<Rightarrow>
             if py_strip t = [] \<or> CHR ''/'' \<in> set (py_strip t) \<or> CHR 0x5C \<in> set (py_strip t) then []
             else [py_strip t]
         | _ \<Rightarrow> []))"

definition marker_candidates :: "(string \<times> fb_dir option) \<Rightarrow> (string \<times> fb_dir option) option \<Rightarrow> string
    \<Rightarrow> (string \<times> string \<times> string) list" where
  "marker_candidates dir other source =
     concat (map (\<lambda>n. map (\<lambda>p. (p, n, source)) (holders (fb_search_dirs dir other) n))
       (marker_names (snd dir)))"

definition dir_names :: "fb_dir option \<Rightarrow> string list" where
  "dir_names d = (case d of None \<Rightarrow> [] | Some files \<Rightarrow> fb_names files)"

definition fb_candidates :: "fb_env \<Rightarrow> (string \<times> string \<times> string) list" where
  "fb_candidates env =
     (if fe_asset_name env = [] then []
      else map (\<lambda>p. (p, fe_asset_name env, ''explicit''))
             (holders (fb_bundle_dir env # (case fb_library_dir env of None \<Rightarrow> [] | Some l \<Rightarrow> [l]))
               (fe_asset_name env))) @
     (case fb_library_dir env of None \<Rightarrow> []
      | Some l \<Rightarrow> marker_candidates l (Some l) ''selected-library'') @
     marker_candidates (fb_bundle_dir env) (fb_library_dir env) ''selected-bundle'' @
     map (\<lambda>n. (fe_bundle_path env, n, ''bundle-auto''))
       (filter (\<lambda>n. n \<notin> set fb_reserved \<and> supported n) (dir_names (fe_bundle env))) @
     (if fe_library_path env = [] then []
      else map (\<lambda>n. (fe_library_path env, n, ''library-auto''))
             (filter (\<lambda>n. n \<noteq> selected_marker \<and> supported n) (dir_names (fe_library env)))) @
     (if builtin_name \<in> set (dir_names (fe_bundle env))
      then [(fe_bundle_path env, builtin_name, ''builtin'')] else [])"

definition first :: "'a list \<Rightarrow> 'a option" where
  "first xs = (case xs of [] \<Rightarrow> None | x # _ \<Rightarrow> Some x)"

lemma first_simps [simp]:
  "first [] = None" "first (x # xs) = Some x"
  "first (map f xs) = map_option f (first xs)"
  "first (xs @ ys) = (case first xs of None \<Rightarrow> first ys | Some x \<Rightarrow> Some x)"
  by (auto simp: first_def split: list.split)

lemma first_filter: "first (filter P xs) = find P xs"
  by (induction xs) auto

lemma first_in: "first xs = Some x \<Longrightarrow> x \<in> set xs"
  by (cases xs) auto

lemma first_None [simp]: "first xs = None \<longleftrightarrow> xs = []"
  by (cases xs) auto

lemma fb_first_dir_holders: "fb_first_dir ds n = first (holders ds n)"
  by (induction ds n rule: fb_first_dir.induct) (auto simp: holders_def)

definition fb_take :: "(string \<times> string \<times> string) option \<Rightarrow> fallback_bundle \<Rightarrow> fallback_bundle" where
  "fb_take c fb =
     (case c of
        None \<Rightarrow> fb\<lparr>fb_asset_path := None, fb_asset_type := None, fb_source := ''none''\<rparr>
      | Some (d, n, src) \<Rightarrow> fb_set d n src fb)"

definition marker_readable :: "fb_dir option \<Rightarrow> bool" where
  "marker_readable d = (case d of None \<Rightarrow> True | Some files \<Rightarrow> map_of files selected_marker \<noteq> Some None)"

text \<open>The environment's marker files can be read.\<close>

definition markers_readable :: "fb_env \<Rightarrow> bool" where
  "markers_readable env \<longleftrightarrow> marker_readable (fe_bundle env) \<and> marker_readable (fe_library env)"

lemma try_marker_candidates:
  "try_selected_marker dir other src fb =
    (if \<not> marker_readable (snd dir) then (Inl OSError, fb)
     else case first (marker_candidates dir other src) of
       None \<Rightarrow> (Inr False, fb) | Some c \<Rightarrow> (Inr True, fb_take (Some c) fb))"
  by (auto simp: try_selected_marker_def marker_candidates_def marker_names_def fb_take_def Let_def
      fb_first_dir_holders marker_readable_def split: option.split)

lemma fb_auto_candidates:
  "fb_auto env fb = fb_take (first (
     map (\<lambda>n. (fe_bundle_path env, n, ''bundle-auto''))
       (filter (\<lambda>n. n \<notin> set fb_reserved \<and> supported n) (dir_names (fe_bundle env))) @
     (if fe_library_path env = [] then []
      else map (\<lambda>n. (fe_library_path env, n, ''library-auto''))
             (filter (\<lambda>n. n \<noteq> selected_marker \<and> supported n) (dir_names (fe_library env)))) @
     (if builtin_name \<in> set (dir_names (fe_bundle env))
      then [(fe_bundle_path env, builtin_name, ''builtin'')] else []))) fb"
  by (auto simp: fb_auto_def fb_take_def dir_names_def first_filter Let_def split: option.split)

definition auto_candidates :: "fb_env \<Rightarrow> (string \<times> string \<times> string) list" where
  "auto_candidates env =
     map (\<lambda>n. (fe_bundle_path env, n, ''bundle-auto''))
       (filter (\<lambda>n. n \<notin> set fb_reserved \<and> supported n) (dir_names (fe_bundle env))) @
     (if fe_library_path env = [] then []
      else map (\<lambda>n. (fe_library_path env, n, ''library-auto''))
             (filter (\<lambda>n. n \<noteq> selected_marker \<and> supported n) (dir_names (fe_library env)))) @
     (if builtin_name \<in> set (dir_names (fe_bundle env))
      then [(fe_bundle_path env, builtin_name, ''builtin'')] else [])"

lemma fb_take_simp [simp]: "fb_take (Some (d, n, src)) fb = fb_set d n src fb"
  by (simp add: fb_take_def)

lemma bundle_and_below:
  "(case try_selected_marker dir other src fb of
      (Inl e, fb') \<Rightarrow> (Inl e, fb')
    | (Inr True, fb') \<Rightarrow> (Inr (), fb')
    | (Inr False, fb') \<Rightarrow> (Inr (), fb_auto env fb')) =
   (if marker_readable (snd dir)
    then (Inr (), fb_take (first (marker_candidates dir other src @ auto_candidates env)) fb)
    else (Inl OSError, fb))"
  by (simp add: try_marker_candidates fb_auto_candidates auto_candidates_def split: option.split)

lemma fb_resolve_candidates:
  "fb_resolve env fb = (Inr (), fb_take (first (fb_candidates env)) fb) \<or>
   fb_resolve env fb = (Inl OSError, fb) \<and> \<not> markers_readable env"
proof -
  define explicit where "explicit = (if fe_asset_name env = [] then []
      else map (\<lambda>p. (p, fe_asset_name env, ''explicit''))
             (holders (fb_bundle_dir env # (case fb_library_dir env of None \<Rightarrow> [] | Some l \<Rightarrow> [l]))
               (fe_asset_name env)))"
  define below where "below = marker_candidates (fb_bundle_dir env) (fb_library_dir env) ''selected-bundle'' @
      auto_candidates env"
  define lib where "lib = (case fb_library_dir env of None \<Rightarrow> []
      | Some l \<Rightarrow> marker_candidates l (Some l) ''selected-library'')"
  have cands: "fb_candidates env = explicit @ lib @ below"
    by (simp add: fb_candidates_def explicit_def lib_def below_def auto_candidates_def)
  have e: "(if fe_asset_name env = [] then None
      else fb_first_dir (fb_bundle_dir env # (case fb_library_dir env of None \<Rightarrow> [] | Some l \<Rightarrow> [l]))
        (fe_asset_name env)) = map_option fst (first explicit)"
    by (simp add: explicit_def fb_first_dir_holders option.map_comp comp_def option.map_ident)
  have bnd: "marker_readable (snd (fb_bundle_dir env)) = marker_readable (fe_bundle env)"
    by (simp add: fb_bundle_dir_def)
  show ?thesis
  proof (cases "first explicit")
    case (Some c)
    then have "c \<in> set explicit" by (rule first_in)
    then obtain d where "c = (d, fe_asset_name env, ''explicit'')"
      by (auto simp: explicit_def split: if_splits)
    with Some show ?thesis unfolding fb_resolve_def e Let_def cands by simp
  next
    case None
    show ?thesis
    proof (cases "fb_library_dir env")
      case no_lib: None
      with None show ?thesis
        unfolding fb_resolve_def e Let_def cands bundle_and_below bnd
        by (simp add: lib_def below_def markers_readable_def)
    next
      case (Some l)
      then have l: "snd l = fe_library env" by (auto simp: fb_library_dir_def split: if_splits)
      show ?thesis
      proof (cases "snd l")
        case no_lib: None
        then have "lib = []" by (simp add: lib_def Some marker_candidates_def marker_names_def)
        with None no_lib Some show ?thesis
          unfolding fb_resolve_def e Let_def cands bundle_and_below bnd
          by (simp add: below_def markers_readable_def)
      next
        case (Some files)
        with l have "fe_library env = Some files" by simp
        with None \<open>fb_library_dir env = Some l\<close> l show ?thesis
          unfolding fb_resolve_def e Let_def cands bundle_and_below bnd
          by (simp add: try_marker_candidates lib_def below_def markers_readable_def split: option.split)
      qed
    qed
  qed
qed

subsection \<open>Properties\<close>

text \<open>
  C33. Asset selection follows the documented priority list: \<open>_resolve\<close> selects the first
  candidate of explicit name, library marker, bundle marker, bundle files, library files,
  built-in slate, and clears the selection when there is none; it raises, and then changes
  nothing, only when a marker file cannot be read.
\<close>

theorem fallback_selection_refines:
  "fb_resolve env fb = (Inr (), fb_take (first (fb_candidates env)) fb) \<or>
   fb_resolve env fb = (Inl OSError, fb) \<and> \<not> (marker_readable (fe_bundle env) \<and> marker_readable (fe_library env))"
  using fb_resolve_candidates [of env fb] by (simp add: markers_readable_def)

definition demo_env :: fb_env where
  "demo_env = \<lparr>fe_bundle_path = ''/b'', fe_bundle = Some [(''slate.png'', None), (builtin_name, None)],
     fe_library_path = ''/l'',
     fe_library = Some [(''ad.mp4'', None), (''_selected'', Some ''ad.mp4 ''), (''aa.jpg'', None)],
     fe_asset_name = []\<rparr>"

lemma holders_in: "p \<in> set (holders ds n) \<Longrightarrow> supported n \<and> (\<exists>files. (p, Some files) \<in> set ds \<and> fb_has files n)"
  by (auto simp: holders_def split: option.splits)

lemma search_dirs_in:
  "(p, d) \<in> set (fb_search_dirs a b) \<Longrightarrow> (p, d) = a \<or> b = Some (p, d)"
  by (auto simp: fb_search_dirs_def split: option.splits if_splits)

lemma marker_names_in:
  "n \<in> set (marker_names d) \<Longrightarrow> CHR ''/'' \<notin> set n \<and> CHR 0x5C \<notin> set n \<and> n \<noteq> []"
  by (auto simp: marker_names_def split: option.splits if_splits)

lemma set_fb_names [simp]: "n \<in> set (fb_names d) \<longleftrightarrow> fb_has d n"
  by (simp add: fb_names_def fb_has_def)

lemma supported_builtin: "supported builtin_name"
  by code_simp

text \<open>What a candidate is: an existing, supported file of the bundle or the library.\<close>

definition candidate_ok :: "fb_env \<Rightarrow> string \<times> string \<times> string \<Rightarrow> bool" where
  "candidate_ok env c \<longleftrightarrow>
     (case c of (d, n, src) \<Rightarrow>
        supported n \<and>
        (\<exists>files. fb_has files n \<and>
           (d = fe_bundle_path env \<and> fe_bundle env = Some files \<or>
            d = fe_library_path env \<and> d \<noteq> [] \<and> fe_library env = Some files)) \<and>
        (src \<in> {''selected-library'', ''selected-bundle''} \<longrightarrow> CHR ''/'' \<notin> set n \<and> CHR 0x5C \<notin> set n))"

lemma marker_candidates_ok:
  assumes "c \<in> set (marker_candidates a b src)"
    and "a = fb_bundle_dir env \<or> fb_library_dir env = Some a"
    and "b = None \<or> b = fb_library_dir env"
  shows "candidate_ok env c"
proof -
  from assms(1) obtain n p where c: "c = (p, n, src)" "n \<in> set (marker_names (snd a))"
      "p \<in> set (holders (fb_search_dirs a b) n)"
    by (auto simp: marker_candidates_def)
  from holders_in [OF c(3)] obtain files where f: "supported n" "fb_has files n"
      "(p, Some files) \<in> set (fb_search_dirs a b)"
    by auto
  from search_dirs_in [OF f(3)] assms(2,3)
  have "(p, Some files) = fb_bundle_dir env \<or> fb_library_dir env = Some (p, Some files)" by auto
  with f c marker_names_in [OF c(2)] show ?thesis
    by (auto simp: candidate_ok_def fb_bundle_dir_def fb_library_dir_def split: if_splits)
qed

lemma auto_candidates_ok:
  "fb_has files n \<Longrightarrow> Some files = fe_bundle env \<Longrightarrow> supported n \<Longrightarrow>
   src \<in> {''explicit'', ''bundle-auto'', ''builtin''} \<Longrightarrow> candidate_ok env (fe_bundle_path env, n, src)"
  "fb_has files n \<Longrightarrow> Some files = fe_library env \<Longrightarrow> fe_library_path env \<noteq> [] \<Longrightarrow> supported n \<Longrightarrow>
   src \<in> {''explicit'', ''library-auto''} \<Longrightarrow> candidate_ok env (fe_library_path env, n, src)"
  by (auto simp: candidate_ok_def)

lemma fb_candidates_ok: "c \<in> set (fb_candidates env) \<Longrightarrow> candidate_ok env c"
  unfolding fb_candidates_def
  by (auto simp: dir_names_def fb_bundle_dir_def fb_library_dir_def supported_builtin
      intro: marker_candidates_ok auto_candidates_ok
      split: option.splits if_splits dest!: holders_in)

lemma fb_candidates_builtin:
  "fe_bundle env = Some files \<Longrightarrow> fb_has files builtin_name \<Longrightarrow> fb_candidates env \<noteq> []"
  by (simp add: fb_candidates_def dir_names_def)

lemma fb_take_Some:
  "candidate_ok env c \<Longrightarrow> \<exists>d n. fb_asset_path (fb_take (Some c) fb) = Some (path_join d n) \<and>
     fb_asset_type (fb_take (Some c) fb) = asset_type_of n \<and> candidate_ok env (d, n, fb_source (fb_take (Some c) fb))"
  by (cases c) (auto simp: fb_take_def fb_set_def)

text \<open>
  C34. The bundle never loses its asset: while the bundle directory holds the built-in
  slate, any number of refreshes of a selected asset, with whatever library contents and
  markers (unreadable ones included), leaves some asset selected; and \<open>validate\<close> at startup
  raises \<open>FallbackBundleMissingError\<close> in no such environment.
\<close>

theorem fallback_never_lost:
  assumes "\<forall>env \<in> set envs. \<exists>files. fe_bundle env = Some files \<and> fb_has files builtin_name"
    and "fb_asset_path fb \<noteq> None"
  shows "fb_asset_path (fold (\<lambda>env fb. snd (fb_refresh env fb)) envs fb) \<noteq> None \<and>
    (\<forall>env \<in> set envs. fst (fb_validate env init_fb) \<noteq> Inl FallbackBundleMissingError)"
proof -
  have keep: "fb_asset_path (snd (fb_resolve env fb)) \<noteq> None \<and>
      fst (fb_validate env init_fb) \<noteq> Inl FallbackBundleMissingError"
    if h: "fb_asset_path fb \<noteq> None" "fe_bundle env = Some files" "fb_has files builtin_name" for env files fb
  proof -
    obtain c where "first (fb_candidates env) = Some c"
      using fb_candidates_builtin [OF h(2,3)] by (cases "fb_candidates env") auto
    with h(1) show ?thesis
      using fb_resolve_candidates [of env fb] fb_resolve_candidates [of env init_fb]
      by (cases c) (auto simp: fb_take_def fb_set_def fb_validate_def)
  qed
  have "fb_asset_path (fold (\<lambda>env fb. snd (fb_refresh env fb)) envs fb) \<noteq> None"
    using assms
  proof (induction envs arbitrary: fb)
    case Nil
    then show ?case by simp
  next
    case (Cons env envs)
    then have "fb_asset_path (snd (fb_resolve env fb)) \<noteq> None" using keep by auto
    with Cons show ?case by (simp add: fb_refresh_def Let_def)
  qed
  with keep assms show ?thesis by blast
qed

theorem fallback_never_lost_witness:
  "fb_asset_path (fold (\<lambda>env fb. snd (fb_refresh env fb)) [demo_env, demo_env\<lparr>fe_library := None\<rparr>]
     (init_fb\<lparr>fb_asset_path := Some ''/l/old.png''\<rparr>)) \<noteq> None"
proof -
  have "\<forall>env \<in> set [demo_env, demo_env\<lparr>fe_library := None\<rparr>].
      \<exists>files. fe_bundle env = Some files \<and> fb_has files builtin_name"
    by (simp add: demo_env_def fb_has_def)
  from fallback_never_lost [OF this, of "init_fb\<lparr>fb_asset_path := Some ''/l/old.png''\<rparr>"]
  show ?thesis by simp
qed

text \<open>
  Confinement: whatever is selected is an existing file of a supported type in the
  bundle or the configured library directory, recorded with the type of its extension; a
  name taken from a \<open>_selected\<close> marker contains no path separator.
\<close>

theorem fallback_selection_confined:
  assumes "fb_resolve env fb = (Inr u, fb')" and "fb_asset_path fb' = Some p"
  shows "\<exists>d n files. p = path_join d n \<and> fb_asset_type fb' = asset_type_of n \<and> supported n \<and>
    fb_has files n \<and>
    (d = fe_bundle_path env \<and> fe_bundle env = Some files \<or>
     d = fe_library_path env \<and> d \<noteq> [] \<and> fe_library env = Some files) \<and>
    (fb_source fb' \<in> {''selected-library'', ''selected-bundle''} \<longrightarrow> CHR ''/'' \<notin> set n \<and> CHR 0x5C \<notin> set n)"
proof -
  have f: "fb' = fb_take (first (fb_candidates env)) fb"
    using assms(1) fb_resolve_candidates [of env fb] by auto
  then obtain c where c: "first (fb_candidates env) = Some c"
    using assms(2) by (cases "first (fb_candidates env)") (auto simp: fb_take_def)
  have "candidate_ok env c" by (rule fb_candidates_ok [OF first_in [OF c]])
  from fb_take_Some [OF this, of fb] assms(2) show ?thesis
    unfolding f c candidate_ok_def by auto
qed

theorem fallback_selection_confined_witness:
  "fb_asset_type (snd (fb_resolve demo_env init_fb)) = Some ''video'' \<and> supported ''ad.mp4''"
proof -
  have r: "fb_resolve demo_env init_fb = (Inr (),
      \<lparr>fb_asset_path = Some ''/l/ad.mp4'', fb_asset_type = Some ''video'', fb_source = ''selected-library''\<rparr>)"
    by code_simp
  from fallback_selection_confined [OF this, of "''/l/ad.mp4''"]
  obtain d n where "''/l/ad.mp4'' = path_join d n" "asset_type_of n = Some ''video''" by auto
  have "supported ''ad.mp4''" by code_simp
  with r show ?thesis by simp
qed

end
