(* ===== verification/DashboardDb.thy ===== *)
theory DashboardDb
  imports RuleGenerator Fallback
begin

section \<open>Dashboard tables, audit events and pagination (services/dashboard-api)\<close>

text \<open>
  The state of the dashboard API: the tables of \<open>models.py\<close> as lists of rows in insertion
  order, the manifest directory, the rules file and the fallback library it writes, the audit log of \<open>events.py\<close>,
  and the pagination that every list route shares. A request is one transaction: a handler
  that raises leaves the tables as they were. uuids and the clock are arguments. Timestamps
  are seconds. The uuid keys of rows that no other row refers to (assets, audit events,
  snapshots, plays, probes) are left out; the bin columns of a snapshot are dictionaries
  without the NULL columns. The database itself (SQLAlchemy, PostgreSQL) is third-party code: of it only
  selection, ordering (ties in insertion order), limits and commits are used.
\<close>

subsection \<open>Rows\<close>

datatype manifest_status = Draft | Approved | Rejected | Enabled | Disabled | Archived

fun status_str :: "manifest_status \<Rightarrow> string" where
  "status_str Draft = ''draft''"
| "status_str Approved = ''approved''"
| "status_str Rejected = ''rejected''"
| "status_str Enabled = ''enabled''"
| "status_str Disabled = ''disabled''"
| "status_str Archived = ''archived''"

record manifest_row =
  mr_id :: string
  mr_manifest_id :: string
  mr_title :: string
  mr_status :: manifest_status
  mr_schema_version :: string
  mr_manifest_json :: json
  mr_audience_tags :: "string list option"
  mr_rejection_reason :: "string option"
  mr_approved_by :: "string option"
  mr_approved_at :: "rat option"
  mr_enabled_at :: "rat option"
  mr_created_at :: rat
  mr_updated_at :: rat

datatype asset_status = AssetActive | AssetArchived

record asset_row =
  ar_asset_id :: string
  ar_filename :: string
  ar_asset_type :: string
  ar_size_bytes :: nat
  ar_sha256 :: string
  ar_manifest_id :: "string option"
  ar_status :: asset_status
  ar_uploaded_at :: rat

datatype campaign_status = CDraft | CActive | CPaused | CArchived

fun campaign_status_str :: "campaign_status \<Rightarrow> string" where
  "campaign_status_str CDraft = ''draft''"
| "campaign_status_str CActive = ''active''"
| "campaign_status_str CPaused = ''paused''"
| "campaign_status_str CArchived = ''archived''"

record campaign_row =
  cr_id :: string
  cr_name :: string
  cr_description :: "string option"
  cr_status :: campaign_status
  cr_start_at :: "rat option"
  cr_end_at :: "rat option"
  cr_created_at :: rat
  cr_updated_at :: rat

record campaign_link =
  cl_campaign_id :: string
  cl_manifest_id :: string
  cl_position :: int

record safe_mode_row =
  sf_is_active :: bool
  sf_reason :: "string option"
  sf_activated_at :: "rat option"
  sf_activated_by :: "string option"
  sf_updated_at :: rat

record audit_event =
  ae_event_type :: string
  ae_entity_type :: string
  ae_entity_id :: string
  ae_actor :: string
  ae_payload :: json
  ae_created_at :: rat

record snapshot_row =
  sn_sampled_at :: rat
  sn_presence_count :: int
  sn_presence_confidence :: rat
  sn_state_stable :: bool
  sn_pipeline_degraded :: bool
  sn_demographics_suppressed :: bool
  sn_age_group :: "(string \<times> rat) list"
  sn_gender :: "(string \<times> rat) list"
  sn_attire :: "(string \<times> rat) list"
  sn_attention_engaged :: "rat option"

record play_row =
  pw_manifest_id :: string
  pw_activated_at :: rat
  pw_reason :: "string option"
  pw_prev_manifest_id :: "string option"
  pw_attention_at_trigger :: "rat option"
  pw_received_at :: rat

record uptime_row =
  up_sampled_at :: rat
  up_player_status :: string
  up_overall_status :: string

record dashboard =
  db_manifests :: "manifest_row list"
  db_assets :: "asset_row list"
  db_campaigns :: "campaign_row list"
  db_links :: "campaign_link list"
  db_safe_mode :: "safe_mode_row option"
  db_audit :: "audit_event list"
  db_snapshots :: "snapshot_row list"
  db_plays :: "play_row list"
  db_uptime :: "uptime_row list"
  fs_manifests :: "(string \<times> json) list"
  fs_rules :: "json option"
  fs_assets :: "(string \<times> string) list"
  fs_fallback :: fb_dir

definition empty_dashboard :: dashboard where
  "empty_dashboard = \<lparr>db_manifests = [], db_assets = [], db_campaigns = [], db_links = [],
     db_safe_mode = None, db_audit = [], db_snapshots = [], db_plays = [], db_uptime = [],
     fs_manifests = [], fs_rules = None, fs_assets = [], fs_fallback = []\<rparr>"

subsection \<open>Audit events (events.py)\<close>

definition write_event :: "rat \<Rightarrow> string \<Rightarrow> string \<Rightarrow> string \<Rightarrow> string \<Rightarrow> (string \<times> json) list
    \<Rightarrow> dashboard \<Rightarrow> dashboard" where
  "write_event now event_type entity_type entity_id actor payload db =
     db\<lparr>db_audit := db_audit db @
        [\<lparr>ae_event_type = event_type, ae_entity_type = entity_type, ae_entity_id = entity_id,
          ae_actor = actor, ae_payload = JObj payload, ae_created_at = now\<rparr>]\<rparr>"

text \<open>
  The contract of events.py: every request that changes the state appends to the log, and
  nothing is ever removed from it. Three things happen without an event: the bytes of a failed
  upload may be left behind, the fallback routes move the selection marker of the fallback library,
  and a read of the safe mode stores the missing row, inactive. Each router interprets the locale on its requests.
\<close>

definition inactive_row :: "safe_mode_row \<Rightarrow> bool" where
  "inactive_row row \<longleftrightarrow>
     \<not> sf_is_active row \<and> sf_reason row = None \<and> sf_activated_at row = None \<and> sf_activated_by row = None"

definition same_records :: "dashboard \<Rightarrow> dashboard \<Rightarrow> bool" where
  "same_records db db' \<longleftrightarrow>
     db'\<lparr>fs_assets := fs_assets db, fs_fallback := fs_fallback db, db_safe_mode := db_safe_mode db\<rparr> = db \<and>
     (db_safe_mode db' = db_safe_mode db \<or>
      db_safe_mode db = None \<and> (case db_safe_mode db' of None \<Rightarrow> True | Some row \<Rightarrow> inactive_row row))"

lemma same_records_refl [simp, intro]: "same_records db db"
  by (simp add: same_records_def)

lemma same_records_trans: "same_records a b \<Longrightarrow> same_records b c \<Longrightarrow> same_records a c"
  by (cases a, cases b, cases c) (auto simp: same_records_def)

definition log_extended :: "dashboard \<Rightarrow> dashboard \<Rightarrow> bool" where
  "log_extended db db' \<longleftrightarrow> (\<exists>es. db_audit db' = db_audit db @ es \<and> (es = [] \<longrightarrow> same_records db db'))"

lemma log_extended_refl [simp, intro]: "log_extended db db"
  by (simp add: log_extended_def)

lemma log_extended_trans: "log_extended a b \<Longrightarrow> log_extended b c \<Longrightarrow> log_extended a c"
  by (fastforce simp: log_extended_def intro: same_records_trans)

lemma log_extended_event:
  "db_audit db' = db_audit db \<Longrightarrow> log_extended db (write_event now ty et eid who p db')"
  by (simp add: log_extended_def write_event_def)

locale audited_router =
  fixes handle :: "'r \<Rightarrow> dashboard \<Rightarrow> dashboard"
  assumes audited: "log_extended db (handle r db)"
begin

lemma run_extended: "log_extended db (fold handle rs db)"
proof (induction rs arbitrary: db)
  case Nil
  then show ?case by simp
next
  case (Cons r rs)
  show ?case using log_extended_trans [OF audited Cons.IH] by simp
qed

lemma append_only: "\<exists>es. db_audit (fold handle rs db) = db_audit db @ es"
  using run_extended [of db rs] by (auto simp: log_extended_def)

lemma unaudited_unchanged:
  "db_audit (fold handle rs db) = db_audit db \<Longrightarrow> same_records db (fold handle rs db)"
  using run_extended [of db rs] by (auto simp: log_extended_def)

lemma event_kept: "e \<in> set (db_audit db) \<Longrightarrow> e \<in> set (db_audit (fold handle rs db))"
  using append_only [of rs db] by auto

end

subsection \<open>Tags (schemas.py)\<close>

definition validate_audience_tags :: "string list \<Rightarrow> string list res" where
  "validate_audience_tags tags =
     (if \<not> list_all (\<lambda>t. t \<in> set ALL_VALID_TAGS) tags then Inl ValueError
      else if length tags \<noteq> length (remdups tags) then Inl ValueError
      else Inr tags)"

lemma validate_audience_tags_ok:
  "validate_audience_tags tags = Inr tags' \<longleftrightarrow> tags' = tags \<and> distinct tags \<and> set tags \<subseteq> set ALL_VALID_TAGS"
proof -
  have "length tags = length (remdups tags) \<longleftrightarrow> distinct tags"
    by (metis length_remdups_eq remdups_id_iff_distinct)
  then show ?thesis by (auto simp: validate_audience_tags_def list_all_iff)
qed

subsection \<open>Pagination\<close>

record pagination =
  pg_total :: int
  pg_page :: int
  pg_page_size :: int
  pg_pages :: int

definition default_page_size :: int where
  "default_page_size = 20"

definition max_page_size :: int where
  "max_page_size = 100"

text \<open>\<open>page_size or default\<close>, then the maximum.\<close>

definition effective_page_size :: "int option \<Rightarrow> int" where
  "effective_page_size page_size =
     min (case page_size of None \<Rightarrow> default_page_size | Some n \<Rightarrow> if n = 0 then default_page_size else n)
       max_page_size"

text \<open>
  \<open>page\<close> is constrained to be at least 1 by the route (422 otherwise); a negative limit is
  an error of the database.
\<close>

definition paginate :: "int \<Rightarrow> int option \<Rightarrow> 'a list \<Rightarrow> ('a list \<times> pagination) res" where
  "paginate page page_size rows =
     (let size = effective_page_size page_size; n = int (length rows) in
      if page < 1 then Inl (HTTPException 422)
      else if size < 0 then Inl RuntimeError
      else Inr (take (nat size) (drop (nat ((page - 1) * size)) rows),
                \<lparr>pg_total = n, pg_page = page, pg_page_size = size,
                 pg_pages = max 1 ((n + size - 1) div size)\<rparr>))"

lemma effective_page_size_le: "effective_page_size s \<le> 100"
  by (simp add: effective_page_size_def max_page_size_def)

lemma effective_page_size_pos:
  "(case s of None \<Rightarrow> True | Some n \<Rightarrow> 0 \<le> n) \<Longrightarrow> 0 < effective_page_size s"
  by (auto simp: effective_page_size_def default_page_size_def max_page_size_def split: option.splits)

lemma chunks_concat:
  "0 < k \<Longrightarrow> length xs \<le> m * k \<Longrightarrow> concat (map (\<lambda>i. take k (drop (i * k) xs)) [0..<m]) = xs"
proof (induction m arbitrary: xs)
  case 0
  then show ?case by simp
next
  case (Suc m)
  have "concat (map (\<lambda>i. take k (drop (i * k) xs)) [0..<Suc m]) =
      take k xs @ concat (map (\<lambda>i. take k (drop (i * k) (drop k xs))) [0..<m])"
    by (simp add: upt_conv_Cons map_Suc_upt [symmetric] comp_def add.commute del: upt_Suc)
  also have "\<dots> = take k xs @ drop k xs"
    using Suc.IH [of "drop k xs"] Suc.prems by simp
  finally show ?case by simp
qed

text \<open>The rows of one page, and all of them in page order.\<close>

definition page_rows :: "('a list \<times> pagination) res \<Rightarrow> 'a list" where
  "page_rows r = (case r of Inl _ \<Rightarrow> [] | Inr (xs, _) \<Rightarrow> xs)"

definition all_pages :: "int option \<Rightarrow> 'a list \<Rightarrow> 'a list" where
  "all_pages page_size rows =
     (case paginate 1 page_size rows of
        Inl _ \<Rightarrow> []
      | Inr (_, p) \<Rightarrow> concat (map (\<lambda>i. page_rows (paginate i page_size rows)) [1..pg_pages p]))"

lemma pages_enough:
  assumes "0 < s"
  shows "int n \<le> max 1 ((int n + s - 1) div s) * s"
proof -
  have "int n + s - 1 = (int n + s - 1) div s * s + (int n + s - 1) mod s" by simp
  moreover have "(int n + s - 1) mod s \<le> s - 1"
    using pos_mod_bound [OF assms, of "int n + s - 1"] by linarith
  ultimately have "int n \<le> (int n + s - 1) div s * s" by linarith
  also have "\<dots> \<le> max 1 ((int n + s - 1) div s) * s" using assms by (simp add: mult_right_mono)
  finally show ?thesis .
qed

lemma upto_from_1: "[1..int m] = map (\<lambda>i. int i + 1) [0..<m]"
  by (rule nth_equalityI) auto

lemma pages_partition:
  assumes "case page_size of None \<Rightarrow> True | Some n \<Rightarrow> 0 \<le> n"
  shows "all_pages page_size rows = rows"
proof -
  define s where "s = effective_page_size page_size"
  have s: "0 < s" unfolding s_def by (rule effective_page_size_pos [OF assms])
  define m where "m = nat (max 1 ((int (length rows) + s - 1) div s))"
  have m: "int m = max 1 ((int (length rows) + s - 1) div s)" by (simp add: m_def)
  have idx: "nat (int i * s) = i * nat s" for i using s by (simp add: nat_mult_distrib)
  have "int (length rows) \<le> int (m * nat s)"
    using pages_enough [OF s, of "length rows"] s by (simp add: m)
  then have "length rows \<le> m * nat s" by (simp only: of_nat_le_iff)
  then have "concat (map (\<lambda>i. take (nat s) (drop (i * nat s) rows)) [0..<m]) = rows"
    using s by (intro chunks_concat) auto
  moreover have "all_pages page_size rows =
      concat (map (\<lambda>i. page_rows (paginate i page_size rows)) [1..int m])"
    using s by (simp add: all_pages_def paginate_def Let_def m flip: s_def)
  moreover have "page_rows (paginate (int i + 1) page_size rows) = take (nat s) (drop (i * nat s) rows)" for i
    using s by (simp add: page_rows_def paginate_def Let_def idx flip: s_def)
  ultimately show ?thesis by (simp add: upto_from_1 comp_def)
qed

end
