(* ===== verification/ManifestWorkflow.thy ===== *)
theory ManifestWorkflow
  imports DashboardDb
begin

section \<open>Manifest approval workflow (services/dashboard-api/dashboard_api/routers/manifests.py)\<close>

text \<open>
  The handlers of the manifest router over the tables of theory DashboardDb. A handler
  returns the row or the HTTP error and the new dashboard; the outcome of a file operation
  is the argument \<open>disk_ok\<close> (a failure is logged and changes nothing on disk).
\<close>

definition valid_transitions :: "manifest_status \<Rightarrow> manifest_status list" where
  "valid_transitions s =
     (case s of
        Draft \<Rightarrow> [Approved, Rejected, Archived]
      | Approved \<Rightarrow> [Enabled, Rejected, Archived]
      | Rejected \<Rightarrow> [Approved, Archived]
      | Enabled \<Rightarrow> [Disabled, Archived]
      | Disabled \<Rightarrow> [Enabled, Archived]
      | Archived \<Rightarrow> [])"

definition can_transition :: "manifest_status \<Rightarrow> manifest_status \<Rightarrow> bool" where
  "can_transition current target \<longleftrightarrow> target \<in> set (valid_transitions current)"

definition find_row :: "string \<Rightarrow> dashboard \<Rightarrow> manifest_row option" where
  "find_row mid db = find (\<lambda>r. mr_manifest_id r = mid) (db_manifests db)"

definition get_manifest_or_404 :: "string \<Rightarrow> dashboard \<Rightarrow> manifest_row res" where
  "get_manifest_or_404 mid db =
     (case find_row mid db of None \<Rightarrow> Inl (HTTPException 404) | Some m \<Rightarrow> Inr m)"

text \<open>Committing a changed row.\<close>

definition put_row :: "manifest_row \<Rightarrow> dashboard \<Rightarrow> dashboard" where
  "put_row m db =
     db\<lparr>db_manifests := map (\<lambda>r. if mr_manifest_id r = mr_manifest_id m then m else r) (db_manifests db)\<rparr>"

definition file_name :: "string \<Rightarrow> string" where
  "file_name mid = mid @ ''.json''"

definition write_manifest_to_disk :: "bool \<Rightarrow> manifest_row \<Rightarrow> dashboard \<Rightarrow> dashboard" where
  "write_manifest_to_disk disk_ok m db =
     (if disk_ok
      then db\<lparr>fs_manifests := AList.update (file_name (mr_manifest_id m)) (mr_manifest_json m) (fs_manifests db)\<rparr>
      else db)"

definition remove_manifest_from_disk :: "bool \<Rightarrow> string \<Rightarrow> dashboard \<Rightarrow> dashboard" where
  "remove_manifest_from_disk disk_ok mid db =
     (if disk_ok then db\<lparr>fs_manifests := AList.delete (file_name mid) (fs_manifests db)\<rparr> else db)"

definition list_manifests :: "string option \<Rightarrow> int \<Rightarrow> int option \<Rightarrow> dashboard
    \<Rightarrow> (manifest_row list \<times> pagination) res" where
  "list_manifests status page page_size db =
     paginate page page_size
       (sort_key (\<lambda>r. - mr_created_at r)
         (case status of
            None \<Rightarrow> db_manifests db
          | Some s \<Rightarrow> if s = [] then db_manifests db
                       else filter (\<lambda>r. status_str (mr_status r) = s) (db_manifests db)))"

subsection \<open>Creation\<close>

record manifest_in =
  mi_manifest_id :: string
  mi_title :: string
  mi_schema_version :: string
  mi_manifest_json :: json
  mi_audience_tags :: "string list"

text \<open>The request model of \<open>schemas.py\<close>; a body it refuses is answered 422 before the handler runs.\<close>

definition manifest_in_ok :: "manifest_in \<Rightarrow> bool" where
  "manifest_in_ok b \<longleftrightarrow>
     1 \<le> length (mi_manifest_id b) \<and> length (mi_manifest_id b) \<le> 128 \<and>
     1 \<le> length (mi_title b) \<and> length (mi_title b) \<le> 255 \<and>
     is_obj (mi_manifest_json b) \<and> \<not> is_inl (validate_audience_tags (mi_audience_tags b))"

definition create_manifest :: "rat \<Rightarrow> string \<Rightarrow> manifest_in \<Rightarrow> dashboard \<Rightarrow> manifest_row res \<times> dashboard" where
  "create_manifest now uuid body db =
     (if \<not> manifest_in_ok body then (Inl (HTTPException 422), db)
      else if find_row (mi_manifest_id body) db \<noteq> None then (Inl (HTTPException 409), db)
      else
        let m = \<lparr>mr_id = uuid, mr_manifest_id = mi_manifest_id body, mr_title = mi_title body,
              mr_status = Draft, mr_schema_version = mi_schema_version body,
              mr_manifest_json = mi_manifest_json body, mr_audience_tags = Some (mi_audience_tags body),
              mr_rejection_reason = None, mr_approved_by = None, mr_approved_at = None,
              mr_enabled_at = None, mr_created_at = now, mr_updated_at = now\<rparr>
        in (Inr m, write_event now ''manifest.created'' ''manifest'' (mi_manifest_id body) ''operator''
              [(''title'', JStr (mi_title body)), (''schema_version'', JStr (mi_schema_version body)),
               (''audience_tags'', JArr (map JStr (mi_audience_tags body)))]
              (db\<lparr>db_manifests := db_manifests db @ [m]\<rparr>)))"

subsection \<open>Transitions\<close>

definition prev_payload :: "manifest_row \<Rightarrow> (string \<times> json) list" where
  "prev_payload m = [(''previous_status'', JStr (status_str (mr_status m)))]"

definition approve_manifest :: "rat \<Rightarrow> string \<Rightarrow> string \<Rightarrow> dashboard \<Rightarrow> manifest_row res \<times> dashboard" where
  "approve_manifest now mid approved_by db =
     (if 128 < length approved_by then (Inl (HTTPException 422), db)
      else case get_manifest_or_404 mid db of
        Inl e \<Rightarrow> (Inl e, db)
      | Inr m \<Rightarrow>
          if \<not> can_transition (mr_status m) Approved then (Inl (HTTPException 409), db)
          else
            let m' = m\<lparr>mr_status := Approved, mr_approved_by := Some approved_by, mr_approved_at := Some now,
                  mr_rejection_reason := None, mr_updated_at := now\<rparr>
            in (Inr m', write_event now ''manifest.approved'' ''manifest'' mid approved_by (prev_payload m)
                  (put_row m' db)))"

definition reject_manifest :: "rat \<Rightarrow> string \<Rightarrow> string \<Rightarrow> string \<Rightarrow> dashboard \<Rightarrow> manifest_row res \<times> dashboard" where
  "reject_manifest now mid reason rejected_by db =
     (if length reason < 1 \<or> 1024 < length reason \<or> 128 < length rejected_by then (Inl (HTTPException 422), db)
      else case get_manifest_or_404 mid db of
        Inl e \<Rightarrow> (Inl e, db)
      | Inr m \<Rightarrow>
          if \<not> can_transition (mr_status m) Rejected then (Inl (HTTPException 409), db)
          else
            let m' = m\<lparr>mr_status := Rejected, mr_rejection_reason := Some reason, mr_updated_at := now\<rparr>
            in (Inr m', write_event now ''manifest.rejected'' ''manifest'' mid rejected_by
                  (prev_payload m @ [(''reason'', JStr reason)]) (put_row m' db)))"

definition enable_manifest :: "rat \<Rightarrow> bool \<Rightarrow> string \<Rightarrow> dashboard \<Rightarrow> manifest_row res \<times> dashboard" where
  "enable_manifest now disk_ok mid db =
     (case get_manifest_or_404 mid db of
        Inl e \<Rightarrow> (Inl e, db)
      | Inr m \<Rightarrow>
          if \<not> can_transition (mr_status m) Enabled then (Inl (HTTPException 409), db)
          else
            let m' = m\<lparr>mr_status := Enabled, mr_enabled_at := Some now, mr_updated_at := now\<rparr>
            in (Inr m', write_event now ''manifest.enabled'' ''manifest'' mid ''operator'' (prev_payload m)
                  (write_manifest_to_disk disk_ok m' (put_row m' db))))"

definition disable_manifest :: "rat \<Rightarrow> bool \<Rightarrow> string \<Rightarrow> dashboard \<Rightarrow> manifest_row res \<times> dashboard" where
  "disable_manifest now disk_ok mid db =
     (case get_manifest_or_404 mid db of
        Inl e \<Rightarrow> (Inl e, db)
      | Inr m \<Rightarrow>
          if \<not> can_transition (mr_status m) Disabled then (Inl (HTTPException 409), db)
          else
            let m' = m\<lparr>mr_status := Disabled, mr_updated_at := now\<rparr>
            in (Inr m', write_event now ''manifest.disabled'' ''manifest'' mid ''operator'' []
                  (remove_manifest_from_disk disk_ok mid (put_row m' db))))"

definition row_tags :: "manifest_row \<Rightarrow> string list" where
  "row_tags m = (case mr_audience_tags m of None \<Rightarrow> [] | Some ts \<Rightarrow> ts)"

definition update_manifest_tags :: "rat \<Rightarrow> string \<Rightarrow> string list \<Rightarrow> dashboard \<Rightarrow> manifest_row res \<times> dashboard" where
  "update_manifest_tags now mid tags db =
     (if is_inl (validate_audience_tags tags) then (Inl (HTTPException 422), db)
      else case get_manifest_or_404 mid db of
        Inl e \<Rightarrow> (Inl e, db)
      | Inr m \<Rightarrow>
          if mr_status m = Archived then (Inl (HTTPException 409), db)
          else
            let m' = m\<lparr>mr_audience_tags := Some tags, mr_updated_at := now\<rparr>
            in (Inr m', write_event now ''manifest.tags_updated'' ''manifest'' mid ''operator''
                  [(''old_tags'', JArr (map JStr (row_tags m))), (''new_tags'', JArr (map JStr tags))]
                  (put_row m' db)))"

definition archive_manifest :: "rat \<Rightarrow> bool \<Rightarrow> string \<Rightarrow> dashboard \<Rightarrow> manifest_row res \<times> dashboard" where
  "archive_manifest now disk_ok mid db =
     (case get_manifest_or_404 mid db of
        Inl e \<Rightarrow> (Inl e, db)
      | Inr m \<Rightarrow>
          if \<not> can_transition (mr_status m) Archived then (Inl (HTTPException 409), db)
          else
            let m' = m\<lparr>mr_status := Archived, mr_updated_at := now\<rparr>;
                db1 = (if mr_status m = Enabled then remove_manifest_from_disk disk_ok mid db else db)
            in (Inr m', write_event now ''manifest.archived'' ''manifest'' mid ''operator'' (prev_payload m)
                  (put_row m' db1)))"

subsection \<open>Rules\<close>

definition tagged :: "manifest_row \<Rightarrow> tagged_manifest" where
  "tagged m = \<lparr>tm_manifest_id = mr_manifest_id m, tm_audience_tags = mr_audience_tags m\<rparr>"

record rule_preview =
  rp_manifest_id :: string
  rp_audience_tags :: "string list"
  rp_generated_rules :: "gen_rule list"

definition get_rule_preview :: "string \<Rightarrow> dashboard \<Rightarrow> rule_preview res" where
  "get_rule_preview mid db =
     (case get_manifest_or_404 mid db of
        Inl e \<Rightarrow> Inl e
      | Inr m \<Rightarrow> Inr \<lparr>rp_manifest_id = mid, rp_audience_tags = row_tags m,
                     rp_generated_rules = generate_rules_for_manifest (tagged m)\<rparr>)"

record sync_out =
  so_enabled_manifests :: nat
  so_generated_rules :: nat
  so_has_fallback :: bool
  so_optimizer_reloaded :: bool
  so_optimizer_detail :: string

text \<open>Enabled rows, the most recently enabled first.\<close>

definition enabled_rows :: "dashboard \<Rightarrow> manifest_row list" where
  "enabled_rows db =
     sort_key (\<lambda>r. case mr_enabled_at r of None \<Rightarrow> 0 | Some t \<Rightarrow> - t)
       (filter (\<lambda>r. mr_status r = Enabled) (db_manifests db))"

text \<open>
  The answer of the optimizer's reload route: status and text (of the answer, or of the
  exception \<open>raise_for_status\<close> raises for a code that is not 2xx), or the text of a
  transport error.
\<close>

definition sync_rules :: "rat \<Rightarrow> bool \<Rightarrow> string + int \<times> string \<Rightarrow> dashboard \<Rightarrow> sync_out res \<times> dashboard" where
  "sync_rules now disk_ok optimizer db =
     (let rules = build_rules_file (map tagged (enabled_rows db)) 10000 5000;
          count = length (rf_rules rules);
          has_fallback = list_ex (\<lambda>r. length (gr_conditions r) = 0) (rf_rules rules)
      in if \<not> disk_ok then (Inl (HTTPException 500), db)
         else
           let (reloaded, detail) =
                 (case optimizer of
                    Inl e \<Rightarrow> (False, e)
                  | Inr (code, txt) \<Rightarrow> (200 \<le> code \<and> code < 300, txt));
               n = length (enabled_rows db);
               db' = db\<lparr>fs_rules := Some (rules_file_json rules)\<rparr>
           in (Inr \<lparr>so_enabled_manifests = n, so_generated_rules = count, so_has_fallback = has_fallback,
                    so_optimizer_reloaded = reloaded, so_optimizer_detail = detail\<rparr>,
               write_event now ''manifest.rules_synced'' ''manifest'' ''*'' ''operator''
                 [(''enabled_manifest_count'', JInt (int n)), (''generated_rule_count'', JInt (int count)),
                  (''has_fallback'', JBool has_fallback), (''optimizer_reloaded'', JBool reloaded)] db'))"

subsection \<open>Histories of requests\<close>

datatype manifest_request =
    ReqCreate string manifest_in
  | ReqApprove string string
  | ReqReject string string string
  | ReqEnable string
  | ReqDisable string
  | ReqTags string "string list"
  | ReqSync "string + int \<times> string"
  | ReqArchive string

fun manifest_step :: "rat \<times> bool \<times> manifest_request \<Rightarrow> dashboard \<Rightarrow> dashboard" where
  "manifest_step (now, disk_ok, ReqCreate uuid body) db = snd (create_manifest now uuid body db)"
| "manifest_step (now, disk_ok, ReqApprove mid who) db = snd (approve_manifest now mid who db)"
| "manifest_step (now, disk_ok, ReqReject mid reason who) db = snd (reject_manifest now mid reason who db)"
| "manifest_step (now, disk_ok, ReqEnable mid) db = snd (enable_manifest now disk_ok mid db)"
| "manifest_step (now, disk_ok, ReqDisable mid) db = snd (disable_manifest now disk_ok mid db)"
| "manifest_step (now, disk_ok, ReqTags mid tags) db = snd (update_manifest_tags now mid tags db)"
| "manifest_step (now, disk_ok, ReqSync opt) db = snd (sync_rules now disk_ok opt db)"
| "manifest_step (now, disk_ok, ReqArchive mid) db = snd (archive_manifest now disk_ok mid db)"

definition manifest_run :: "(rat \<times> bool \<times> manifest_request) list \<Rightarrow> dashboard \<Rightarrow> dashboard" where
  "manifest_run rs db = fold manifest_step rs db"

lemma manifest_run_simps [simp]:
  "manifest_run [] db = db"
  "manifest_run (r # rs) db = manifest_run rs (manifest_step r db)"
  by (simp_all add: manifest_run_def)

subsection \<open>Lookups after an operation\<close>

named_theorems row_simps \<open>rows, files and the log after an operation\<close>

lemma find_row_event [simp]: "find_row i (write_event now ty et eid who p db) = find_row i db"
  by (simp add: find_row_def write_event_def)

lemma find_row_disk [simp]:
  "find_row i (write_manifest_to_disk ok m db) = find_row i db"
  "find_row i (remove_manifest_from_disk ok mid db) = find_row i db"
  "find_row i (db\<lparr>fs_rules := x\<rparr>) = find_row i db"
  by (simp_all add: find_row_def write_manifest_to_disk_def remove_manifest_from_disk_def)

lemma find_row_put [row_simps]:
  "find_row i (put_row m db) =
     (if i = mr_manifest_id m \<and> find_row i db \<noteq> None then Some m else find_row i db)"
proof -
  have "find (\<lambda>r. mr_manifest_id r = i) (map (\<lambda>r. if mr_manifest_id r = mr_manifest_id m then m else r) rs) =
      (if i = mr_manifest_id m \<and> find (\<lambda>r. mr_manifest_id r = i) rs \<noteq> None then Some m
       else find (\<lambda>r. mr_manifest_id r = i) rs)" for rs
    by (induction rs) auto
  from this [of "db_manifests db"] show ?thesis
    by (cases "i = mr_manifest_id m") (simp_all add: find_row_def put_row_def)
qed

lemma find_row_add [row_simps]:
  "find_row i (db\<lparr>db_manifests := db_manifests db @ [m]\<rparr>) =
     (case find_row i db of Some r \<Rightarrow> Some r | None \<Rightarrow> if mr_manifest_id m = i then Some m else None)"
proof -
  have "find P (xs @ [x]) = (case find P xs of Some r \<Rightarrow> Some r | None \<Rightarrow> if P x then Some x else None)"
    for P xs and x :: manifest_row
    by (induction xs) auto
  then show ?thesis by (simp add: find_row_def)
qed

lemma find_row_id: "find_row i db = Some m \<Longrightarrow> mr_manifest_id m = i"
  by (simp add: find_row_def find_Some_iff) blast

lemma get_manifest_or_404_Inr: "get_manifest_or_404 i db = Inr m \<longleftrightarrow> find_row i db = Some m"
  by (simp add: get_manifest_or_404_def split: option.split)

lemma audit_simps [row_simps]:
  "db_audit (write_event now ty et eid who p db) = db_audit db @
     [\<lparr>ae_event_type = ty, ae_entity_type = et, ae_entity_id = eid, ae_actor = who,
       ae_payload = JObj p, ae_created_at = now\<rparr>]"
  "db_audit (put_row m db) = db_audit db"
  "db_audit (write_manifest_to_disk ok m db) = db_audit db"
  "db_audit (remove_manifest_from_disk ok mid db) = db_audit db"
  by (simp_all add: write_event_def put_row_def write_manifest_to_disk_def remove_manifest_from_disk_def)

lemma files_simps [row_simps]:
  "fs_manifests (write_event now ty et eid who p db) = fs_manifests db"
  "fs_manifests (put_row m db) = fs_manifests db"
  "fs_manifests (write_manifest_to_disk True m db) =
     AList.update (file_name (mr_manifest_id m)) (mr_manifest_json m) (fs_manifests db)"
  "fs_manifests (remove_manifest_from_disk True mid db) = AList.delete (file_name mid) (fs_manifests db)"
  by (simp_all add: write_event_def put_row_def write_manifest_to_disk_def remove_manifest_from_disk_def)

lemma rows_simps [row_simps]:
  "map mr_manifest_id (db_manifests (put_row m db)) = map mr_manifest_id (db_manifests db)"
  "db_manifests (write_event now ty et eid who p db) = db_manifests db"
  "db_manifests (write_manifest_to_disk ok m db) = db_manifests db"
  "db_manifests (remove_manifest_from_disk ok mid db) = db_manifests db"
  by (simp_all add: put_row_def write_event_def write_manifest_to_disk_def remove_manifest_from_disk_def)

lemma file_name_inj [simp]: "file_name i = file_name j \<longleftrightarrow> i = j"
  by (simp add: file_name_def)

lemmas handler_defs = create_manifest_def approve_manifest_def reject_manifest_def enable_manifest_def
  disable_manifest_def update_manifest_tags_def archive_manifest_def sync_rules_def

lemma manifest_run_induct:
  assumes "P db" and "\<And>r db. r \<in> set rs \<Longrightarrow> P db \<Longrightarrow> P (manifest_step r db)"
  shows "P (manifest_run rs db)"
  using assms by (induction rs arbitrary: db) auto

lemma put_row_audit [simp]: "db_audit (put_row m db) = db_audit db"
  by (simp add: put_row_def)

interpretation manifest_router: audited_router manifest_step
proof
  fix db r
  show "log_extended db (manifest_step r db)"
    by (cases r; cases "snd (snd r)")
      (auto simp: handler_defs Let_def split_beta row_simps intro!: log_extended_event
        split: option.split sum.split)
qed

subsection \<open>The workflow as an abstract machine\<close>

text \<open>
  The contract of the header of manifests.py, read from its rules and not from the transition
  table of the code: a status per manifest; only draft or rejected manifests can be approved,
  only approved or disabled ones enabled, only enabled ones disabled, draft or approved ones
  rejected, and all but archived ones archived. A request outside the rules, for an unknown
  manifest or with fields out of bounds changes no status. (The way back from rejected to
  draft that the diagram draws is no route; a rejected manifest is approved directly.)
\<close>

fun movable :: "manifest_status \<Rightarrow> manifest_status list" where
  "movable Draft = []"
| "movable Approved = [Draft, Rejected]"
| "movable Rejected = [Draft, Approved]"
| "movable Enabled = [Approved, Disabled]"
| "movable Disabled = [Enabled]"
| "movable Archived = [Draft, Approved, Rejected, Enabled, Disabled]"

type_synonym status_map = "string \<Rightarrow> manifest_status option"

definition move :: "string \<Rightarrow> manifest_status \<Rightarrow> status_map \<Rightarrow> status_map" where
  "move i t w = (case w i of None \<Rightarrow> w | Some s \<Rightarrow> if s \<in> set (movable t) then w(i \<mapsto> t) else w)"

fun workflow :: "manifest_request \<Rightarrow> status_map \<Rightarrow> status_map" where
  "workflow (ReqCreate uuid body) w =
     (if manifest_in_ok body \<and> w (mi_manifest_id body) = None then w(mi_manifest_id body \<mapsto> Draft) else w)"
| "workflow (ReqApprove i who) w = (if length who \<le> 128 then move i Approved w else w)"
| "workflow (ReqReject i reason who) w =
     (if reason \<noteq> [] \<and> length reason \<le> 1024 \<and> length who \<le> 128 then move i Rejected w else w)"
| "workflow (ReqEnable i) w = move i Enabled w"
| "workflow (ReqDisable i) w = move i Disabled w"
| "workflow (ReqTags i tags) w = w"
| "workflow (ReqSync opt) w = w"
| "workflow (ReqArchive i) w = move i Archived w"

definition statuses :: "dashboard \<Rightarrow> status_map" where
  "statuses db i = map_option mr_status (find_row i db)"

lemma statuses_write [simp]: "statuses (write_event now ty et eid who p db) = statuses db"
  by (simp add: statuses_def fun_eq_iff)

lemma statuses_disk [simp]:
  "statuses (write_manifest_to_disk ok m db) = statuses db"
  "statuses (remove_manifest_from_disk ok mid db) = statuses db"
  "statuses (db\<lparr>fs_rules := x\<rparr>) = statuses db"
  by (simp_all add: statuses_def fun_eq_iff)

lemma statuses_put_disk [simp]:
  "statuses (put_row m (remove_manifest_from_disk ok mid db)) = statuses (put_row m db)"
  by (rule ext) (auto simp: statuses_def row_simps)

lemma statuses_put:
  "find_row (mr_manifest_id m) db \<noteq> None \<Longrightarrow>
   statuses (put_row m db) = (statuses db)(mr_manifest_id m \<mapsto> mr_status m)"
  by (rule ext) (simp add: statuses_def row_simps)

lemma statuses_add:
  "find_row (mr_manifest_id m) db = None \<Longrightarrow>
   statuses (db\<lparr>db_manifests := db_manifests db @ [m]\<rparr>) = (statuses db)(mr_manifest_id m \<mapsto> mr_status m)"
  by (rule ext) (auto simp: statuses_def row_simps split: option.split)

lemma can_transition_movable: "can_transition s t \<longleftrightarrow> s \<in> set (movable t)"
  by (cases s; cases t) (simp_all add: can_transition_def valid_transitions_def)

lemma move_statuses:
  "move i t (statuses db) =
     (case find_row i db of None \<Rightarrow> statuses db
      | Some m \<Rightarrow> if can_transition (mr_status m) t then (statuses db)(i \<mapsto> t) else statuses db)"
  by (simp add: move_def statuses_def can_transition_movable split: option.split)

lemma statuses_moved:
  "find_row i db = Some m \<Longrightarrow> mr_manifest_id m' = mr_manifest_id m \<Longrightarrow>
   statuses (put_row m' db) = (statuses db)(i \<mapsto> mr_status m')"
  by (simp add: statuses_put find_row_id)

lemma tags_refine:
  assumes "find_row i db = Some m" "mr_manifest_id m' = mr_manifest_id m" "mr_status m' = mr_status m"
  shows "statuses (put_row m' db) = statuses db"
  using assms by (auto simp: statuses_put find_row_id statuses_def fun_eq_iff)

lemma manifest_step_cases:
  obtains now ok uuid body where "r = (now, ok, ReqCreate uuid body)"
  | now ok mid who where "r = (now, ok, ReqApprove mid who)"
  | now ok mid reason who where "r = (now, ok, ReqReject mid reason who)"
  | now ok mid where "r = (now, ok, ReqEnable mid)"
  | now ok mid where "r = (now, ok, ReqDisable mid)"
  | now ok mid tags where "r = (now, ok, ReqTags mid tags)"
  | now ok opt where "r = (now, ok, ReqSync opt)"
  | now ok mid where "r = (now, ok, ReqArchive mid)"
  by (cases r; cases "snd (snd r)") auto

lemma manifest_step_refines:
  "statuses (manifest_step r db) = workflow (snd (snd r)) (statuses db)"
  by (cases r rule: manifest_step_cases)
    (auto simp: handler_defs Let_def get_manifest_or_404_def split_beta tags_refine statuses_add statuses_moved
      move_statuses statuses_def [of db] split: option.split sum.split)

text \<open>
  C13. The router implements the approval state machine of its header: on the statuses of
  the manifests every request has exactly the effect the machine gives it (a new draft, the
  one transition it asks for where that is permitted, otherwise nothing), whatever the disk does.
\<close>

theorem manifest_workflow_refines:
  "statuses (manifest_step r db) = workflow (snd (snd r)) (statuses db)"
  by (rule manifest_step_refines)

text \<open>\<open>archived\<close> is terminal.\<close>

lemma move_archived: "w i = Some Archived \<Longrightarrow> move j t w i = Some Archived"
  by (cases t) (auto simp: move_def split: option.split)

lemma archived_step: "w i = Some Archived \<Longrightarrow> workflow r w i = Some Archived"
  by (cases r) (auto simp: move_archived)

lemma archived_forever:
  "statuses db i = Some Archived \<Longrightarrow> statuses (manifest_run rs db) i = Some Archived"
  by (induction rs arbitrary: db) (auto simp: manifest_step_refines archived_step)

subsection \<open>The audit log\<close>

definition status_event :: "string \<Rightarrow> manifest_status option" where
  "status_event ty =
     (if ty = ''manifest.created'' then Some Draft
      else if ty = ''manifest.approved'' then Some Approved
      else if ty = ''manifest.rejected'' then Some Rejected
      else if ty = ''manifest.enabled'' then Some Enabled
      else if ty = ''manifest.disabled'' then Some Disabled
      else if ty = ''manifest.archived'' then Some Archived
      else None)"

text \<open>The status of a manifest as the log tells it: that of its last status event.\<close>

definition replay_log :: "audit_event list \<Rightarrow> string \<Rightarrow> manifest_status option" where
  "replay_log es i =
     latest (\<lambda>e. if ae_entity_type e = ''manifest'' \<and> ae_entity_id e = i
                 then status_event (ae_event_type e) else None) es"

lemma replay_log_Nil [simp]: "replay_log [] i = None"
  by (simp add: replay_log_def)

lemma replay_log_snoc [simp]:
  "replay_log (es @ [e]) i =
     (if ae_entity_type e = ''manifest'' \<and> ae_entity_id e = i \<and> status_event (ae_event_type e) \<noteq> None
      then status_event (ae_event_type e) else replay_log es i)"
  by (auto simp: replay_log_def)

definition audited :: "dashboard \<Rightarrow> bool" where
  "audited db \<longleftrightarrow> (\<forall>i. replay_log (db_audit db) i = statuses db i)"

lemma audited_step [step_inv]:
  assumes "audited db"
  shows "audited (manifest_step r db)"
  using assms
  by (cases r rule: manifest_step_cases)
    (auto simp: audited_def handler_defs Let_def get_manifest_or_404_def split_beta statuses_def row_simps
      status_event_def find_row_id split: option.splits sum.splits)

subsection \<open>Approval before playback\<close>

definition approved_by_someone :: "dashboard \<Rightarrow> bool" where
  "approved_by_someone db \<longleftrightarrow>
     (\<forall>i m. find_row i db = Some m \<longrightarrow> mr_status m \<in> {Approved, Enabled, Disabled} \<longrightarrow>
        (\<exists>who t. mr_approved_by m = Some who \<and> mr_approved_at m = Some t \<and>
           list_ex (\<lambda>e. ae_event_type e = ''manifest.approved'' \<and> ae_entity_id e = i \<and> ae_actor e = who \<and>
             ae_created_at e = t) (db_audit db)))"

lemma approved_by_someone_step [step_inv]:
  assumes "approved_by_someone db"
  shows "approved_by_someone (manifest_step r db)"
  using assms
  by (cases r rule: manifest_step_cases)
    (auto simp: approved_by_someone_def handler_defs Let_def get_manifest_or_404_def split_beta row_simps
      find_row_id can_transition_def valid_transitions_def
      split: option.splits sum.splits if_splits manifest_status.splits)

subsection \<open>The manifest directory\<close>

text \<open>The directory holds the documents of the enabled manifests, one file each, and nothing else.\<close>

definition enabled_docs :: "dashboard \<Rightarrow> string \<Rightarrow> json option" where
  "enabled_docs db i =
     (case find_row i db of
        Some m \<Rightarrow> if mr_status m = Enabled then Some (mr_manifest_json m) else None
      | None \<Rightarrow> None)"

definition files_of :: "dashboard \<Rightarrow> string \<Rightarrow> json option" where
  "files_of db i = map_of (fs_manifests db) (file_name i)"

definition disk_mirrors :: "dashboard \<Rightarrow> bool" where
  "disk_mirrors db \<longleftrightarrow> files_of db = enabled_docs db \<and> dom (map_of (fs_manifests db)) \<subseteq> range file_name"

lemma enabled_docs_simps [row_simps]:
  "enabled_docs (write_event now ty et eid who p db) = enabled_docs db"
  "enabled_docs (write_manifest_to_disk ok m db) = enabled_docs db"
  "enabled_docs (remove_manifest_from_disk ok mid db) = enabled_docs db"
  "enabled_docs (db\<lparr>fs_rules := x\<rparr>) = enabled_docs db"
  by (simp_all add: enabled_docs_def fun_eq_iff)

lemma enabled_docs_put:
  "find_row i db = Some m \<Longrightarrow> mr_manifest_id m' = i \<Longrightarrow>
   enabled_docs (put_row m' db) =
     (enabled_docs db)(i := (if mr_status m' = Enabled then Some (mr_manifest_json m') else None))"
  by (rule ext) (simp add: enabled_docs_def row_simps)

lemma enabled_docs_put_disk [simp]:
  "enabled_docs (put_row m (remove_manifest_from_disk ok mid db)) = enabled_docs (put_row m db)"
  by (rule ext) (auto simp: enabled_docs_def row_simps)

lemma enabled_docs_add:
  "mr_status m = Draft \<Longrightarrow> enabled_docs (db\<lparr>db_manifests := db_manifests db @ [m]\<rparr>) = enabled_docs db"
  by (rule ext) (auto simp: enabled_docs_def row_simps split: option.split)

lemma disk_mirrorsI:
  assumes "disk_mirrors db" "enabled_docs db' = (enabled_docs db)(i := v)"
    and "fs_manifests db' = (case v of None \<Rightarrow> AList.delete (file_name i) (fs_manifests db)
           | Some j \<Rightarrow> AList.update (file_name i) j (fs_manifests db))"
  shows "disk_mirrors db'"
proof -
  have "files_of db' = (files_of db)(i := v)"
    using assms(3) by (cases v) (auto simp: files_of_def fun_eq_iff dict_simps)
  moreover have "dom (map_of (fs_manifests db')) \<subseteq> dom (map_of (fs_manifests db)) \<union> range file_name"
    using assms(3) by (cases v) (auto simp: dict_simps split: if_splits)
  ultimately show ?thesis using assms(1,2) by (auto simp: disk_mirrors_def)
qed

lemma disk_mirrors_same:
  "disk_mirrors db \<Longrightarrow> enabled_docs db' = enabled_docs db \<Longrightarrow> fs_manifests db' = fs_manifests db \<Longrightarrow> disk_mirrors db'"
  by (simp add: disk_mirrors_def files_of_def fun_eq_iff)

lemma enabled_docs_unchanged:
  assumes "find_row i db = Some m" "mr_manifest_id m' = i"
    and "mr_status m = Enabled \<longleftrightarrow> mr_status m' = Enabled" "mr_manifest_json m' = mr_manifest_json m"
  shows "enabled_docs (put_row m' db) = enabled_docs db"
  using assms by (auto simp: enabled_docs_put fun_eq_iff) (simp_all add: enabled_docs_def)

lemma transition_from:
  "can_transition s Approved \<Longrightarrow> s \<noteq> Enabled" "can_transition s Rejected \<Longrightarrow> s \<noteq> Enabled"
  by (auto simp: can_transition_def valid_transitions_def)

lemma disk_mirrors_step [step_inv]:
  assumes d: "disk_mirrors db" and ok: "fst (snd r)"
  shows "disk_mirrors (manifest_step r db)"
proof (cases "\<exists>mid m. find_row mid db = Some m \<and>
    (snd (snd r) = ReqEnable mid \<and> can_transition (mr_status m) Enabled \<or>
     snd (snd r) = ReqDisable mid \<and> can_transition (mr_status m) Disabled \<or>
     snd (snd r) = ReqArchive mid \<and> mr_status m = Enabled)")
  case True
  then obtain mid m where m: "find_row mid db = Some m" "mr_manifest_id m = mid"
    and c: "snd (snd r) = ReqEnable mid \<and> can_transition (mr_status m) Enabled \<or>
     snd (snd r) = ReqDisable mid \<and> can_transition (mr_status m) Disabled \<or>
     snd (snd r) = ReqArchive mid \<and> mr_status m = Enabled"
    by (auto simp: find_row_id)
  obtain now where r: "r = (now, True, snd (snd r))" using ok by (cases r) auto
  show ?thesis
    using c
  proof (elim disjE conjE)
    assume "snd (snd r) = ReqEnable mid" "can_transition (mr_status m) Enabled"
    with r m show ?thesis
      by (intro disk_mirrorsI [OF d, of _ mid "Some (mr_manifest_json m)"]; subst r)
        (simp_all add: handler_defs Let_def get_manifest_or_404_def row_simps enabled_docs_put)
  next
    assume "snd (snd r) = ReqDisable mid" "can_transition (mr_status m) Disabled"
    with r m show ?thesis
      by (intro disk_mirrorsI [OF d, of _ mid None]; subst r)
        (simp_all add: handler_defs Let_def get_manifest_or_404_def row_simps enabled_docs_put)
  next
    assume "snd (snd r) = ReqArchive mid" "mr_status m = Enabled"
    with r m show ?thesis
      by (intro disk_mirrorsI [OF d, of _ mid None]; subst r)
        (simp_all add: handler_defs Let_def get_manifest_or_404_def row_simps enabled_docs_put can_transition_def
          valid_transitions_def)
  qed
next
  case False
  show ?thesis
  proof (rule disk_mirrors_same [OF d])
    show "enabled_docs (manifest_step r db) = enabled_docs db"
      using False
      by (cases r rule: manifest_step_cases)
        (auto simp: handler_defs Let_def get_manifest_or_404_def split_beta row_simps enabled_docs_add
          find_row_id transition_from enabled_docs_unchanged split: option.splits sum.splits)
    show "fs_manifests (manifest_step r db) = fs_manifests db"
      using False
      by (cases r rule: manifest_step_cases)
        (auto simp: handler_defs Let_def get_manifest_or_404_def split_beta row_simps
          split: option.splits sum.splits)
  qed
qed

lemma disk_mirrors_files:
  assumes "disk_mirrors db"
  shows "map_of (fs_manifests db) f = Some j \<longleftrightarrow>
    (\<exists>i m. f = file_name i \<and> find_row i db = Some m \<and> mr_status m = Enabled \<and> mr_manifest_json m = j)"
proof -
  have "map_of (fs_manifests db) (file_name i) = enabled_docs db i" for i
    using assms by (auto simp: disk_mirrors_def files_of_def fun_eq_iff)
  moreover have "map_of (fs_manifests db) f = Some j \<Longrightarrow> \<exists>i. f = file_name i"
    using assms by (auto simp: disk_mirrors_def)
  ultimately show ?thesis
    by (auto simp: enabled_docs_def split: option.splits if_splits)
qed

subsection \<open>Rows and documents\<close>

definition rows_distinct :: "dashboard \<Rightarrow> bool" where
  "rows_distinct db \<longleftrightarrow> distinct (map mr_manifest_id (db_manifests db))"

lemma find_row_None: "find_row i db = None \<longleftrightarrow> i \<notin> set (map mr_manifest_id (db_manifests db))"
  by (auto simp: find_row_def find_None_iff)

lemma rows_distinct_step [step_inv]: "rows_distinct db \<Longrightarrow> rows_distinct (manifest_step r db)"
  by (cases r rule: manifest_step_cases)
    (auto simp: rows_distinct_def handler_defs Let_def get_manifest_or_404_def split_beta row_simps
      find_row_None split: option.splits sum.splits)

lemma find_row_member: "rows_distinct db \<Longrightarrow> find_row i db = Some m \<longleftrightarrow> m \<in> set (db_manifests db) \<and> mr_manifest_id m = i"
proof -
  have "distinct (map mr_manifest_id rs) \<Longrightarrow>
      find (\<lambda>r. mr_manifest_id r = i) rs = Some m \<longleftrightarrow> m \<in> set rs \<and> mr_manifest_id m = i" for rs
    by (induction rs) auto
  then show "rows_distinct db \<Longrightarrow> ?thesis" by (simp add: find_row_def rows_distinct_def)
qed

text \<open>
  No request changes the document of a manifest (approval does not stamp it), its key, or
  takes back the name of an approver.
\<close>

definition same_document :: "manifest_row \<Rightarrow> manifest_row \<Rightarrow> bool" where
  "same_document m m' \<longleftrightarrow> mr_manifest_json m' = mr_manifest_json m \<and> mr_id m' = mr_id m \<and>
     (mr_approved_by m = None \<or> mr_approved_by m' \<noteq> None)"

lemma same_document_refl [simp]: "same_document m m"
  by (auto simp: same_document_def)

lemma same_document_trans: "same_document a b \<Longrightarrow> same_document b c \<Longrightarrow> same_document a c"
  by (auto simp: same_document_def)

lemma document_step:
  "find_row i db = Some m \<Longrightarrow> \<exists>m'. find_row i (manifest_step r db) = Some m' \<and> same_document m m'"
  by (cases r rule: manifest_step_cases)
    (auto simp: handler_defs Let_def get_manifest_or_404_def split_beta row_simps find_row_id same_document_def
      split: option.splits sum.splits)

lemma manifest_step_frame:
  "db_links (manifest_step r db) = db_links db"
  "db_safe_mode (manifest_step r db) = db_safe_mode db"
  by (cases r rule: manifest_step_cases;
      simp add: handler_defs Let_def split_beta write_event_def put_row_def write_manifest_to_disk_def
        remove_manifest_from_disk_def split: option.split sum.split)+

lemma manifest_step_events:
  "\<exists>es. db_audit (manifest_step r db) = db_audit db @ es \<and> list_all (\<lambda>e. ae_entity_type e = ''manifest'') es"
  by (cases r rule: manifest_step_cases)
    (auto simp: handler_defs Let_def split_beta row_simps split: option.split sum.split)

lemma enabled_rows_member:
  "m \<in> set (enabled_rows db) \<longleftrightarrow> m \<in> set (db_manifests db) \<and> mr_status m = Enabled"
  by (auto simp: enabled_rows_def)

end
