(* ===== verification/Campaigns.thy ===== *)
theory Campaigns
  imports ManifestWorkflow
begin

section \<open>Campaigns (services/dashboard-api/dashboard_api/routers/campaigns.py)\<close>

text \<open>
  Operator-defined groups of manifests: the routes over the campaign rows and the ordered
  links to manifest rows. A link holds the uuid of the manifest row, not its manifest_id.
\<close>

definition activatable :: "manifest_status list" where
  "activatable = [Approved, Enabled]"

definition get_campaign_or_404 :: "string \<Rightarrow> dashboard \<Rightarrow> campaign_row res" where
  "get_campaign_or_404 cid db =
     (case find (\<lambda>c. cr_id c = cid) (db_campaigns db) of
        None \<Rightarrow> Inl (HTTPException 404) | Some c \<Rightarrow> Inr c)"

definition campaign_links :: "string \<Rightarrow> dashboard \<Rightarrow> campaign_link list" where
  "campaign_links cid db = filter (\<lambda>l. cl_campaign_id l = cid) (db_links db)"

record campaign_out =
  co_campaign :: campaign_row
  co_manifest_ids :: "string list"

text \<open>The manifest_ids in the order of the positions; a link whose row is gone is skipped.\<close>

definition build_campaign_out :: "campaign_row \<Rightarrow> dashboard \<Rightarrow> campaign_out" where
  "build_campaign_out c db =
     \<lparr>co_campaign = c,
      co_manifest_ids = List.map_filter (\<lambda>l.
        case find (\<lambda>m. mr_id m = cl_manifest_id l) (db_manifests db) of
          None \<Rightarrow> None
        | Some m \<Rightarrow> if mr_manifest_id m = [] then None else Some (mr_manifest_id m))
        (sort_key cl_position (campaign_links (cr_id c) db))\<rparr>"

definition list_campaigns :: "string option \<Rightarrow> int \<Rightarrow> int option \<Rightarrow> dashboard
    \<Rightarrow> (campaign_row list \<times> pagination) res" where
  "list_campaigns status page page_size db =
     paginate page page_size
       (sort_key (\<lambda>c. - cr_created_at c)
         (case status of
            None \<Rightarrow> db_campaigns db
          | Some s \<Rightarrow> if s = [] then db_campaigns db
                       else filter (\<lambda>c. campaign_status_str (cr_status c) = s) (db_campaigns db)))"

definition get_campaign :: "string \<Rightarrow> dashboard \<Rightarrow> campaign_out res" where
  "get_campaign cid db =
     (case get_campaign_or_404 cid db of Inl e \<Rightarrow> Inl e | Inr c \<Rightarrow> Inr (build_campaign_out c db))"

definition put_campaign :: "campaign_row \<Rightarrow> dashboard \<Rightarrow> dashboard" where
  "put_campaign c db =
     db\<lparr>db_campaigns := map (\<lambda>r. if cr_id r = cr_id c then c else r) (db_campaigns db)\<rparr>"

subsection \<open>Creation and update\<close>

record campaign_in =
  ci_name :: string
  ci_description :: "string option"
  ci_start_at :: "rat option"
  ci_end_at :: "rat option"

definition name_ok :: "string \<Rightarrow> bool" where
  "name_ok n \<longleftrightarrow> 1 \<le> length n \<and> length n \<le> 255"

definition description_ok :: "string option \<Rightarrow> bool" where
  "description_ok d \<longleftrightarrow> (case d of None \<Rightarrow> True | Some s \<Rightarrow> length s \<le> 2048)"

definition create_campaign :: "rat \<Rightarrow> string \<Rightarrow> campaign_in \<Rightarrow> dashboard \<Rightarrow> campaign_out res \<times> dashboard" where
  "create_campaign now uuid body db =
     (if \<not> name_ok (ci_name body) \<or> \<not> description_ok (ci_description body)
      then (Inl (HTTPException 422), db)
      else
        let c = \<lparr>cr_id = uuid, cr_name = ci_name body, cr_description = ci_description body,
              cr_status = CDraft, cr_start_at = ci_start_at body, cr_end_at = ci_end_at body,
              cr_created_at = now, cr_updated_at = now\<rparr>;
            db' = write_event now ''campaign.created'' ''campaign'' uuid ''operator''
              [(''name'', JStr (ci_name body))] (db\<lparr>db_campaigns := db_campaigns db @ [c]\<rparr>)
        in (Inr (build_campaign_out c db'), db'))"

record campaign_update =
  cu_name :: "string option"
  cu_description :: "string option"
  cu_status :: "string option"
  cu_start_at :: "rat option"
  cu_end_at :: "rat option"

definition parse_campaign_status :: "string \<Rightarrow> campaign_status option" where
  "parse_campaign_status s = find (\<lambda>c. campaign_status_str c = s) [CDraft, CActive, CPaused, CArchived]"

definition or_keep :: "'a option \<Rightarrow> 'a \<Rightarrow> 'a" where
  "or_keep new old = (case new of None \<Rightarrow> old | Some v \<Rightarrow> v)"

definition or_keep_opt :: "'a option \<Rightarrow> 'a option \<Rightarrow> 'a option" where
  "or_keep_opt new old = (case new of None \<Rightarrow> old | Some v \<Rightarrow> Some v)"

definition update_changes :: "campaign_update \<Rightarrow> campaign_row \<Rightarrow> (string \<times> json) list" where
  "update_changes body c =
     (case cu_name body of None \<Rightarrow> [] | Some n \<Rightarrow> [(''name'', JStr n)]) @
     (case cu_description body of None \<Rightarrow> [] | Some d \<Rightarrow> [(''description'', JStr d)]) @
     (case cu_status body of None \<Rightarrow> []
      | Some s \<Rightarrow> [(''previous_status'', JStr (campaign_status_str (cr_status c))), (''new_status'', JStr s)])"

definition update_campaign :: "rat \<Rightarrow> string \<Rightarrow> campaign_update \<Rightarrow> dashboard \<Rightarrow> campaign_out res \<times> dashboard" where
  "update_campaign now cid body db =
     (if (case cu_name body of None \<Rightarrow> False | Some n \<Rightarrow> \<not> name_ok n) \<or> \<not> description_ok (cu_description body)
      then (Inl (HTTPException 422), db)
      else case get_campaign_or_404 cid db of
        Inl e \<Rightarrow> (Inl e, db)
      | Inr c \<Rightarrow>
          if cr_status c = CArchived then (Inl (HTTPException 409), db)
          else
            (case (case cu_status body of None \<Rightarrow> Some (cr_status c) | Some s \<Rightarrow> parse_campaign_status s) of
               None \<Rightarrow> (Inl (HTTPException 422), db)
             | Some status \<Rightarrow>
                 let c' = c\<lparr>cr_name := or_keep (cu_name body) (cr_name c),
                       cr_description := or_keep_opt (cu_description body) (cr_description c),
                       cr_status := status,
                       cr_start_at := or_keep_opt (cu_start_at body) (cr_start_at c),
                       cr_end_at := or_keep_opt (cu_end_at body) (cr_end_at c),
                       cr_updated_at := now\<rparr>;
                     db' = write_event now ''campaign.updated'' ''campaign'' cid ''operator''
                       (update_changes body c) (put_campaign c' db)
                 in (Inr (build_campaign_out c' db'), db')))"

subsection \<open>Links\<close>

definition find_link :: "string \<Rightarrow> string \<Rightarrow> dashboard \<Rightarrow> campaign_link option" where
  "find_link cid row_id db =
     find (\<lambda>l. cl_campaign_id l = cid \<and> cl_manifest_id l = row_id) (db_links db)"

text \<open>\<open>(max position or -1) + 1\<close>, where \<open>or\<close> also replaces the maximum 0.\<close>

definition next_position :: "campaign_link list \<Rightarrow> int" where
  "next_position ls =
     (case map cl_position ls of
        [] \<Rightarrow> -1
      | p # ps \<Rightarrow> let m = fold max ps p in if m = 0 then -1 else m) + 1"

definition add_manifest_to_campaign :: "rat \<Rightarrow> string \<Rightarrow> string \<Rightarrow> dashboard \<Rightarrow> campaign_out res \<times> dashboard" where
  "add_manifest_to_campaign now cid mid db =
     (case get_campaign_or_404 cid db of
        Inl e \<Rightarrow> (Inl e, db)
      | Inr c \<Rightarrow>
          if cr_status c = CArchived then (Inl (HTTPException 409), db)
          else (case get_manifest_or_404 mid db of
            Inl e \<Rightarrow> (Inl e, db)
          | Inr m \<Rightarrow>
              if mr_status m \<notin> set activatable then (Inl (HTTPException 409), db)
              else if find_link cid (mr_id m) db \<noteq> None then (Inr (build_campaign_out c db), db)
              else
                let l = \<lparr>cl_campaign_id = cid, cl_manifest_id = mr_id m,
                      cl_position = next_position (campaign_links cid db)\<rparr>;
                    db' = write_event now ''campaign.manifest_added'' ''campaign'' cid ''operator''
                      [(''manifest_id'', JStr mid)] (db\<lparr>db_links := db_links db @ [l]\<rparr>)
                in (Inr (build_campaign_out c db'), db')))"

definition remove_manifest_from_campaign :: "rat \<Rightarrow> string \<Rightarrow> string \<Rightarrow> dashboard \<Rightarrow> campaign_out res \<times> dashboard" where
  "remove_manifest_from_campaign now cid mid db =
     (case get_campaign_or_404 cid db of
        Inl e \<Rightarrow> (Inl e, db)
      | Inr c \<Rightarrow>
          (case get_manifest_or_404 mid db of
             Inl e \<Rightarrow> (Inl e, db)
           | Inr m \<Rightarrow>
               if find_link cid (mr_id m) db = None then (Inl (HTTPException 404), db)
               else
                 let db' = write_event now ''campaign.manifest_removed'' ''campaign'' cid ''operator''
                       [(''manifest_id'', JStr mid)]
                       (db\<lparr>db_links := filter (\<lambda>l. \<not> (cl_campaign_id l = cid \<and> cl_manifest_id l = mr_id m))
                          (db_links db)\<rparr>)
                 in (Inr (build_campaign_out c db'), db')))"

definition archive_campaign :: "rat \<Rightarrow> string \<Rightarrow> dashboard \<Rightarrow> campaign_out res \<times> dashboard" where
  "archive_campaign now cid db =
     (case get_campaign_or_404 cid db of
        Inl e \<Rightarrow> (Inl e, db)
      | Inr c \<Rightarrow>
          if cr_status c = CArchived then (Inl (HTTPException 409), db)
          else
            let c' = c\<lparr>cr_status := CArchived, cr_updated_at := now\<rparr>;
                db' = write_event now ''campaign.archived'' ''campaign'' cid ''operator''
                  [(''previous_status'', JStr (campaign_status_str (cr_status c)))] (put_campaign c' db)
            in (Inr (build_campaign_out c' db'), db'))"

subsection \<open>Requests\<close>

datatype campaign_request =
    ReqNewCampaign string campaign_in
  | ReqUpdateCampaign string campaign_update
  | ReqAddManifest string string
  | ReqRemoveManifest string string
  | ReqArchiveCampaign string

fun campaign_step :: "rat \<times> campaign_request \<Rightarrow> dashboard \<Rightarrow> dashboard" where
  "campaign_step (now, ReqNewCampaign uuid body) db = snd (create_campaign now uuid body db)"
| "campaign_step (now, ReqUpdateCampaign cid body) db = snd (update_campaign now cid body db)"
| "campaign_step (now, ReqAddManifest cid mid) db = snd (add_manifest_to_campaign now cid mid db)"
| "campaign_step (now, ReqRemoveManifest cid mid) db = snd (remove_manifest_from_campaign now cid mid db)"
| "campaign_step (now, ReqArchiveCampaign cid) db = snd (archive_campaign now cid db)"

lemmas campaign_defs = create_campaign_def update_campaign_def add_manifest_to_campaign_def
  remove_manifest_from_campaign_def archive_campaign_def

lemma put_campaign_simps [simp]:
  "db_audit (put_campaign c db) = db_audit db"
  "db_manifests (put_campaign c db) = db_manifests db"
  "db_links (put_campaign c db) = db_links db"
  "fs_manifests (put_campaign c db) = fs_manifests db"
  "db_safe_mode (put_campaign c db) = db_safe_mode db"
  by (simp_all add: put_campaign_def)

interpretation campaign_router: audited_router campaign_step
proof
  fix db r
  show "log_extended db (campaign_step r db)"
    by (cases r; cases "snd r")
      (auto simp: campaign_defs Let_def intro!: log_extended_event split: option.split sum.split)
qed

subsection \<open>Positions\<close>

text \<open>
  Since \<open>max_pos or -1\<close> treats the position 0 as missing, no link ever gets another position
  than 0: the order in which manifests are added is not recorded.
\<close>

definition unordered :: "dashboard \<Rightarrow> bool" where
  "unordered db \<longleftrightarrow> list_all (\<lambda>l. cl_position l = 0) (db_links db)"

lemma next_position_zero:
  assumes "list_all (\<lambda>l. cl_position l = 0) ls"
  shows "next_position ls = 0"
proof -
  have "fold max ps (0::int) = 0" if "list_all (\<lambda>p. p = 0) ps" for ps
    using that by (induction ps) auto
  moreover have "list_all (\<lambda>p. p = 0) (map cl_position ls)" using assms by (simp add: list_all_iff)
  ultimately show ?thesis
    by (cases "map cl_position ls") (auto simp: next_position_def)
qed

lemma unordered_step [step_inv]: "unordered db \<Longrightarrow> unordered (campaign_step r db)"
  by (cases r; cases "snd r")
    (auto simp: unordered_def campaign_defs Let_def write_event_def put_campaign_def campaign_links_def list_all_iff
      intro!: next_position_zero split: option.split sum.split)

subsection \<open>Links\<close>

text \<open>No manifest twice in a campaign.\<close>

definition links_distinct :: "dashboard \<Rightarrow> bool" where
  "links_distinct db \<longleftrightarrow> distinct (map (\<lambda>l. (cl_campaign_id l, cl_manifest_id l)) (db_links db))"

lemma find_link_None:
  "find_link cid i db = None \<longleftrightarrow> (cid, i) \<notin> set (map (\<lambda>l. (cl_campaign_id l, cl_manifest_id l)) (db_links db))"
  by (auto simp: find_link_def find_None_iff)

lemma links_distinct_step [step_inv]: "links_distinct db \<Longrightarrow> links_distinct (campaign_step r db)"
  by (cases r; cases "snd r")
    (auto simp: links_distinct_def campaign_defs Let_def write_event_def put_campaign_def find_link_None
      distinct_map_filter split: option.split sum.split)

text \<open>A new link leads from an existing campaign to an approved or enabled manifest.\<close>

lemma campaign_step_links:
  assumes "l \<in> set (db_links (campaign_step r db))"
  obtains "l \<in> set (db_links db)"
  | i m where "find_row i db = Some m" "mr_status m \<in> set activatable" "cl_manifest_id l = mr_id m"
  using assms
  by (cases r; cases "snd r")
    (auto simp: campaign_defs Let_def write_event_def get_manifest_or_404_def split: option.splits sum.splits if_splits)

text \<open>Campaign requests leave the manifests, the manifest directory and safe mode alone.\<close>

lemma campaign_step_frame:
  "db_manifests (campaign_step r db) = db_manifests db"
  "fs_manifests (campaign_step r db) = fs_manifests db"
  "fs_rules (campaign_step r db) = fs_rules db"
  "db_safe_mode (campaign_step r db) = db_safe_mode db"
  by (cases r; cases "snd r";
      simp add: campaign_defs Let_def write_event_def put_campaign_def split: option.split sum.split)+

lemma campaign_step_events:
  "\<exists>es. db_audit (campaign_step r db) = db_audit db @ es \<and> list_all (\<lambda>e. ae_entity_type e = ''campaign'') es"
  by (cases r; cases "snd r")
    (auto simp: campaign_defs Let_def write_event_def put_campaign_def split: option.split sum.split)

end
