(* ===== verification/SystemApi.thy ===== *)
theory SystemApi
  imports DashboardDb
begin

section \<open>System routes (services/dashboard-api/dashboard_api/routers/system.py)\<close>

text \<open>
  Health aggregation, the safe-mode row, the audit listing, the live view and the relay of a
  policy reload. What a probed service or the optimizer answers is an argument.
\<close>

subsection \<open>Probes\<close>

datatype probe_status = Healthy | Unhealthy | Unreachable

fun probe_status_str :: "probe_status \<Rightarrow> string" where
  "probe_status_str Healthy = ''healthy''"
| "probe_status_str Unhealthy = ''unhealthy''"
| "probe_status_str Unreachable = ''unreachable''"

record service_probe =
  sp_status :: probe_status
  sp_probed_at :: rat
  sp_latency_ms :: "int option"
  sp_detail :: "string option"

text \<open>An answer with its status and the seconds it took, a timeout, or a client error with its text.\<close>

datatype http_answer = Answered int rat | TimedOut | ClientFailed string

definition probe_service :: "rat \<Rightarrow> http_answer \<Rightarrow> service_probe" where
  "probe_service now answer =
     (case answer of
        Answered status seconds \<Rightarrow>
          if status = 200
          then \<lparr>sp_status = Healthy, sp_probed_at = now, sp_latency_ms = Some (py_int (seconds * 1000)),
                sp_detail = None\<rparr>
          else \<lparr>sp_status = Unhealthy, sp_probed_at = now, sp_latency_ms = Some (py_int (seconds * 1000)),
                sp_detail = Some (''HTTP '' @ show_int status)\<rparr>
      | TimedOut \<Rightarrow>
          \<lparr>sp_status = Unreachable, sp_probed_at = now, sp_latency_ms = None, sp_detail = Some ''timeout''\<rparr>
      | ClientFailed e \<Rightarrow>
          \<lparr>sp_status = Unreachable, sp_probed_at = now, sp_latency_ms = None, sp_detail = Some (take 128 e)\<rparr>)"

subsection \<open>Safe mode\<close>

record safe_mode_info =
  si_active :: bool
  si_reason :: "string option"
  si_activated_at :: "rat option"

definition inactive_info :: safe_mode_info where
  "inactive_info = \<lparr>si_active = False, si_reason = None, si_activated_at = None\<rparr>"

text \<open>The singleton row, which is created inactive when it is missing.\<close>

definition get_or_create_safe_mode :: "rat \<Rightarrow> dashboard \<Rightarrow> safe_mode_row" where
  "get_or_create_safe_mode now db =
     (case db_safe_mode db of
        Some row \<Rightarrow> row
      | None \<Rightarrow> \<lparr>sf_is_active = False, sf_reason = None, sf_activated_at = None, sf_activated_by = None,
                 sf_updated_at = now\<rparr>)"

definition safe_mode_info_of :: "safe_mode_row \<Rightarrow> safe_mode_info" where
  "safe_mode_info_of row =
     \<lparr>si_active = sf_is_active row, si_reason = sf_reason row, si_activated_at = sf_activated_at row\<rparr>"

text \<open>The only read that commits: a missing row is stored.\<close>

definition get_safe_mode :: "rat \<Rightarrow> dashboard \<Rightarrow> safe_mode_info \<times> dashboard" where
  "get_safe_mode now db =
     (let row = get_or_create_safe_mode now db
      in (safe_mode_info_of row, db\<lparr>db_safe_mode := Some row\<rparr>))"

text \<open>\<open>SafeModeRequest\<close> bounds both fields; a request it refuses is answered 422.\<close>

definition engage_safe_mode :: "rat \<Rightarrow> string \<Rightarrow> string \<Rightarrow> dashboard \<Rightarrow> safe_mode_info res \<times> dashboard" where
  "engage_safe_mode now reason activated_by db =
     (if length reason < 1 \<or> 512 < length reason \<or> 128 < length activated_by
      then (Inl (HTTPException 422), db)
      else
        let row = get_or_create_safe_mode now db in
        if sf_is_active row
        then (Inr \<lparr>si_active = True, si_reason = sf_reason row, si_activated_at = sf_activated_at row\<rparr>, db)
        else
          (Inr \<lparr>si_active = True, si_reason = Some reason, si_activated_at = Some now\<rparr>,
           write_event now ''safe_mode.engaged'' ''system'' ''system'' activated_by [(''reason'', JStr reason)]
             (db\<lparr>db_safe_mode := Some \<lparr>sf_is_active = True, sf_reason = Some reason,
                   sf_activated_at = Some now, sf_activated_by = Some activated_by, sf_updated_at = now\<rparr>\<rparr>)))"

definition clear_safe_mode :: "rat \<Rightarrow> string \<Rightarrow> dashboard \<Rightarrow> safe_mode_info \<times> dashboard" where
  "clear_safe_mode now cleared_by db =
     (let row = get_or_create_safe_mode now db in
      if \<not> sf_is_active row then (inactive_info, db)
      else
        (inactive_info,
         write_event now ''safe_mode.cleared'' ''system'' ''system'' cleared_by []
           (db\<lparr>db_safe_mode := Some \<lparr>sf_is_active = False, sf_reason = None, sf_activated_at = None,
                 sf_activated_by = None, sf_updated_at = now\<rparr>\<rparr>)))"

text \<open>The answer on the wire (FastAPI serialises the fields of the response model).\<close>

definition safe_mode_json :: "(rat \<Rightarrow> string) \<Rightarrow> safe_mode_info \<Rightarrow> json" where
  "safe_mode_json isoformat si = JObj
     [(''active'', JBool (si_active si)), (''reason'', opt_json JStr (si_reason si)),
      (''activated_at'', opt_json (\<lambda>t. JStr (isoformat t)) (si_activated_at si))]"

datatype safe_mode_request = ReqEngage string string | ReqClear string

fun safe_mode_step :: "rat \<times> safe_mode_request \<Rightarrow> dashboard \<Rightarrow> dashboard" where
  "safe_mode_step (now, ReqEngage reason who) db = snd (engage_safe_mode now reason who db)"
| "safe_mode_step (now, ReqClear who) db = snd (clear_safe_mode now who db)"

interpretation safe_mode_router: audited_router safe_mode_step
proof
  fix db r
  show "log_extended db (safe_mode_step r db)"
    by (cases r; cases "snd r")
      (auto simp: engage_safe_mode_def clear_safe_mode_def Let_def intro!: log_extended_event)
qed

text \<open>The row is what the last safe-mode event of the log says.\<close>

definition safe_mode_of_event :: "audit_event \<Rightarrow> (bool \<times> string option) option" where
  "safe_mode_of_event e =
     (if ae_event_type e = ''safe_mode.engaged''
      then Some (True, Some (ae_actor e))
      else if ae_event_type e = ''safe_mode.cleared'' then Some (False, None)
      else None)"

definition safe_mode_view :: "dashboard \<Rightarrow> bool \<times> string option" where
  "safe_mode_view db =
     (case db_safe_mode db of None \<Rightarrow> (False, None) | Some row \<Rightarrow> (sf_is_active row, sf_activated_by row))"

definition safe_mode_logged :: "dashboard \<Rightarrow> bool" where
  "safe_mode_logged db \<longleftrightarrow>
     safe_mode_view db = (case latest safe_mode_of_event (db_audit db) of None \<Rightarrow> (False, None) | Some v \<Rightarrow> v)"

lemma safe_mode_logged_step [step_inv]: "safe_mode_logged db \<Longrightarrow> safe_mode_logged (safe_mode_step r db)"
  by (cases r; cases "snd r")
    (auto simp: safe_mode_logged_def engage_safe_mode_def clear_safe_mode_def Let_def write_event_def
      safe_mode_of_event_def safe_mode_view_def)

lemma safe_mode_logged_other:
  assumes "safe_mode_logged db" "db_safe_mode db' = db_safe_mode db"
    and "db_audit db' = db_audit db @ es" "list_all (\<lambda>e. safe_mode_of_event e = None) es"
  shows "safe_mode_logged db'"
proof -
  have "latest safe_mode_of_event (xs @ es) = latest safe_mode_of_event xs" for xs
    using assms(4)
  proof (induction es rule: rev_induct)
    case (snoc e es)
    then show ?case by (simp flip: append_assoc)
  qed simp
  with assms(1-3) show ?thesis by (simp add: safe_mode_logged_def safe_mode_view_def)
qed

subsection \<open>Aggregated status\<close>

datatype overall = OverallHealthy | OverallDegraded | OverallCritical

fun overall_str :: "overall \<Rightarrow> string" where
  "overall_str OverallHealthy = ''healthy''"
| "overall_str OverallDegraded = ''degraded''"
| "overall_str OverallCritical = ''critical''"

fun severity :: "overall \<Rightarrow> nat" where
  "severity OverallHealthy = 0"
| "severity OverallDegraded = 1"
| "severity OverallCritical = 2"

lemma severity_inj: "severity a = severity b \<longleftrightarrow> a = b"
  by (cases a; cases b) simp_all

instantiation overall :: linorder
begin

definition less_eq_overall :: "overall \<Rightarrow> overall \<Rightarrow> bool" where
  "less_eq_overall a b \<longleftrightarrow> severity a \<le> severity b"

definition less_overall :: "overall \<Rightarrow> overall \<Rightarrow> bool" where
  "less_overall a b \<longleftrightarrow> severity a < severity b"

instance
  by standard (auto simp: less_eq_overall_def less_overall_def severity_inj)

end

definition probe_targets :: "string list" where
  "probe_targets = [''player'', ''audience-state'', ''decision-optimizer'', ''creative'']"

definition critical_services :: "string list" where
  "critical_services = [''player'']"

definition compute_overall :: "(string \<times> service_probe) list \<Rightarrow> overall" where
  "compute_overall probes =
     (let critical_unhealthy = list_ex (\<lambda>svc. case map_of probes svc of
            None \<Rightarrow> False | Some p \<Rightarrow> sp_status p \<noteq> Healthy) critical_services;
          any_unhealthy = list_ex (\<lambda>(_, p). sp_status p \<noteq> Healthy) probes
      in if critical_unhealthy then OverallCritical
         else if any_unhealthy then OverallDegraded
         else OverallHealthy)"

record system_status =
  sy_sampled_at :: rat
  sy_overall :: overall
  sy_safe_mode :: safe_mode_info
  sy_services :: "(string \<times> service_probe) list"

definition get_system_status :: "rat \<Rightarrow> (string \<Rightarrow> http_answer) \<Rightarrow> dashboard \<Rightarrow> system_status" where
  "get_system_status now answers db =
     (let probes = map (\<lambda>name. (name, probe_service now (answers name))) probe_targets
      in \<lparr>sy_sampled_at = now, sy_overall = compute_overall probes,
          sy_safe_mode = safe_mode_info_of (get_or_create_safe_mode now db), sy_services = probes\<rparr>)"

text \<open>What one service contributes to the overall status.\<close>

definition contribution :: "string \<times> service_probe \<Rightarrow> overall" where
  "contribution np =
     (if sp_status (snd np) = Healthy then OverallHealthy
      else if fst np \<in> set critical_services then OverallCritical
      else OverallDegraded)"

lemma get_system_status_worst:
  "sy_overall (get_system_status now answers db) =
     fold (\<lambda>np. max (contribution np)) (sy_services (get_system_status now answers db)) OverallHealthy"
  by (simp add: get_system_status_def compute_overall_def probe_targets_def critical_services_def contribution_def
      Let_def max_def less_eq_overall_def)

subsection \<open>Audit listing\<close>

definition keep_if :: "string option \<Rightarrow> (audit_event \<Rightarrow> string) \<Rightarrow> audit_event \<Rightarrow> bool" where
  "keep_if wanted field e = (case wanted of None \<Rightarrow> True | Some w \<Rightarrow> w = [] \<or> field e = w)"

definition list_events :: "string option \<Rightarrow> string option \<Rightarrow> string option \<Rightarrow> int \<Rightarrow> int option \<Rightarrow> dashboard
    \<Rightarrow> (audit_event list \<times> pagination) res" where
  "list_events event_type entity_type entity_id page page_size db =
     paginate page page_size
       (sort_key (\<lambda>e. - ae_created_at e)
         (filter (\<lambda>e. keep_if event_type ae_event_type e \<and> keep_if entity_type ae_entity_type e \<and>
            keep_if entity_id ae_entity_id e) (db_audit db)))"

subsection \<open>Live view\<close>

record demographics_live =
  dv_age_group :: "(string \<times> rat) list option"
  dv_attire :: "(string \<times> rat) list option"
  dv_suppressed :: bool

record cv_live =
  cv_available :: bool
  cv_count :: "int option"
  cv_confidence :: "rat option"
  cv_fps :: "rat option"
  cv_inference_ms :: "rat option"
  cv_signal_age_ms :: "int option"
  cv_state_stable :: "bool option"
  cv_freeze_decision :: "bool option"
  cv_demographics :: "demographics_live option"

record player_live =
  pv_available :: bool
  pv_state :: "string option"
  pv_active_manifest_id :: "string option"
  pv_dwell_elapsed :: "bool option"
  pv_freeze_reason :: "string option"
  pv_safe_mode_reason :: "string option"

definition cv_stale_threshold_ms :: int where
  "cv_stale_threshold_ms = 30000"

text \<open>\<open>order_by(column.desc()).limit(1)\<close>\<close>

definition newest :: "('a \<Rightarrow> rat) \<Rightarrow> 'a list \<Rightarrow> 'a option" where
  "newest field rows = (case sort_key (\<lambda>r. - field r) rows of [] \<Rightarrow> None | r # _ \<Rightarrow> Some r)"

lemma newest_Some:
  assumes "newest field rows = Some r"
  shows "r \<in> set rows" "r' \<in> set rows \<Longrightarrow> field r' \<le> field r"
proof -
  from assms obtain rs where s: "sort_key (\<lambda>r. - field r) rows = r # rs"
    by (auto simp: newest_def split: list.splits)
  then have set: "set rows = insert r (set rs)" by (metis list.simps(15) set_sort)
  then show "r \<in> set rows" by simp
  have "sorted (map (\<lambda>r. - field r) (r # rs))" by (metis s sorted_sort_key)
  then show "r' \<in> set rows \<Longrightarrow> field r' \<le> field r" unfolding set by auto
qed

lemma newest_None: "newest field rows = None \<longleftrightarrow> rows = []"
proof -
  have "sort_key (\<lambda>r. - field r) rows = [] \<longleftrightarrow> rows = []" by (metis length_0_conv length_sort)
  then show ?thesis by (auto simp: newest_def split: list.split)
qed

definition cv_of_snapshot :: "rat \<Rightarrow> snapshot_row option \<Rightarrow> cv_live" where
  "cv_of_snapshot now snapshot =
     (case snapshot of
        None \<Rightarrow> \<lparr>cv_available = False, cv_count = None, cv_confidence = None, cv_fps = None,
                 cv_inference_ms = None, cv_signal_age_ms = None, cv_state_stable = None,
                 cv_freeze_decision = None, cv_demographics = None\<rparr>
      | Some sn \<Rightarrow>
          let age_ms = py_int ((now - sn_sampled_at sn) * 1000);
              ages = List.map_filter (\<lambda>k. map_option (Pair k) (map_of (sn_age_group sn) k))
                [''child'', ''young_adult'', ''adult'', ''senior''];
              age_groups = (if sn_demographics_suppressed sn then None
                else if ages = [] then None else Some ages)
          in \<lparr>cv_available = age_ms < cv_stale_threshold_ms,
              cv_count = Some (sn_presence_count sn), cv_confidence = Some (sn_presence_confidence sn),
              cv_fps = None, cv_inference_ms = None, cv_signal_age_ms = Some age_ms,
              cv_state_stable = Some (sn_state_stable sn), cv_freeze_decision = Some (\<not> sn_state_stable sn),
              cv_demographics = Some \<lparr>dv_age_group = age_groups, dv_attire = None,
                dv_suppressed = sn_demographics_suppressed sn\<rparr>\<rparr>)"

definition player_live_of :: "bool \<Rightarrow> safe_mode_row \<Rightarrow> play_row option \<Rightarrow> player_live" where
  "player_live_of available row play =
     \<lparr>pv_available = available,
      pv_state = (if sf_is_active row then Some ''safe_mode''
        else if available \<and> play \<noteq> None then Some ''active''
        else if available then Some ''fallback'' else None),
      pv_active_manifest_id = map_option pw_manifest_id play,
      pv_dwell_elapsed = None, pv_freeze_reason = None,
      pv_safe_mode_reason = (if sf_is_active row then sf_reason row else None)\<rparr>"

definition get_live_status :: "rat \<Rightarrow> http_answer \<Rightarrow> dashboard \<Rightarrow> cv_live \<times> player_live" where
  "get_live_status now answer db =
     (let row = get_or_create_safe_mode now db;
          probe = probe_service now answer
      in (cv_of_snapshot now (newest sn_sampled_at (db_snapshots db)),
          player_live_of (sp_status probe = Healthy) row (newest pw_activated_at (db_plays db))))"

subsection \<open>Policy reload relay\<close>

text \<open>
  The answer of the optimizer: a timeout of the whole request, a client error, a body that is
  not JSON, or a status with its body. A timeout is no \<open>ClientError\<close> and escapes the handler.
\<close>

datatype reload_answer = ReloadTimedOut | ReloadFailed string | ReloadBadBody | ReloadAnswered int json

definition reload_policy_relay :: "reload_answer \<Rightarrow> json res" where
  "reload_policy_relay answer =
     (case answer of
        ReloadTimedOut \<Rightarrow> Inl TimeoutError
      | ReloadFailed e \<Rightarrow> Inl (HTTPException 502)
      | ReloadBadBody \<Rightarrow> Inl ValueError
      | ReloadAnswered status body \<Rightarrow> if status \<noteq> 200 then Inl (HTTPException 502) else Inr body)"

end
