(* ===== verification/Assets.thy ===== *)
theory Assets
  imports DashboardDb Fallback
begin

section \<open>Assets (services/dashboard-api/dashboard_api/routers/assets.py)\<close>

text \<open>
  Upload, listing and archiving of creative files. A byte is a \<open>char\<close>; the hash function
  (SHA-256 as a hexadecimal string) is a parameter; \<open>fails_after\<close> is the number of chunks
  after which a write raises, if one does.
\<close>

definition allowed_extensions :: "(string \<times> string) list" where
  "allowed_extensions =
     [(''.mp4'', ''video''), (''.webm'', ''video''), (''.jpg'', ''image''), (''.jpeg'', ''image''),
      (''.png'', ''image''), (''.webp'', ''image''), (''.html'', ''html'')]"

text \<open>The last component of a path, as \<open>PurePosixPath.name\<close> computes it.\<close>

fun split_slash :: "string \<Rightarrow> string list" where
  "split_slash [] = [[]]"
| "split_slash (c # cs) =
     (if c = CHR ''/'' then [] # split_slash cs
      else case split_slash cs of [] \<Rightarrow> [[c]] | p # ps \<Rightarrow> (c # p) # ps)"

definition path_name :: "string \<Rightarrow> string" where
  "path_name s = (case filter (\<lambda>p. p \<noteq> [] \<and> p \<noteq> ''.'') (split_slash s) of [] \<Rightarrow> [] | ps \<Rightarrow> last ps)"

definition detect_asset_type :: "string \<Rightarrow> string" where
  "detect_asset_type filename =
     (case map_of allowed_extensions (ascii_lower (path_suffix (path_name filename))) of
        None \<Rightarrow> ''unknown'' | Some ty \<Rightarrow> ty)"

definition list_assets :: "string option \<Rightarrow> int \<Rightarrow> int option \<Rightarrow> dashboard
    \<Rightarrow> (asset_row list \<times> pagination) res" where
  "list_assets kind page page_size db =
     paginate page page_size
       (sort_key (\<lambda>a. - ar_uploaded_at a)
         (filter (\<lambda>a. ar_status a = AssetActive \<and>
            (case kind of None \<Rightarrow> True | Some ty \<Rightarrow> ty = [] \<or> ar_asset_type a = ty)) (db_assets db)))"

subsection \<open>Upload\<close>

text \<open>\<open>while chunk := await file.read(n)\<close>\<close>

fun read_chunks :: "nat \<Rightarrow> string \<Rightarrow> string list" where
  "read_chunks n bytes =
     (if n = 0 \<or> bytes = [] then [] else take n bytes # read_chunks n (drop n bytes))"

declare read_chunks.simps [simp del]

text \<open>
  The streaming loop: what has been written, hashed and counted so far, and the outcome.
\<close>

record upload_state =
  us_written :: string
  us_hashed :: string
  us_size :: nat

fun stream_upload :: "nat option \<Rightarrow> string list \<Rightarrow> upload_state \<Rightarrow> unit res \<times> upload_state" where
  "stream_upload fails_after [] us = (Inr (), us)"
| "stream_upload fails_after (chunk # chunks) us =
     (if fails_after = Some 0 then (Inl OSError, us)
      else stream_upload (map_option (\<lambda>k. k - 1) fails_after) chunks
        (us\<lparr>us_written := us_written us @ chunk, us_hashed := us_hashed us @ chunk,
            us_size := us_size us + length chunk\<rparr>))"

definition upload_asset :: "(string \<Rightarrow> string) \<Rightarrow> rat \<Rightarrow> string \<Rightarrow> nat option \<Rightarrow> string option \<Rightarrow> string
    \<Rightarrow> dashboard \<Rightarrow> asset_row res \<times> dashboard" where
  "upload_asset sha256 now asset_id fails_after name bytes db =
     (let filename = (case name of None \<Rightarrow> ''unknown'' | Some n \<Rightarrow> if n = [] then ''unknown'' else n);
          ty = detect_asset_type filename
      in if ty = ''unknown'' then (Inl (HTTPException 422), db)
         else (case stream_upload fails_after (read_chunks 65536 bytes)
                   \<lparr>us_written = [], us_hashed = [], us_size = 0\<rparr> of
                 (Inl _, us) \<Rightarrow>
                   (Inl (HTTPException 500),
                    db\<lparr>fs_assets := AList.update asset_id (us_written us) (fs_assets db)\<rparr>)
               | (Inr _, us) \<Rightarrow>
                   let a = \<lparr>ar_asset_id = asset_id, ar_filename = filename, ar_asset_type = ty,
                         ar_size_bytes = us_size us, ar_sha256 = sha256 (us_hashed us), ar_manifest_id = None,
                         ar_status = AssetActive, ar_uploaded_at = now\<rparr>
                   in (Inr a,
                       write_event now ''asset.uploaded'' ''asset'' asset_id ''operator''
                         [(''filename'', JStr filename), (''asset_type'', JStr ty),
                          (''size_bytes'', JInt (int (us_size us)))]
                         (db\<lparr>db_assets := db_assets db @ [a],
                             fs_assets := AList.update asset_id (us_written us) (fs_assets db)\<rparr>))))"

subsection \<open>Reading and archiving\<close>

definition get_asset :: "string \<Rightarrow> dashboard \<Rightarrow> asset_row res" where
  "get_asset aid db =
     (case find (\<lambda>a. ar_asset_id a = aid) (db_assets db) of
        None \<Rightarrow> Inl (HTTPException 404) | Some a \<Rightarrow> Inr a)"

definition archive_asset :: "rat \<Rightarrow> string \<Rightarrow> dashboard \<Rightarrow> asset_row res \<times> dashboard" where
  "archive_asset now aid db =
     (case get_asset aid db of
        Inl e \<Rightarrow> (Inl e, db)
      | Inr a \<Rightarrow>
          if ar_status a = AssetArchived then (Inl (HTTPException 409), db)
          else
            let a' = a\<lparr>ar_status := AssetArchived\<rparr>
            in (Inr a', write_event now ''asset.archived'' ''asset'' aid ''operator''
                  [(''filename'', JStr (ar_filename a))]
                  (db\<lparr>db_assets := map (\<lambda>r. if ar_asset_id r = aid then a' else r) (db_assets db)\<rparr>)))"

subsection \<open>Requests\<close>

datatype asset_request =
    ReqUpload string "nat option" "string option" string
  | ReqArchiveAsset string

fun asset_step :: "(string \<Rightarrow> string) \<Rightarrow> rat \<times> asset_request \<Rightarrow> dashboard \<Rightarrow> dashboard" where
  "asset_step sha256 (now, ReqUpload aid fails_after name bytes) db =
     snd (upload_asset sha256 now aid fails_after name bytes db)"
| "asset_step sha256 (now, ReqArchiveAsset aid) db = snd (archive_asset now aid db)"

interpretation asset_router: audited_router "asset_step sha256" for sha256
proof
  fix db r
  show "log_extended db (asset_step sha256 r db)"
    by (cases r; cases "snd r")
      (auto simp: upload_asset_def archive_asset_def get_asset_def Let_def log_extended_event split: option.split
        sum.split prod.split, simp_all add: log_extended_def same_records_def)
qed

lemma asset_step_frame:
  "db_manifests (asset_step sha256 r db) = db_manifests db"
  "fs_manifests (asset_step sha256 r db) = fs_manifests db"
  "fs_rules (asset_step sha256 r db) = fs_rules db"
  "db_safe_mode (asset_step sha256 r db) = db_safe_mode db"
  "db_links (asset_step sha256 r db) = db_links db"
  by (cases r; cases "snd r";
      simp add: upload_asset_def archive_asset_def Let_def write_event_def
        split: option.split sum.split prod.split)+

lemma asset_step_events:
  "\<exists>es. db_audit (asset_step sha256 r db) = db_audit db @ es \<and> list_all (\<lambda>e. ae_entity_type e = ''asset'') es"
  by (cases r; cases "snd r")
    (auto simp: upload_asset_def archive_asset_def Let_def write_event_def split: option.split sum.split prod.split)

subsection \<open>Integrity of an upload\<close>

lemma concat_read_chunks: "0 < n \<Longrightarrow> concat (read_chunks n bytes) = bytes"
  by (induction n bytes rule: read_chunks.induct) (subst read_chunks.simps, simp)

lemma read_chunks_sizes: "chunk \<in> set (read_chunks n bytes) \<Longrightarrow> 0 < length chunk \<and> length chunk \<le> n"
proof (induction n bytes rule: read_chunks.induct)
  case (1 n bytes)
  then show ?case by (subst (asm) (2) read_chunks.simps) (auto split: if_splits)
qed

lemma stream_upload_done:
  "stream_upload f chunks us = (Inr (), us') \<Longrightarrow>
   us' = \<lparr>us_written = us_written us @ concat chunks, us_hashed = us_hashed us @ concat chunks,
     us_size = us_size us + length (concat chunks)\<rparr>"
  by (induction f chunks us rule: stream_upload.induct) (auto split: if_splits)

lemma stream_upload_fails:
  "stream_upload f chunks us = (Inl e, us') \<longleftrightarrow>
   e = OSError \<and> (\<exists>k. f = Some k \<and> k < length chunks \<and>
     us' = \<lparr>us_written = us_written us @ concat (take k chunks),
       us_hashed = us_hashed us @ concat (take k chunks),
       us_size = us_size us + length (concat (take k chunks))\<rparr>)"
proof (induction f chunks us rule: stream_upload.induct)
  case (2 f chunk chunks us)
  show ?case
  proof (cases f)
    case (Some k)
    then show ?thesis using 2 by (cases k) auto
  qed (use 2 in auto)
qed simp

lemma upload_intact:
  assumes "upload_asset sha256 now aid f name bytes db = (Inr a, db')"
  shows "a \<in> set (db_assets db') \<and> ar_asset_id a = aid \<and> map_of (fs_assets db') aid = Some bytes \<and>
    ar_size_bytes a = length bytes \<and> ar_sha256 a = sha256 bytes"
  using assms concat_read_chunks [of 65536 bytes]
  by (auto simp: upload_asset_def Let_def write_event_def dict_simps dest!: stream_upload_done
      split: if_splits sum.splits prod.splits)

lemma upload_fails_midway:
  assumes "detect_asset_type n \<noteq> ''unknown''" "k < length (read_chunks 65536 bytes)" "n \<noteq> []"
  shows "upload_asset sha256 now aid (Some k) (Some n) bytes db =
    (Inl (HTTPException 500),
     db\<lparr>fs_assets := AList.update aid (concat (take k (read_chunks 65536 bytes))) (fs_assets db)\<rparr>)"
proof -
  have "stream_upload (Some k) (read_chunks 65536 bytes) \<lparr>us_written = [], us_hashed = [], us_size = 0\<rparr> =
    (Inl OSError, \<lparr>us_written = concat (take k (read_chunks 65536 bytes)),
       us_hashed = concat (take k (read_chunks 65536 bytes)),
       us_size = length (concat (take k (read_chunks 65536 bytes)))\<rparr>)"
    using assms(2) by (simp add: stream_upload_fails)
  with assms(1,3) show ?thesis by (simp add: upload_asset_def)
qed

end
