(* ===== verification/FallbackApi.thy ===== *)
theory FallbackApi
  imports Fallback
begin

section \<open>Fallback assets (services/dashboard-api/dashboard_api/routers/fallback.py)\<close>

text \<open>
  The routes that list the shared fallback library and pin one of its files by writing the
  marker the player reads. The library is the directory model of theory Fallback;
  \<open>is_file\<close> tells files from subdirectories, \<open>disk_ok\<close> is the outcome of a write.
\<close>

definition fallback_extensions :: "string list" where
  "fallback_extensions = [''.png'', ''.jpg'', ''.jpeg'', ''.gif'', ''.bmp'', ''.webp'', ''.mp4'', ''.webm'']"

definition fallback_allowed :: "string \<Rightarrow> bool" where
  "fallback_allowed name \<longleftrightarrow> ascii_lower (path_suffix name) \<in> set fallback_extensions"

definition fallback_reserved :: "string list" where
  "fallback_reserved = [selected_marker, ''.gitkeep'']"

definition fallback_asset_type :: "string \<Rightarrow> string" where
  "fallback_asset_type name =
     (if ascii_lower (path_suffix name) \<in> {''.mp4'', ''.webm''} then ''video'' else ''image'')"

definition current_selection :: "fb_dir \<Rightarrow> string option res" where
  "current_selection lib =
     (case map_of lib selected_marker of
        None \<Rightarrow> Inr None
      | Some None \<Rightarrow> Inl OSError
      | Some (Some text) \<Rightarrow> Inr (if py_strip text = [] then None else Some (py_strip text)))"

record fallback_entry =
  fa_name :: string
  fa_asset_type :: string
  fa_is_active :: bool

definition dotted :: "string \<Rightarrow> bool" where
  "dotted name \<longleftrightarrow> (case name of [] \<Rightarrow> False | c # _ \<Rightarrow> c = CHR ''.'')"

definition list_fallback_assets :: "fb_dir \<Rightarrow> (fallback_entry list \<times> string option) res" where
  "list_fallback_assets lib =
     (case current_selection lib of
        Inl e \<Rightarrow> Inl e
      | Inr selected \<Rightarrow>
          Inr (map (\<lambda>n. \<lparr>fa_name = n, fa_asset_type = fallback_asset_type n, fa_is_active = (Some n = selected)\<rparr>)
                 (filter (\<lambda>n. n \<notin> set fallback_reserved \<and> \<not> dotted n \<and> fallback_allowed n) (fb_names lib)),
               selected))"

definition activate_fallback_asset :: "(string \<Rightarrow> bool) \<Rightarrow> bool \<Rightarrow> string \<Rightarrow> fb_dir \<Rightarrow> string res \<times> fb_dir" where
  "activate_fallback_asset is_file disk_ok name lib =
     (if name = [] \<or> CHR ''/'' \<in> set name \<or> CHR 0x5C \<in> set name \<or> dotted name
      then (Inl (HTTPException 400), lib)
      else if \<not> fallback_allowed name then (Inl (HTTPException 400), lib)
      else if \<not> fb_has lib name \<or> \<not> is_file name then (Inl (HTTPException 404), lib)
      else if \<not> disk_ok then (Inl OSError, lib)
      else (Inr name, AList.update selected_marker (Some name) lib))"

definition clear_fallback_selection :: "bool \<Rightarrow> fb_dir \<Rightarrow> unit res \<times> fb_dir" where
  "clear_fallback_selection disk_ok lib =
     (if \<not> fb_has lib selected_marker then (Inr (), lib)
      else if \<not> disk_ok then (Inl OSError, lib)
      else (Inr (), AList.delete selected_marker lib))"

subsection \<open>What the player makes of it\<close>

lemma fb_has_dom: "fb_has d n \<longleftrightarrow> map_of d n \<noteq> None"
  by (simp add: fb_has_def map_of_eq_None_iff)

lemma activated_library:
  assumes "activate_fallback_asset is_file disk_ok name lib = (Inr sel, lib')"
  shows "sel = name" "name \<noteq> []" "CHR ''/'' \<notin> set name" "CHR 0x5C \<notin> set name" "fb_has lib' name"
    "map_of lib' selected_marker = Some (Some name)"
  using assms
  by (auto simp: activate_fallback_asset_def fb_has_dom dict_simps split: if_splits)

lemma activated_selection: "activate_fallback_asset is_file disk_ok name lib = (Inr sel, lib') \<Longrightarrow>
  current_selection lib' = Inr (if py_strip name = [] then None else Some (py_strip name))"
  by (simp add: current_selection_def activated_library)

lemma marker_hit:
  assumes "map_of lib selected_marker = Some (Some name)" "fb_has lib name" "supported name" "py_strip name = name"
    and "name \<noteq> []" "CHR ''/'' \<notin> set name" "CHR 0x5C \<notin> set name"
  shows "try_selected_marker (path, Some lib) other source fb = (Inr True, fb_set path name source fb)"
  using assms by (simp add: try_selected_marker_def fb_search_dirs_def)

lemma marker_miss:
  assumes "map_of lib selected_marker = Some (Some name)" "\<not> supported (py_strip name)"
  shows "try_selected_marker (path, Some lib) other source fb = (Inr False, fb)"
  using assms by (auto simp: try_selected_marker_def fb_search_dirs_def Let_def split: option.split)

text \<open>
  The operator's choice reaches the player: after a successful activation the player's
  next resolution selects that file of the library, whatever the bundle and the rest of the
  library hold, provided no asset is configured explicitly and the player supports the
  file's type (the dashboard also accepts .gif and .bmp, which the player does not).
\<close>

theorem activated_fallback_selected:
  assumes "activate_fallback_asset is_file disk_ok name lib = (Inr sel, lib')"
    and "supported name" "py_strip name = name"
    and "fe_asset_name env = []" "fe_library_path env \<noteq> []" "fe_library env = Some lib'"
  shows "fb_resolve env fb = (Inr (), fb_set (fe_library_path env) name ''selected-library'' fb)"
  using assms(2-) activated_library [OF assms(1)]
  by (simp add: fb_resolve_def fb_library_dir_def marker_hit)

definition demo_library :: fb_dir where
  "demo_library = [(''b.png'', None), (''a.png'', None), (''c.gif'', None)]"

definition demo_env :: "fb_dir \<Rightarrow> fb_env" where
  "demo_env lib = \<lparr>fe_bundle_path = ''/bundle'', fe_bundle = Some [(''fallback-builtin.png'', None)],
     fe_library_path = ''/lib'', fe_library = Some lib, fe_asset_name = []\<rparr>"

theorem activated_fallback_selected_witness:
  "fb_asset_path (snd (fb_resolve (demo_env (snd (activate_fallback_asset (\<lambda>_. True) True ''b.png'' demo_library))) init_fb))
     = Some ''/lib/b.png''"
proof -
  obtain r lib' where act: "activate_fallback_asset (\<lambda>_. True) True ''b.png'' demo_library = (r, lib')"
    by (rule prod.exhaust)
  have "fst (activate_fallback_asset (\<lambda>_. True) True ''b.png'' demo_library) = Inr ''b.png''" by code_simp
  with act have a: "activate_fallback_asset (\<lambda>_. True) True ''b.png'' demo_library = (Inr ''b.png'', lib')" by simp
  have s: "supported ''b.png'' \<and> py_strip ''b.png'' = ''b.png''" by code_simp
  from activated_fallback_selected [OF a, of "demo_env lib'" init_fb] s show ?thesis
    by (simp add: act demo_env_def fb_set_def path_join_def)
qed

text \<open>A pinned .gif is accepted by the dashboard and ignored by the player.\<close>

lemma gif_ignored:
  assumes "activate_fallback_asset is_file disk_ok ''c.gif'' lib = (Inr sel, lib')"
  shows "try_selected_marker (path, Some lib') other source fb = (Inr False, fb)"
proof (rule marker_miss)
  show "map_of lib' selected_marker = Some (Some ''c.gif'')" by (rule activated_library [OF assms])
  show "\<not> supported (py_strip ''c.gif'')" by code_simp
qed

end
