(* ===== verification/ManifestRegistry.thy ===== *)
theory ManifestRegistry
  imports Prelude
begin

section \<open>The manifest registry interface\<close>

text \<open>
  The player (services/player/player/manifest_store.py) and the creative service
  (services/creative/creative/manifest_store.py) each keep a registry of ICD-5 manifests
  that is filled from a directory of JSON files. This theory states what both promise: an
  accepted manifest is stored under its \<open>manifest_id\<close> and replaces an earlier one, a
  refused one changes nothing. Both component theories interpret the locale.
\<close>

subsection \<open>Manifest fields\<close>

text \<open>The identifier a schema-valid manifest carries.\<close>

definition manifest_id_of :: "json \<Rightarrow> string option" where
  "manifest_id_of m = jstr_opt (jget m ''manifest_id'')"

text \<open>
  The fields the ICD-5 contract (contracts/creative/creative-manifest.schema.json) requires,
  as far as the Python code reads them: the shape a validated manifest has.
\<close>

definition item_shape :: "json \<Rightarrow> bool" where
  "item_shape it \<longleftrightarrow>
     jstr_opt (jget it ''asset_id'') \<noteq> None \<and>
     jstr_opt (jget it ''asset_type'') \<noteq> None \<and>
     (case jget it ''duration_ms'' of Some v \<Rightarrow> jint v \<noteq> None | None \<Rightarrow> False)"

definition manifest_shape :: "json \<Rightarrow> bool" where
  "manifest_shape m \<longleftrightarrow>
     is_obj m \<and> manifest_id_of m \<noteq> None \<and> manifest_id_of m \<noteq> Some [] \<and>
     jstr_opt (jget m ''approved_at'') \<noteq> None \<and>
     jstr_opt (jget m ''approved_by'') \<noteq> None \<and>
     (case jget m ''expires_at'' of None \<Rightarrow> True | Some v \<Rightarrow> jstr_opt (Some v) \<noteq> None) \<and>
     (case jget m ''items'' of Some (JArr its) \<Rightarrow> its \<noteq> [] \<and> list_all item_shape its | _ \<Rightarrow> False)"

lemma manifest_shape_id: "manifest_shape m \<Longrightarrow> \<exists>i. jindex m ''manifest_id'' = Inr (JStr i) \<and> manifest_id_of m = Some i"
  by (cases m)
    (auto simp: manifest_shape_def manifest_id_of_def split: option.splits elim!: jstr_opt.elims)

subsection \<open>Directories\<close>

text \<open>
  A manifest directory: file names with what \<open>json.load\<close> makes of the file (\<open>None\<close> when
  reading or decoding raises). \<open>sorted(path.glob('*.json'))\<close> is the list of its JSON
  files in name order.
\<close>

type_synonym manifest_dir = "(string \<times> json option) list"

definition ends_with :: "string \<Rightarrow> string \<Rightarrow> bool" where
  "ends_with suf s \<longleftrightarrow> length suf \<le> length s \<and> drop (length s - length suf) s = suf"

definition json_files :: "manifest_dir \<Rightarrow> (string \<times> json option) list" where
  "json_files d = sort_key fst (filter (\<lambda>(n, _). ends_with ''.json'' n) d)"

lemma set_json_files: "set (json_files d) = {(n, c) \<in> set d. ends_with ''.json'' n}"
  by (auto simp: json_files_def)

lemma find_filter_hd:
  "find P xs = (case filter P xs of [] \<Rightarrow> None | x # _ \<Rightarrow> Some x)"
  by (induction xs) auto

subsection \<open>The interface\<close>

locale manifest_registry =
  fixes ingest :: "json \<Rightarrow> 's \<Rightarrow> 's"
    and accepts :: "json \<Rightarrow> bool"
    and find_manifest :: "'s \<Rightarrow> string \<Rightarrow> json option"
  assumes ingest_accepted: "accepts m \<Longrightarrow> manifest_id_of m = Some i \<Longrightarrow>
      find_manifest (ingest m s) = (find_manifest s)(i \<mapsto> m)"
    and ingest_refused: "\<not> accepts m \<Longrightarrow> find_manifest (ingest m s) = find_manifest s"
    and accepts_id: "accepts m \<Longrightarrow> manifest_id_of m \<noteq> None"
begin

definition ingest_all :: "json list \<Rightarrow> 's \<Rightarrow> 's" where
  "ingest_all ms s = fold ingest ms s"

lemma ingest_all_simps [simp]:
  "ingest_all [] s = s"
  "ingest_all (m # ms) s = ingest_all ms (ingest m s)"
  by (simp_all add: ingest_all_def)

lemma ingest_all_append: "ingest_all (ms @ ms') s = ingest_all ms' (ingest_all ms s)"
  by (simp add: ingest_all_def)

text \<open>What a registry serves after a batch: the last accepted manifest of that identifier.\<close>

definition last_accepted :: "string \<Rightarrow> json list \<Rightarrow> json option" where
  "last_accepted i ms =
     (case filter (\<lambda>m. accepts m \<and> manifest_id_of m = Some i) (rev ms) of
        [] \<Rightarrow> None | m # _ \<Rightarrow> Some m)"

lemma find_after_ingest_all:
  "find_manifest (ingest_all ms s) i =
     (case last_accepted i ms of Some m \<Rightarrow> Some m | None \<Rightarrow> find_manifest s i)"
proof (induction ms rule: rev_induct)
  case Nil
  then show ?case by (simp add: last_accepted_def)
next
  case (snoc m ms)
  show ?case
  proof (cases "accepts m")
    case True
    then obtain j where "manifest_id_of m = Some j" using accepts_id by blast
    with True snoc show ?thesis
      by (simp add: ingest_all_append ingest_accepted last_accepted_def)
  next
    case False
    with snoc show ?thesis by (simp add: ingest_all_append ingest_refused last_accepted_def)
  qed
qed

lemma last_accepted_Some:
  assumes "last_accepted i ms = Some m"
  shows "m \<in> set ms \<and> accepts m \<and> manifest_id_of m = Some i"
proof -
  from assms have "m \<in> set (filter (\<lambda>m. accepts m \<and> manifest_id_of m = Some i) (rev ms))"
    by (cases "filter (\<lambda>m. accepts m \<and> manifest_id_of m = Some i) (rev ms)")
      (simp_all add: last_accepted_def del: set_filter)
  then show ?thesis by simp
qed

lemma last_accepted_find:
  "last_accepted i ms = find (\<lambda>m. accepts m \<and> manifest_id_of m = Some i) (rev ms)"
  by (simp add: last_accepted_def find_filter_hd)

lemma last_accepted_None:
  "last_accepted i ms = None \<longleftrightarrow> (\<forall>m \<in> set ms. \<not> (accepts m \<and> manifest_id_of m = Some i))"
proof -
  have "last_accepted i ms = None \<longleftrightarrow> filter (\<lambda>m. accepts m \<and> manifest_id_of m = Some i) (rev ms) = []"
    by (auto simp: last_accepted_def split: list.splits)
  then show ?thesis by (simp add: filter_empty_conv)
qed

lemma served_from_batch:
  "find_manifest s i = None \<Longrightarrow> find_manifest (ingest_all ms s) i = Some m \<Longrightarrow>
   m \<in> set ms \<and> accepts m \<and> manifest_id_of m = Some i"
  by (auto simp: find_after_ingest_all split: option.splits dest: last_accepted_Some)

end

end
