(* ===== verification/PlayerStore.thy ===== *)
theory PlayerStore
  imports ManifestRegistry
begin

section \<open>Player manifest store (services/player/player/manifest_store.py)\<close>

text \<open>
  The in-memory registry of approved manifests: \<open>put\<close>, \<open>load_from_disk\<close>, \<open>reload\<close>,
  \<open>get\<close> and \<open>check_manifest\<close>. The schema validator and the timestamp parser are the
  parameters \<open>errs\<close> and \<open>fromiso\<close>; the file system is a directory argument.
\<close>

type_synonym player_store = "(string \<times> json) list"

subsection \<open>Ingestion\<close>

text \<open>
  Validate, then store under \<open>manifest["manifest_id"]\<close>. The contract makes that
  identifier a string; any other value is a \<open>TypeError\<close> here.
\<close>

definition ps_store_valid :: "json \<Rightarrow> player_store \<Rightarrow> unit res \<times> player_store" where
  "ps_store_valid m st =
     (case jindex m ''manifest_id'' of
        Inl e \<Rightarrow> (Inl e, st)
      | Inr v \<Rightarrow> (case jstr_opt (Some v) of
            Some i \<Rightarrow> (Inr (), AList.update i m st)
          | None \<Rightarrow> (Inl TypeError, st)))"

definition ps_put :: "(json \<Rightarrow> string list) \<Rightarrow> json \<Rightarrow> player_store \<Rightarrow> string option res \<times> player_store" where
  "ps_put errs m st =
     (if schema_ok errs m
      then (case ps_store_valid m st of
              (Inl e, st') \<Rightarrow> (Inl e, st')
            | (Inr _, st') \<Rightarrow> (Inr None, st'))
      else (Inr (map_option (\<lambda>e. ''schema:'' @ e) (validation_error errs m)), st))"

text \<open>
  The loop of \<open>load_from_disk\<close>: unreadable and schema-invalid files are skipped, the
  count is of the manifests stored.
\<close>

fun ps_load_files :: "(json \<Rightarrow> string list) \<Rightarrow> (string \<times> json option) list \<Rightarrow> nat \<Rightarrow> player_store
    \<Rightarrow> nat res \<times> player_store" where
  "ps_load_files errs [] n st = (Inr n, st)"
| "ps_load_files errs ((name, None) # fs) n st = ps_load_files errs fs n st"
| "ps_load_files errs ((name, Some m) # fs) n st =
     (if \<not> schema_ok errs m then ps_load_files errs fs n st
      else (case ps_store_valid m st of
              (Inl e, st') \<Rightarrow> (Inl e, st')
            | (Inr _, st') \<Rightarrow> ps_load_files errs fs (Suc n) st'))"

definition ps_load_from_disk :: "(json \<Rightarrow> string list) \<Rightarrow> manifest_dir option \<Rightarrow> player_store
    \<Rightarrow> nat res \<times> player_store" where
  "ps_load_from_disk errs dir st =
     (case dir of
        None \<Rightarrow> (Inr 0, st)
      | Some d \<Rightarrow> ps_load_files errs (json_files d) 0 st)"

definition ps_reload :: "(json \<Rightarrow> string list) \<Rightarrow> manifest_dir option \<Rightarrow> player_store
    \<Rightarrow> nat res \<times> player_store" where
  "ps_reload errs dir st = ps_load_from_disk errs dir []"

subsection \<open>Lookup and enforcement\<close>

definition ps_get :: "player_store \<Rightarrow> string \<Rightarrow> json option" where
  "ps_get st i = map_of st i"

definition ps_manifest_ids :: "player_store \<Rightarrow> string list" where
  "ps_manifest_ids st = dict_keys st"

definition field_set :: "json \<Rightarrow> string \<Rightarrow> bool" where
  "field_set m k = (case jget m k of Some v \<Rightarrow> truthy v | None \<Rightarrow> False)"

definition ps_check_manifest :: "iso_parser \<Rightarrow> rat \<Rightarrow> json \<Rightarrow> string option res" where
  "ps_check_manifest fromiso now m =
     (if \<not> is_obj m then Inl AttributeError
      else if \<not> field_set m ''approved_at'' \<or> \<not> field_set m ''approved_by''
      then Inr (Some ''missing_approval_fields'')
      else if \<not> field_set m ''expires_at'' then Inr None
      else (case jstr_opt (jget m ''expires_at'') of
              None \<Rightarrow> Inl AttributeError
            | Some expires_at \<Rightarrow>
                (case fromiso (replace_z expires_at) of
                   Inl msg \<Rightarrow> Inr (Some (''invalid_expires_at:'' @ msg))
                 | Inr dt \<Rightarrow>
                     (case utc_instant dt of
                        Inl e \<Rightarrow> Inl e
                      | Inr expiry \<Rightarrow>
                          if expiry < now then Inr (Some (''expired_at:'' @ expires_at))
                          else Inr None))))"

text \<open>When a manifest may be rendered at \<open>now\<close>.\<close>

definition renderable :: "iso_parser \<Rightarrow> rat \<Rightarrow> json \<Rightarrow> bool" where
  "renderable fromiso now m \<longleftrightarrow>
     field_set m ''approved_at'' \<and> field_set m ''approved_by'' \<and>
     (field_set m ''expires_at'' \<longrightarrow>
       (\<exists>s t. jget m ''expires_at'' = Some (JStr s) \<and> fromiso (replace_z s) = Inr (Aware t) \<and> now \<le> t))"

lemma ps_check_ok: "ps_check_manifest fromiso now m = Inr None \<longleftrightarrow> renderable fromiso now m"
  by (cases m)
    (auto simp: ps_check_manifest_def renderable_def field_set_def jstr_opt_Some_iff
      split: option.splits sum.splits elim!: utc_instant.elims)

text \<open>
  \<open>check_manifest\<close> answers "no objection" for exactly the manifests that are
  approved and not past their expiry; an expiry without a timezone raises.
\<close>

theorem check_manifest_ok_iff:
  "ps_check_manifest fromiso now m = Inr None \<longleftrightarrow> renderable fromiso now m"
  by (rule ps_check_ok)

lemma naive_expiry_raises:
  "field_set (JObj d) ''approved_at'' \<Longrightarrow> field_set (JObj d) ''approved_by'' \<Longrightarrow>
   map_of d ''expires_at'' = Some (JStr s) \<Longrightarrow> s \<noteq> [] \<Longrightarrow> fromiso (replace_z s) = Inr (Naive t) \<Longrightarrow>
   ps_check_manifest fromiso now (JObj d) = Inl TypeError"
  by (simp add: ps_check_manifest_def field_set_def)

subsection \<open>The store is a manifest registry\<close>

definition ps_ingest :: "(json \<Rightarrow> string list) \<Rightarrow> json \<Rightarrow> player_store \<Rightarrow> player_store" where
  "ps_ingest errs m st = snd (ps_put errs m st)"

definition ps_accepts :: "(json \<Rightarrow> string list) \<Rightarrow> json \<Rightarrow> bool" where
  "ps_accepts errs m \<longleftrightarrow> schema_ok errs m \<and> manifest_id_of m \<noteq> None"

lemma ps_store_valid_id:
  "manifest_id_of m = Some i \<Longrightarrow> ps_store_valid m st = (Inr (), AList.update i m st)"
  by (simp add: ps_store_valid_def manifest_id_of_def jstr_opt_Some_iff jindex_jget)

lemma ps_store_valid_no_id:
  "manifest_id_of m = None \<Longrightarrow> snd (ps_store_valid m st) = st"
  by (auto simp: ps_store_valid_def manifest_id_of_def jindex_Inr split: sum.splits option.splits)

lemma ps_put_id:
  "schema_ok errs m \<Longrightarrow> manifest_id_of m = Some i \<Longrightarrow> ps_put errs m st = (Inr None, AList.update i m st)"
  by (simp add: ps_put_def ps_store_valid_id)

lemma ps_ingest_id:
  "schema_ok errs m \<Longrightarrow> manifest_id_of m = Some i \<Longrightarrow> ps_ingest errs m st = AList.update i m st"
  by (simp add: ps_ingest_def ps_put_id)

lemma ps_ingest_refused: "\<not> schema_ok errs m \<Longrightarrow> ps_ingest errs m st = st"
  by (simp add: ps_ingest_def ps_put_def)

lemma ps_put_no_id:
  assumes "manifest_id_of m = None"
  shows "snd (ps_put errs m st) = st"
  using ps_store_valid_no_id [OF assms, of st]
  by (cases "ps_store_valid m st"; cases "fst (ps_store_valid m st)") (auto simp: ps_put_def)

interpretation preg: manifest_registry "ps_ingest errs" "ps_accepts errs" ps_get for errs
proof (unfold_locales, goal_cases)
  case (1 m i s)
  then show ?case
    by (simp add: ps_ingest_def ps_accepts_def ps_put_id ps_get_def dict_simps fun_eq_iff)
next
  case (2 m s)
  then have "snd (ps_put errs m s) = s"
    using ps_put_no_id [of m errs s] by (auto simp: ps_accepts_def ps_put_def)
  then show ?case by (simp add: ps_ingest_def)
next
  case (3 m)
  then show ?case by (simp add: ps_accepts_def)
qed

text \<open>
  Loading a directory is ingesting its readable JSON files in name order, when the schema
  demands the manifest shape.
\<close>

definition readable :: "(string \<times> json option) list \<Rightarrow> json list" where
  "readable fs = List.map_filter snd fs"

lemma readable_simps [simp]:
  "readable [] = []"
  "readable ((n, None) # fs) = readable fs"
  "readable ((n, Some m) # fs) = m # readable fs"
  by (simp_all add: readable_def List.map_filter_simps)

lemma set_readable: "m \<in> set (readable fs) \<longleftrightarrow> (\<exists>n. (n, Some m) \<in> set fs)"
  by (induction fs) (auto split: option.splits simp: readable_def List.map_filter_simps)

lemma ps_load_files_ingest:
  assumes "\<And>m. schema_ok errs m \<Longrightarrow> manifest_shape m"
  shows "ps_load_files errs fs n st =
    (Inr (n + length (filter (schema_ok errs) (readable fs))), preg.ingest_all errs (readable fs) st)"
proof (induction fs arbitrary: n st)
  case Nil
  then show ?case by simp
next
  case (Cons f fs)
  obtain name c where f: "f = (name, c)" by (cases f)
  show ?case
  proof (cases c)
    case None
    with Cons f show ?thesis by simp
  next
    case (Some m)
    show ?thesis
    proof (cases "schema_ok errs m")
      case True
      then obtain i where "manifest_id_of m = Some i"
        using assms manifest_shape_def by auto
      with True show ?thesis
        by (simp add: f Some Cons.IH ps_ingest_id ps_store_valid_id)
    next
      case False
      then show ?thesis by (simp add: f Some Cons.IH ps_ingest_refused)
    qed
  qed
qed

lemma ps_accepts_shape:
  assumes "\<And>m. schema_ok errs m \<Longrightarrow> manifest_shape m"
  shows "ps_accepts errs m = schema_ok errs m"
  using assms by (auto simp: ps_accepts_def manifest_shape_def)

lemma ps_reload_batch:
  assumes "\<And>m. schema_ok errs m \<Longrightarrow> manifest_shape m"
  shows "ps_reload errs (Some d) st =
    (Inr (length (filter (schema_ok errs) (readable (json_files d)))),
     preg.ingest_all errs (readable (json_files d)) [])"
  using ps_load_files_ingest [OF assms, of errs "json_files d" 0 "[]"]
  by (simp add: ps_reload_def ps_load_from_disk_def)

lemma ps_get_reloaded:
  assumes "\<And>m. schema_ok errs m \<Longrightarrow> manifest_shape m"
  shows "ps_get (snd (ps_reload errs (Some d) st)) i =
    find (\<lambda>m. schema_ok errs m \<and> manifest_id_of m = Some i) (rev (readable (json_files d)))"
proof -
  have "ps_get [] i = None" by (simp add: ps_get_def)
  then show ?thesis
    by (simp add: ps_reload_batch [OF assms] preg.find_after_ingest_all preg.last_accepted_find
        ps_accepts_shape [OF assms] split: option.splits)
qed

text \<open>
  \<open>reload\<close> is a full replacement: whatever was cached before, afterwards \<open>get\<close>
  serves exactly the schema-valid readable JSON files of the directory (the last one in
  name order for a repeated identifier), and the count is the number of those files.
\<close>

theorem reload_serves_disk:
  assumes "\<And>m. schema_ok errs m \<Longrightarrow> manifest_shape m"
  shows "fst (ps_reload errs (Some d) st) = Inr (length (filter (schema_ok errs) (readable (json_files d)))) \<and>
    (\<forall>i. ps_get (snd (ps_reload errs (Some d) st)) i =
      find (\<lambda>m. schema_ok errs m \<and> manifest_id_of m = Some i) (rev (readable (json_files d))))"
  using ps_reload_batch [OF assms] ps_get_reloaded [OF assms] by simp

definition demo_manifest :: "string \<Rightarrow> json" where
  "demo_manifest i = JObj
     [(''manifest_id'', JStr i), (''approved_at'', JStr ''2026-01-01T00:00:00Z''),
      (''approved_by'', JStr ''ops''),
      (''items'', JArr [JObj [(''asset_id'', JStr ''a1''), (''asset_type'', JStr ''image''),
         (''duration_ms'', JInt 5000)]])]"

lemma demo_manifest_shape [simp]:
  "manifest_shape (demo_manifest i) \<longleftrightarrow> i \<noteq> []" "manifest_id_of (demo_manifest i) = Some i"
  by (simp_all add: demo_manifest_def manifest_shape_def manifest_id_of_def item_shape_def)

theorem reload_serves_disk_witness:
  "ps_get (snd (ps_reload (errs_of manifest_shape)
     (Some [(''b.json'', Some (demo_manifest ''m2'')), (''a.json'', None), (''c.txt'', Some JNull)])
     [(''m1'', demo_manifest ''m1'')])) ''m1'' = None"
proof -
  have "readable (json_files [(''b.json'', Some (demo_manifest ''m2'')), (''a.json'', None), (''c.txt'', Some JNull)])
      = [demo_manifest ''m2'']"
    by (simp add: json_files_def ends_with_def readable_def List.map_filter_simps)
  then show ?thesis
    using reload_serves_disk [of "errs_of manifest_shape"] by simp
qed

end
