(* ===== verification/Creative.thy ===== *)
theory Creative
  imports PlayerStore
begin

section \<open>Creative service (services/creative/creative)\<close>

text \<open>
  The approved-manifest authority: \<open>manifest_store.py\<close> (ingestion, the approval and expiry
  checks, the summary list, \<open>status\<close>), the routes of \<open>api.py\<close> and the start-up of
  \<open>main.py\<close>. The schema validator, the timestamp parser and the clock are the parameters
  \<open>errs\<close>, \<open>fromiso\<close> and \<open>now\<close>; the directory is an argument.
\<close>

record creative_store =
  cs_manifests :: "(string \<times> json) list"
  cs_load_errors :: nat

definition init_cs :: creative_store where
  "init_cs = \<lparr>cs_manifests = [], cs_load_errors = 0\<rparr>"

definition cs_count_error :: "creative_store \<Rightarrow> creative_store" where
  "cs_count_error st = st\<lparr>cs_load_errors := Suc (cs_load_errors st)\<rparr>"

subsection \<open>Approval and expiry\<close>

definition cs_is_approved :: "json \<Rightarrow> bool res" where
  "cs_is_approved m =
     (if is_obj m then Inr (field_set m ''approved_at'' \<and> field_set m ''approved_by'')
      else Inl AttributeError)"

definition cs_is_expired :: "iso_parser \<Rightarrow> rat \<Rightarrow> json \<Rightarrow> bool res" where
  "cs_is_expired fromiso now m =
     (if \<not> is_obj m then Inl AttributeError
      else if \<not> field_set m ''expires_at'' then Inr False
      else (case jstr_opt (jget m ''expires_at'') of
              None \<Rightarrow> Inl AttributeError
            | Some expires_at \<Rightarrow>
                (case fromiso (replace_z expires_at) of
                   Inl _ \<Rightarrow> Inr True
                 | Inr dt \<Rightarrow>
                     (case utc_instant dt of
                        Inl e \<Rightarrow> Inl e
                      | Inr expiry \<Rightarrow> Inr (expiry \<le> now)))))"

subsection \<open>Loading\<close>

text \<open>\<open>len(data.get("items", []))\<close>, which the log line and the summary compute.\<close>

definition item_count :: "json \<Rightarrow> nat res" where
  "item_count m =
     (case jget m ''items'' of
        None \<Rightarrow> Inr 0
      | Some (JArr xs) \<Rightarrow> Inr (length xs)
      | Some (JObj d) \<Rightarrow> Inr (length d)
      | Some (JStr s) \<Rightarrow> Inr (length s)
      | Some _ \<Rightarrow> Inl TypeError)"

definition cs_store :: "(json \<Rightarrow> string list) \<Rightarrow> json \<Rightarrow> creative_store \<Rightarrow> unit res \<times> creative_store" where
  "cs_store errs m st =
     (if errs m \<noteq> [] then (Inl ValueError, cs_count_error st)
      else (case cs_is_approved m of
              Inl e \<Rightarrow> (Inl e, st)
            | Inr False \<Rightarrow> (Inl ValueError, cs_count_error st)
            | Inr True \<Rightarrow>
                (case jindex m ''manifest_id'' of
                   Inl e \<Rightarrow> (Inl e, st)
                 | Inr v \<Rightarrow>
                     (case jstr_opt (Some v) of
                        None \<Rightarrow> (Inl TypeError, st)
                      | Some i \<Rightarrow>
                          (case item_count m of Inl e \<Rightarrow> Inl e | Inr _ \<Rightarrow> Inr (),
                           st\<lparr>cs_manifests := AList.update i m (cs_manifests st)\<rparr>)))))"

text \<open>The loop of \<open>load_directory\<close>: a \<open>ValueError\<close> skips the file, another exception escapes.\<close>

fun cs_load_files :: "(json \<Rightarrow> string list) \<Rightarrow> (string \<times> json option) list \<Rightarrow> nat \<Rightarrow> creative_store
    \<Rightarrow> nat res \<times> creative_store" where
  "cs_load_files errs [] loaded st = (Inr loaded, st)"
| "cs_load_files errs ((name, None) # fs) loaded st = cs_load_files errs fs loaded (cs_count_error st)"
| "cs_load_files errs ((name, Some m) # fs) loaded st =
     (case cs_store errs m st of
        (Inr _, st') \<Rightarrow> cs_load_files errs fs (Suc loaded) st'
      | (Inl ValueError, st') \<Rightarrow> cs_load_files errs fs loaded st'
      | (Inl e, st') \<Rightarrow> (Inl e, st'))"

definition cs_load_directory :: "(json \<Rightarrow> string list) \<Rightarrow> manifest_dir option \<Rightarrow> creative_store
    \<Rightarrow> nat res \<times> creative_store" where
  "cs_load_directory errs dir st =
     (case dir of None \<Rightarrow> (Inr 0, st) | Some d \<Rightarrow> cs_load_files errs (json_files d) 0 st)"

definition cs_load_manifest :: "(json \<Rightarrow> string list) \<Rightarrow> json \<Rightarrow> creative_store \<Rightarrow> json res \<times> creative_store" where
  "cs_load_manifest errs m st =
     (case cs_store errs m st of
        (Inl e, st') \<Rightarrow> (Inl e, st')
      | (Inr _, st') \<Rightarrow> (jindex m ''manifest_id'', st'))"

subsection \<open>Serving\<close>

datatype lookup = Found json | NOT_FOUND | UNAPPROVED | EXPIRED

definition cs_get :: "iso_parser \<Rightarrow> rat \<Rightarrow> creative_store \<Rightarrow> string \<Rightarrow> lookup res" where
  "cs_get fromiso now st i =
     (case map_of (cs_manifests st) i of
        None \<Rightarrow> Inr NOT_FOUND
      | Some m \<Rightarrow>
          (case cs_is_approved m of
             Inl e \<Rightarrow> Inl e
           | Inr False \<Rightarrow> Inr UNAPPROVED
           | Inr True \<Rightarrow>
               (case cs_is_expired fromiso now m of
                  Inl e \<Rightarrow> Inl e
                | Inr True \<Rightarrow> Inr EXPIRED
                | Inr False \<Rightarrow> Inr (Found m))))"

definition json_or_null :: "json option \<Rightarrow> json" where
  "json_or_null v = (case v of None \<Rightarrow> JNull | Some j \<Rightarrow> j)"

definition manifest_summary :: "iso_parser \<Rightarrow> rat \<Rightarrow> json \<Rightarrow> (string \<times> json) list res" where
  "manifest_summary fromiso now m =
     (case cs_is_approved m of
        Inl e \<Rightarrow> Inl e
      | Inr approved \<Rightarrow>
          (case (if approved then cs_is_expired fromiso now m else Inr False) of
             Inl e \<Rightarrow> Inl e
           | Inr expired \<Rightarrow>
               (case jindex m ''manifest_id'' of
                  Inl e \<Rightarrow> Inl e
                | Inr i \<Rightarrow>
                    (case item_count m of
                       Inl e \<Rightarrow> Inl e
                     | Inr n \<Rightarrow> Inr
                         [(''manifest_id'', i), (''approved'', JBool approved),
                          (''expired'', JBool expired), (''item_count'', JInt (int n)),
                          (''approved_at'', json_or_null (jget m ''approved_at'')),
                          (''expires_at'', json_or_null (jget m ''expires_at''))]))))"

text \<open>Mapping a function that may raise over a list: the first exception ends the loop.\<close>

fun map_res :: "('a \<Rightarrow> 'b res) \<Rightarrow> 'a list \<Rightarrow> 'b list res" where
  "map_res f [] = Inr []"
| "map_res f (x # xs) =
     (case f x of
        Inl e \<Rightarrow> Inl e
      | Inr y \<Rightarrow> (case map_res f xs of Inl e \<Rightarrow> Inl e | Inr ys \<Rightarrow> Inr (y # ys)))"

definition cs_list_manifests :: "iso_parser \<Rightarrow> rat \<Rightarrow> creative_store \<Rightarrow> (string \<times> json) list list res" where
  "cs_list_manifests fromiso now st =
     (case map_res (manifest_summary fromiso now) (map snd (cs_manifests st)) of
        Inl e \<Rightarrow> Inl e
      | Inr rows \<Rightarrow> Inr (sort_key (\<lambda>r. case_option [] id (jstr_opt (map_of r ''manifest_id''))) rows))"

record creative_status =
  total_stored :: nat
  approved_active :: nat
  load_errors :: nat

definition active_manifest :: "iso_parser \<Rightarrow> rat \<Rightarrow> json \<Rightarrow> bool res" where
  "active_manifest fromiso now m =
     (case cs_is_approved m of
        Inl e \<Rightarrow> Inl e
      | Inr False \<Rightarrow> Inr False
      | Inr True \<Rightarrow> map_sum id Not (cs_is_expired fromiso now m))"

definition cs_status :: "iso_parser \<Rightarrow> rat \<Rightarrow> creative_store \<Rightarrow> creative_status res" where
  "cs_status fromiso now st =
     (case map_res (active_manifest fromiso now) (map snd (cs_manifests st)) of
        Inl e \<Rightarrow> Inl e
      | Inr bs \<Rightarrow> Inr \<lparr>total_stored = length (cs_manifests st),
                       approved_active = length (filter id bs),
                       load_errors = cs_load_errors st\<rparr>)"

subsection \<open>Routes and start-up\<close>

text \<open>A response is the status code and the JSON body; an exception is aiohttp's 500.\<close>

type_synonym response = "nat \<times> json"

definition error_body :: "string \<Rightarrow> string \<Rightarrow> json" where
  "error_body e i = JObj [(''error'', JStr e), (''manifest_id'', JStr i)]"

definition get_manifest :: "iso_parser \<Rightarrow> rat \<Rightarrow> creative_store \<Rightarrow> string \<Rightarrow> response res" where
  "get_manifest fromiso now st i =
     (case cs_get fromiso now st i of
        Inl e \<Rightarrow> Inl e
      | Inr NOT_FOUND \<Rightarrow> Inr (404, error_body ''manifest_not_found'' i)
      | Inr UNAPPROVED \<Rightarrow> Inr (403, error_body ''manifest_not_approved'' i)
      | Inr EXPIRED \<Rightarrow> Inr (410, error_body ''manifest_expired'' i)
      | Inr (Found m) \<Rightarrow> Inr (200, m))"

definition list_manifests_route :: "iso_parser \<Rightarrow> rat \<Rightarrow> creative_store \<Rightarrow> response res" where
  "list_manifests_route fromiso now st =
     (case cs_list_manifests fromiso now st of
        Inl e \<Rightarrow> Inl e
      | Inr rows \<Rightarrow> Inr (200, JArr (map JObj rows)))"

definition creative_readyz :: "iso_parser \<Rightarrow> rat \<Rightarrow> bool \<Rightarrow> creative_store \<Rightarrow> response res" where
  "creative_readyz fromiso now is_ready st =
     (if \<not> is_ready
      then Inr (503, JObj [(''status'', JStr ''not_ready''), (''reason'', JStr ''startup_in_progress'')])
      else (case cs_status fromiso now st of
              Inl e \<Rightarrow> Inl e
            | Inr s \<Rightarrow> Inr (200, JObj
                [(''status'', JStr ''ok''), (''total_stored'', JInt (int (total_stored s))),
                 (''approved_active'', JInt (int (approved_active s))),
                 (''load_errors'', JInt (int (load_errors s)))])))"

text \<open>
  \<open>run\<close> up to the listening server: without a manifest directory the process exits with
  code 1; an exception of the loader or of \<open>status\<close> ends it as well.
\<close>

datatype start_result = ExitCode nat | Crashed py_error | Serving creative_store

definition creative_boot :: "(json \<Rightarrow> string list) \<Rightarrow> iso_parser \<Rightarrow> rat \<Rightarrow> manifest_dir option \<Rightarrow> start_result" where
  "creative_boot errs fromiso now dir =
     (if dir = None then ExitCode 1
      else (case cs_load_directory errs dir init_cs of
              (Inl e, _) \<Rightarrow> Crashed e
            | (Inr _, st) \<Rightarrow>
                (case cs_status fromiso now st of
                   Inl e \<Rightarrow> Crashed e
                 | Inr _ \<Rightarrow> Serving st)))"

subsection \<open>The store is a manifest registry\<close>

definition approved :: "json \<Rightarrow> bool" where
  "approved m \<longleftrightarrow> field_set m ''approved_at'' \<and> field_set m ''approved_by''"

definition cs_accepts :: "(json \<Rightarrow> string list) \<Rightarrow> json \<Rightarrow> bool" where
  "cs_accepts errs m \<longleftrightarrow> errs m = [] \<and> approved m \<and> manifest_id_of m \<noteq> None"

definition cs_ingest :: "(json \<Rightarrow> string list) \<Rightarrow> json \<Rightarrow> creative_store \<Rightarrow> creative_store" where
  "cs_ingest errs m st = snd (cs_store errs m st)"

definition cs_find :: "creative_store \<Rightarrow> string \<Rightarrow> json option" where
  "cs_find st i = map_of (cs_manifests st) i"

lemma approved_obj: "approved m \<Longrightarrow> is_obj m"
  by (cases m) (simp_all add: approved_def field_set_def)

lemma cs_is_approved_iff: "cs_is_approved m = Inr b \<longleftrightarrow> is_obj m \<and> b = approved m"
  by (auto simp: cs_is_approved_def approved_def)

lemma cs_store_accepted:
  assumes "errs m = []" "approved m" "manifest_id_of m = Some i"
  shows "cs_manifests (snd (cs_store errs m st)) = AList.update i m (cs_manifests st)"
proof -
  have "cs_is_approved m = Inr True"
    using assms(2) approved_obj by (simp add: cs_is_approved_iff)
  moreover have "jindex m ''manifest_id'' = Inr (JStr i)"
    using assms(3) by (simp add: manifest_id_of_def jstr_opt_Some_iff jindex_jget)
  ultimately show ?thesis using assms(1) by (simp add: cs_store_def)
qed

lemma cs_store_refused:
  assumes "\<not> cs_accepts errs m"
  shows "cs_manifests (snd (cs_store errs m st)) = cs_manifests st"
  using assms
  by (auto simp: cs_store_def cs_accepts_def cs_count_error_def cs_is_approved_iff
      manifest_id_of_def jindex_Inr split: sum.splits bool.splits option.splits)

interpretation creg: manifest_registry "cs_ingest errs" "cs_accepts errs" cs_find for errs
proof (unfold_locales, goal_cases)
  case (1 m i s)
  then show ?case
    by (simp add: cs_ingest_def cs_accepts_def cs_store_accepted cs_find_def dict_simps fun_eq_iff)
next
  case (2 m s)
  then show ?case by (simp add: cs_ingest_def cs_find_def cs_store_refused fun_eq_iff)
next
  case (3 m)
  then show ?case by (simp add: cs_accepts_def)
qed

lemma item_count_shape: "manifest_shape m \<Longrightarrow> \<exists>n. item_count m = Inr n"
  by (auto simp: manifest_shape_def item_count_def split: option.splits json.splits)

lemma cs_accepts_store:
  assumes "cs_accepts errs m" "manifest_shape m"
  shows "cs_store errs m st = (Inr (), cs_ingest errs m st)"
    and "cs_load_errors (cs_ingest errs m st) = cs_load_errors st"
proof -
  obtain i where "manifest_id_of m = Some i" using assms(1) by (auto simp: cs_accepts_def)
  then have "jindex m ''manifest_id'' = Inr (JStr i)"
    by (simp add: manifest_id_of_def jstr_opt_Some_iff jindex_jget)
  moreover have "cs_is_approved m = Inr True"
    using assms(1) approved_obj by (simp add: cs_is_approved_iff cs_accepts_def)
  moreover obtain n where "item_count m = Inr n" using item_count_shape [OF assms(2)] by blast
  ultimately show "cs_store errs m st = (Inr (), cs_ingest errs m st)"
    and "cs_load_errors (cs_ingest errs m st) = cs_load_errors st"
    using assms by (auto simp: cs_store_def cs_ingest_def cs_accepts_def)
qed

lemma cs_refused_store:
  assumes "\<not> cs_accepts errs m" "errs m = [] \<Longrightarrow> manifest_shape m"
  shows "cs_store errs m st = (Inl ValueError, cs_ingest errs m st)"
    and "cs_load_errors (cs_ingest errs m st) = Suc (cs_load_errors st)"
proof -
  have "errs m \<noteq> [] \<or> cs_is_approved m = Inr False"
    using assms by (auto simp: cs_accepts_def manifest_shape_def cs_is_approved_iff)
  then show "cs_store errs m st = (Inl ValueError, cs_ingest errs m st)"
    and "cs_load_errors (cs_ingest errs m st) = Suc (cs_load_errors st)"
    by (auto simp: cs_store_def cs_ingest_def cs_count_error_def)
qed

lemma cs_find_count_error [simp]: "cs_find (cs_count_error st) = cs_find st"
  by (simp add: cs_find_def cs_count_error_def fun_eq_iff)

lemma cs_find_ingest_all_count_error:
  "cs_find (creg.ingest_all errs ms (cs_count_error st)) = cs_find (creg.ingest_all errs ms st)"
  by (rule ext) (simp add: creg.find_after_ingest_all split: option.split)

lemma cs_load_files_ingest:
  assumes "\<And>m. errs m = [] \<Longrightarrow> manifest_shape m"
  shows "fst (cs_load_files errs fs n st) = Inr (n + length (filter (cs_accepts errs) (readable fs)))"
    and "cs_find (snd (cs_load_files errs fs n st)) = cs_find (creg.ingest_all errs (readable fs) st)"
    and "cs_load_errors (snd (cs_load_files errs fs n st)) =
      cs_load_errors st + length (filter (\<lambda>f. case snd f of None \<Rightarrow> True | Some m \<Rightarrow> \<not> cs_accepts errs m) fs)"
proof (induction fs arbitrary: n st)
  case (Cons f fs)
  obtain name c where f: "f = (name, c)" by (cases f)
  have acc: "cs_store errs m st = (Inr (), cs_ingest errs m st)"
    "cs_load_errors (cs_ingest errs m st) = cs_load_errors st" if "cs_accepts errs m" for m st
    using cs_accepts_store [OF that] that assms [of m] by (simp_all add: cs_accepts_def)
  have rej: "cs_store errs m st = (Inl ValueError, cs_ingest errs m st)"
    "cs_load_errors (cs_ingest errs m st) = Suc (cs_load_errors st)" if "\<not> cs_accepts errs m" for m st
    using cs_refused_store [OF that] assms [of m] by simp_all
  {
    case 1
    show ?case
      by (cases c; cases "cs_accepts errs (the c)") (simp_all add: f Cons.IH acc rej cs_count_error_def)
  next
    case 2
    show ?case
      by (cases c; cases "cs_accepts errs (the c)")
        (simp_all add: f Cons.IH acc rej cs_find_ingest_all_count_error)
  next
    case 3
    show ?case
      by (cases c; cases "cs_accepts errs (the c)") (simp_all add: f Cons.IH acc rej cs_count_error_def)
  }
qed simp_all

subsection \<open>What is served\<close>

text \<open>Strictly before its expiry, unlike \<open>renderable\<close> of the player.\<close>

definition live :: "iso_parser \<Rightarrow> rat \<Rightarrow> json \<Rightarrow> bool" where
  "live fromiso now m \<longleftrightarrow> approved m \<and>
     (field_set m ''expires_at'' \<longrightarrow>
       (\<exists>s t. jget m ''expires_at'' = Some (JStr s) \<and> fromiso (replace_z s) = Inr (Aware t) \<and> now < t))"

lemma live_renderable: "live fromiso now m \<Longrightarrow> renderable fromiso now m"
  by (auto simp: live_def renderable_def approved_def)

lemma cs_is_expired_False:
  "is_obj m \<Longrightarrow> cs_is_expired fromiso now m = Inr False \<longleftrightarrow>
    (field_set m ''expires_at'' \<longrightarrow>
       (\<exists>s t. jget m ''expires_at'' = Some (JStr s) \<and> fromiso (replace_z s) = Inr (Aware t) \<and> now < t))"
  by (auto simp: cs_is_expired_def field_set_def jstr_opt_Some_iff
      split: option.splits sum.splits elim!: utc_instant.elims)

lemma cs_get_Found:
  "cs_get fromiso now st i = Inr (Found m) \<longleftrightarrow> cs_find st i = Some m \<and> live fromiso now m"
proof (cases "cs_find st i")
  case None
  then show ?thesis by (simp add: cs_get_def cs_find_def)
next
  case (Some x)
  show ?thesis
  proof (cases "approved x")
    case True
    then have "cs_is_approved x = Inr True" "is_obj x" by (simp_all add: cs_is_approved_iff approved_obj)
    then show ?thesis
      using Some True cs_is_expired_False [of x fromiso now]
      by (auto simp: cs_get_def cs_find_def live_def split: sum.splits bool.splits)
  next
    case False
    then have "cs_is_approved x \<noteq> Inr True" by (simp add: cs_is_approved_iff)
    then show ?thesis using Some False
      by (auto simp: cs_get_def cs_find_def live_def split: sum.splits bool.splits)
  qed
qed

lemma get_manifest_200:
  "get_manifest fromiso now st i = Inr (200, m) \<longleftrightarrow> cs_get fromiso now st i = Inr (Found m)"
  by (auto simp: get_manifest_def split: sum.splits lookup.splits)

lemma cs_find_loaded:
  assumes "\<And>m. errs m = [] \<Longrightarrow> manifest_shape m"
  shows "cs_find (snd (cs_load_directory errs (Some d) init_cs)) i =
    find (\<lambda>m. cs_accepts errs m \<and> manifest_id_of m = Some i) (rev (readable (json_files d)))"
proof -
  have none: "cs_find init_cs j = None" for j by (simp add: cs_find_def init_cs_def)
  show ?thesis
    using cs_load_files_ingest(2) [OF assms, of errs "json_files d" 0 init_cs]
    by (simp add: cs_load_directory_def creg.find_after_ingest_all creg.last_accepted_find none split: option.split)
qed

lemma creative_served:
  assumes "\<And>m. errs m = [] \<Longrightarrow> manifest_shape m"
  shows "get_manifest fromiso now (snd (cs_load_directory errs (Some d) init_cs)) i = Inr (200, m) \<longleftrightarrow>
    find (\<lambda>m. cs_accepts errs m \<and> manifest_id_of m = Some i) (rev (readable (json_files d))) = Some m \<and>
    live fromiso now m"
  using cs_find_loaded [OF assms, of errs d i] by (simp add: get_manifest_200 cs_get_Found)

text \<open>
  The creative service, started on a directory, answers 200 for an identifier with
  exactly the document that the last accepted file of that identifier holds, and only
  while it is approved and strictly before its expiry; loading counts the accepted files
  and counts every other JSON file as a load error.
\<close>

theorem creative_serves_live:
  assumes "\<And>m. errs m = [] \<Longrightarrow> manifest_shape m"
  shows "(case cs_load_directory errs (Some d) init_cs of (r, st) \<Rightarrow>
      r = Inr (length (filter (cs_accepts errs) (readable (json_files d)))) \<and>
      length (filter (cs_accepts errs) (readable (json_files d))) + cs_load_errors st = length (json_files d) \<and>
      (get_manifest fromiso now st i = Inr (200, m) \<longleftrightarrow>
        find (\<lambda>m. cs_accepts errs m \<and> manifest_id_of m = Some i) (rev (readable (json_files d))) = Some m \<and>
        live fromiso now m))"
proof -
  define fs where "fs = json_files d"
  obtain r st where load: "cs_load_files errs fs 0 init_cs = (r, st)" by fastforce
  note facts = cs_load_files_ingest [OF assms, of errs fs 0 init_cs, unfolded load, simplified]
  have count: "length (filter (cs_accepts errs) (readable xs)) +
      length (filter (\<lambda>f. case snd f of None \<Rightarrow> True | Some m \<Rightarrow> \<not> cs_accepts errs m) xs) = length xs" for xs
  proof (induction xs)
    case (Cons x xs)
    then show ?case by (cases x; cases "snd x") auto
  qed simp
  have dir: "cs_load_directory errs (Some d) init_cs = (r, st)" by (simp add: cs_load_directory_def load flip: fs_def)
  show ?thesis
    using facts(1,3) count [of fs] creative_served [OF assms, of errs fromiso now d i m]
    by (simp add: dir flip: fs_def) (simp add: init_cs_def)
qed

lemma errs_of_Nil [simp]: "errs_of p m = [] \<longleftrightarrow> p m"
  by (simp add: errs_of_def)

theorem creative_serves_live_witness:
  "get_manifest (\<lambda>_. Inl []) 0
     (snd (cs_load_directory (errs_of manifest_shape)
       (Some [(''b.json'', None), (''a.json'', Some (demo_manifest ''m1''))]) init_cs)) ''m1''
   = Inr (200, demo_manifest ''m1'')"
proof -
  have files: "readable (json_files [(''b.json'', None), (''a.json'', Some (demo_manifest ''m1''))]) = [demo_manifest ''m1'']"
    by (simp add: json_files_def ends_with_def)
  have acc: "cs_accepts (errs_of manifest_shape) (demo_manifest ''m1'')"
    by (simp add: cs_accepts_def errs_of_def)
      (simp add: demo_manifest_def approved_def field_set_def)
  have live: "live (\<lambda>_. Inl []) 0 (demo_manifest ''m1'')"
    by (simp add: live_def approved_def field_set_def demo_manifest_def)
  show ?thesis
    using creative_serves_live [of "errs_of manifest_shape"
        "[(''b.json'', None), (''a.json'', Some (demo_manifest ''m1''))]" "\<lambda>_. Inl []" 0 "''m1''" "demo_manifest ''m1''"]
      acc live unfolding files by (simp add: split_beta)
qed

text \<open>
  What the creative service serves, the player can play: a document answered with 200
  at some moment is stored by the player's cache under the requested identifier and passes
  the player's own approval and expiry check at that moment.
\<close>

theorem served_manifest_playable:
  assumes "\<And>m. errs m = [] \<Longrightarrow> manifest_shape m"
    and "get_manifest fromiso now (snd (cs_load_directory errs (Some d) init_cs)) i = Inr (200, m)"
  shows "ps_put errs m ps = (Inr None, AList.update i m ps) \<and>
    ps_get (snd (ps_put errs m ps)) i = Some m \<and>
    ps_check_manifest fromiso now m = Inr None"
proof -
  define fs where "fs = json_files d"
  have "cs_find (snd (cs_load_files errs fs 0 init_cs)) i = Some m" and live: "live fromiso now m"
    using assms(2) by (simp_all add: cs_load_directory_def get_manifest_200 cs_get_Found fs_def)
  then have "cs_find (creg.ingest_all errs (readable fs) init_cs) i = Some m"
    using cs_load_files_ingest(2) [OF assms(1), of errs fs 0 init_cs] by simp
  moreover have "cs_find init_cs i = None" by (simp add: cs_find_def init_cs_def)
  ultimately have acc: "cs_accepts errs m" "manifest_id_of m = Some i"
    using creg.served_from_batch by blast+
  then have put: "ps_put errs m ps = (Inr None, AList.update i m ps)"
    by (simp add: ps_put_id schema_ok_no_errors cs_accepts_def)
  from live have "ps_check_manifest fromiso now m = Inr None"
    by (simp add: ps_check_ok live_renderable)
  with put show ?thesis by (simp add: ps_get_def dict_simps)
qed

theorem served_manifest_playable_witness:
  "ps_get (snd (ps_put (errs_of manifest_shape) (demo_manifest ''m1'') [])) ''m1'' = Some (demo_manifest ''m1'')"
proof -
  have "get_manifest (\<lambda>_. Inl []) 0
      (snd (cs_load_directory (errs_of manifest_shape) (Some [(''a.json'', Some (demo_manifest ''m1''))]) init_cs)) ''m1''
      = Inr (200, demo_manifest ''m1'')"
    by (simp add: cs_load_directory_def json_files_def ends_with_def cs_store_def errs_of_def
        init_cs_def get_manifest_200 cs_get_Found cs_find_def)
      (simp add: demo_manifest_def cs_is_approved_def field_set_def item_count_def live_def approved_def)
  then show ?thesis
    using served_manifest_playable [of "errs_of manifest_shape" "\<lambda>_. Inl []" 0
        "[(''a.json'', Some (demo_manifest ''m1''))]" "''m1''" "demo_manifest ''m1''" "[]"]
    by (simp add: ps_get_def)
qed

text \<open>
  A stored manifest whose expiry has no timezone ends the start-up: \<open>status\<close> compares a
  naive with an aware datetime.
\<close>

lemma naive_expiry_crashes_status:
  assumes "(i, JObj d) \<in> set (cs_manifests st)" "approved (JObj d)" "field_set (JObj d) ''expires_at''"
    and "map_of d ''expires_at'' = Some (JStr s)" "fromiso (replace_z s) = Inr (Naive t)"
  shows "is_inl (cs_status fromiso now st)"
proof -
  have "cs_is_approved (JObj d) = Inr True" using assms(2) by (simp add: cs_is_approved_iff)
  then have act: "active_manifest fromiso now (JObj d) = Inl TypeError"
    using assms by (simp add: active_manifest_def cs_is_expired_def)
  have "is_inl (map_res f xs)" if "x \<in> set xs" "f x = Inl e" for f :: "json \<Rightarrow> bool res" and xs x e
    using that by (induction xs) (auto simp: is_inl_def split: sum.splits)
  from this [of "JObj d" "map snd (cs_manifests st)" "active_manifest fromiso now" TypeError] act assms(1)
  have "is_inl (map_res (active_manifest fromiso now) (map snd (cs_manifests st)))" by force
  then show ?thesis by (simp add: cs_status_def is_inl_def split: sum.splits)
qed

end
