(* ===== verification/DashboardApi.thy ===== *)
theory DashboardApi
  imports Campaigns SystemApi Assets FallbackApi Creative
begin

section \<open>The dashboard API as one machine\<close>

text \<open>
  Histories of requests to all routers of the dashboard. Each router keeps its own laws
  (theories ManifestWorkflow, Campaigns, Assets, SystemApi) and leaves the tables of the
  others alone, so the invariants of the manifests hold for every history of the whole API.
  The requests are those that can change something: the reads of the routers, but for the one
  of the safe mode, and the relay of a policy reload write nothing here. A manifest or
  fallback request carries the outcome of its file operation; the library the fallback
  routes write is the one the player reads.
\<close>

datatype fallback_request = ReqActivateFallback string | ReqClearFallback

definition fallback_step :: "(string \<Rightarrow> bool) \<Rightarrow> bool \<Rightarrow> fallback_request \<Rightarrow> dashboard \<Rightarrow> dashboard" where
  "fallback_step is_file disk_ok r db =
     db\<lparr>fs_fallback :=
       (case r of
          ReqActivateFallback name \<Rightarrow> snd (activate_fallback_asset is_file disk_ok name (fs_fallback db))
        | ReqClearFallback \<Rightarrow> snd (clear_fallback_selection disk_ok (fs_fallback db)))\<rparr>"

datatype api_request =
    ApiManifest bool manifest_request
  | ApiCampaign campaign_request
  | ApiAsset asset_request
  | ApiSafeMode safe_mode_request
  | ApiReadSafeMode
  | ApiFallback "string \<Rightarrow> bool" bool fallback_request

fun api_step :: "(string \<Rightarrow> string) \<Rightarrow> rat \<times> api_request \<Rightarrow> dashboard \<Rightarrow> dashboard" where
  "api_step h (now, ApiManifest disk_ok r) db = manifest_step (now, disk_ok, r) db"
| "api_step h (now, ApiCampaign r) db = campaign_step (now, r) db"
| "api_step h (now, ApiAsset r) db = asset_step h (now, r) db"
| "api_step h (now, ApiSafeMode r) db = safe_mode_step (now, r) db"
| "api_step h (now, ApiReadSafeMode) db = snd (get_safe_mode now db)"
| "api_step h (now, ApiFallback is_file disk_ok r) db = fallback_step is_file disk_ok r db"

definition api_run :: "(string \<Rightarrow> string) \<Rightarrow> (rat \<times> api_request) list \<Rightarrow> dashboard \<Rightarrow> dashboard" where
  "api_run h rs db = fold (api_step h) rs db"

lemma api_run_simps [simp]:
  "api_run h [] db = db"
  "api_run h (r # rs) db = api_run h rs (api_step h r db)"
  by (simp_all add: api_run_def)

lemma api_run_append: "api_run h (rs @ rs') db = api_run h rs' (api_run h rs db)"
  by (simp add: api_run_def)

text \<open>The two kinds of requests that never write an event.\<close>

lemma unlogged_steps:
  "same_records db (fallback_step is_file disk_ok q db)" "db_audit (fallback_step is_file disk_ok q db) = db_audit db"
  "same_records db (snd (get_safe_mode now db))" "db_audit (snd (get_safe_mode now db)) = db_audit db"
  by (auto simp: same_records_def fallback_step_def get_safe_mode_def get_or_create_safe_mode_def inactive_row_def Let_def
      split: option.split)

interpretation api: audited_router "api_step h" for h
proof
  fix db r
  show "log_extended db (api_step h r db)"
    by (cases r; cases "snd r")
      (simp_all add: manifest_router.audited campaign_router.audited asset_router.audited safe_mode_router.audited,
       simp_all add: log_extended_def unlogged_steps)
qed

lemma api_run_induct:
  assumes "P db" and "\<And>r db. r \<in> set rs \<Longrightarrow> P db \<Longrightarrow> P (api_step h r db)"
  shows "P (api_run h rs db)"
  using assms by (induction rs arbitrary: db) auto

subsection \<open>Requests to the other routers\<close>

lemma safe_mode_step_frame:
  "db_manifests (safe_mode_step r db) = db_manifests db"
  "fs_manifests (safe_mode_step r db) = fs_manifests db"
  "db_links (safe_mode_step r db) = db_links db"
  by (cases r; cases "snd r"; simp add: engage_safe_mode_def clear_safe_mode_def Let_def write_event_def)+

lemma safe_mode_step_events:
  "\<exists>es. db_audit (safe_mode_step r db) = db_audit db @ es \<and> list_all (\<lambda>e. ae_entity_type e = ''system'') es"
  by (cases r; cases "snd r") (auto simp: engage_safe_mode_def clear_safe_mode_def Let_def write_event_def)

definition foreign :: "dashboard \<Rightarrow> dashboard \<Rightarrow> bool" where
  "foreign db db' \<longleftrightarrow> db_manifests db' = db_manifests db \<and> fs_manifests db' = fs_manifests db \<and>
     (\<exists>es. db_audit db' = db_audit db @ es \<and> list_all (\<lambda>e. ae_entity_type e \<noteq> ''manifest'') es)"

lemma foreignI:
  assumes "db_manifests db' = db_manifests db" "fs_manifests db' = fs_manifests db"
    and "\<exists>es. db_audit db' = db_audit db @ es \<and> list_all (\<lambda>e. ae_entity_type e = ty) es" "ty \<noteq> ''manifest''"
  shows "foreign db db'"
  using assms by (fastforce simp: foreign_def list_all_iff)

lemma api_step_cases:
  obtains now disk_ok q where "r = (now, ApiManifest disk_ok q)"
    "api_step h r db = manifest_step (now, disk_ok, q) db"
  | "foreign db (api_step h r db)"
proof (cases r)
  case (Pair now q)
  have "foreign db (campaign_step r' db)" for r'
    by (rule foreignI [OF campaign_step_frame(1,2) campaign_step_events]) simp
  moreover have "foreign db (asset_step h r' db)" for r'
    by (rule foreignI [OF asset_step_frame(1,2) asset_step_events]) simp
  moreover have "foreign db (safe_mode_step r' db)" for r'
    by (rule foreignI [OF safe_mode_step_frame(1,2) safe_mode_step_events]) simp
  moreover have "foreign db (fallback_step f ok r' db)" "foreign db (snd (get_safe_mode now db))" for f ok r'
    by (simp_all add: foreign_def fallback_step_def get_safe_mode_def Let_def)
  ultimately show ?thesis using that by (cases q) (auto simp: Pair)
qed

lemma foreign_row: "foreign db db' \<Longrightarrow> find_row i db' = find_row i db"
  by (simp add: foreign_def find_row_def)

lemma replay_log_foreign:
  "list_all (\<lambda>e. ae_entity_type e \<noteq> ''manifest'') es \<Longrightarrow> replay_log (xs @ es) i = replay_log xs i"
  by (induction es rule: rev_induct) (simp_all flip: append_assoc)

lemma foreign_audited: "foreign db db' \<Longrightarrow> audited db \<Longrightarrow> audited db'"
  by (auto simp: audited_def foreign_row statuses_def) (auto simp: foreign_def replay_log_foreign)

lemma foreign_approved: "foreign db db' \<Longrightarrow> approved_by_someone db \<Longrightarrow> approved_by_someone db'"
proof -
  assume f: "foreign db db'" and a: "approved_by_someone db"
  then obtain es where "db_audit db' = db_audit db @ es" by (auto simp: foreign_def)
  with a show ?thesis by (simp add: approved_by_someone_def foreign_row [OF f]) blast
qed

lemma foreign_mirrors: "foreign db db' \<Longrightarrow> disk_mirrors db \<Longrightarrow> disk_mirrors db'"
  by (simp add: disk_mirrors_def files_of_def enabled_docs_def foreign_row fun_eq_iff) (simp add: foreign_def)

lemma foreign_rows: "foreign db db' \<Longrightarrow> rows_distinct db \<Longrightarrow> rows_distinct db'"
  by (simp add: rows_distinct_def foreign_def)

lemma api_audited: "audited db \<Longrightarrow> audited (api_step h r db)"
  by (cases rule: api_step_cases [of r h db]) (auto intro: audited_step foreign_audited)

lemma api_approved: "approved_by_someone db \<Longrightarrow> approved_by_someone (api_step h r db)"
  by (cases rule: api_step_cases [of r h db]) (auto intro: approved_by_someone_step foreign_approved)

lemma api_rows: "rows_distinct db \<Longrightarrow> rows_distinct (api_step h r db)"
  by (cases rule: api_step_cases [of r h db]) (auto intro: rows_distinct_step foreign_rows)

text \<open>The file operation of a manifest request succeeds.\<close>

fun disk_works :: "rat \<times> api_request \<Rightarrow> bool" where
  "disk_works (now, ApiManifest disk_ok r) = disk_ok"
| "disk_works (now, _) = True"

lemma api_mirrors: "disk_works r \<Longrightarrow> disk_mirrors db \<Longrightarrow> disk_mirrors (api_step h r db)"
  by (cases rule: api_step_cases [of r h db]) (auto intro: disk_mirrors_step foreign_mirrors)

lemma api_document:
  assumes "find_row i db = Some m"
  shows "\<exists>m'. find_row i (api_step h r db) = Some m' \<and> same_document m m'"
proof (cases rule: api_step_cases [of r h db])
  case (1 now disk_ok q)
  with document_step [OF assms, of "(now, disk_ok, q)"] show ?thesis by simp
qed (use assms foreign_row in simp)

lemma api_run_document:
  "find_row i db = Some m \<Longrightarrow> \<exists>m'. find_row i (api_run h rs db) = Some m' \<and> same_document m m'"
proof (induction rs arbitrary: db m)
  case Nil
  then show ?case by simp
next
  case (Cons r rs)
  from api_document [OF Cons.prems] obtain m' where
    "find_row i (api_step h r db) = Some m'" "same_document m m'" by blast
  with Cons.IH [OF this(1)] show ?case by (auto intro: same_document_trans)
qed

lemma empty_invs:
  "audited empty_dashboard" "approved_by_someone empty_dashboard" "rows_distinct empty_dashboard"
  "disk_mirrors empty_dashboard"
  by (simp_all add: audited_def approved_by_someone_def rows_distinct_def disk_mirrors_def files_of_def
      enabled_docs_def statuses_def find_row_def empty_dashboard_def fun_eq_iff)

lemma run_audited: "audited (api_run h rs empty_dashboard)"
  by (rule api_run_induct) (simp_all add: empty_invs api_audited)

lemma run_approved: "approved_by_someone (api_run h rs empty_dashboard)"
  by (rule api_run_induct) (simp_all add: empty_invs api_approved)

lemma run_rows_distinct: "rows_distinct (api_run h rs empty_dashboard)"
  by (rule api_run_induct) (simp_all add: empty_invs api_rows)

lemma run_disk_mirrors: "list_all disk_works rs \<Longrightarrow> disk_mirrors (api_run h rs empty_dashboard)"
  by (rule api_run_induct) (auto simp: empty_invs list_all_iff intro: api_mirrors)

subsection \<open>The audit log\<close>

text \<open>The requests that may write something without an event, and the frame of all others.\<close>

fun may_skip_log :: "rat \<times> api_request \<Rightarrow> bool" where
  "may_skip_log (now, ApiAsset (ReqUpload i fails_after name bytes)) = True"
| "may_skip_log (now, ApiReadSafeMode) = True"
| "may_skip_log (now, ApiFallback is_file disk_ok r) = True"
| "may_skip_log _ = False"

lemma manifest_step_files:
  "fs_assets (manifest_step r db) = fs_assets db" "fs_fallback (manifest_step r db) = fs_fallback db"
  "db_safe_mode (manifest_step r db) = db_safe_mode db"
  by (cases r rule: manifest_step_cases;
      auto simp: handler_defs Let_def get_manifest_or_404_def split_beta put_row_def write_event_def
        write_manifest_to_disk_def remove_manifest_from_disk_def split: option.splits sum.splits)+

lemma campaign_step_files:
  "fs_assets (campaign_step r db) = fs_assets db" "fs_fallback (campaign_step r db) = fs_fallback db"
  "db_safe_mode (campaign_step r db) = db_safe_mode db"
  by (cases r; cases "snd r";
      auto simp: campaign_defs Let_def get_campaign_or_404_def get_manifest_or_404_def split_beta put_campaign_def
        write_event_def split: option.splits sum.splits)+

lemma same_records_eq:
  "same_records db db' \<Longrightarrow> fs_assets db' = fs_assets db \<Longrightarrow> fs_fallback db' = fs_fallback db \<Longrightarrow>
   db_safe_mode db' = db_safe_mode db \<Longrightarrow> db' = db"
  by (cases db, cases db') (simp add: same_records_def)

lemma logged_or_unchanged:
  assumes "\<not> may_skip_log r" "db_audit (api_step h r db) = db_audit db"
  shows "api_step h r db = db"
proof -
  obtain now q where r: "r = (now, q)" by (cases r)
  have same: "same_records db (api_step h r db)"
    using api.unaudited_unchanged [of h "[r]" db] assms(2) by simp
  show ?thesis
  proof (cases q)
    case (ApiAsset aq)
    with assms(1) r obtain i where "aq = ReqArchiveAsset i" by (cases aq) auto
    with assms(2) r ApiAsset show ?thesis
      by (auto simp: archive_asset_def Let_def write_event_def split: sum.splits)
  next
    case (ApiSafeMode sq)
    with assms(2) r show ?thesis
      by (cases sq) (auto simp: engage_safe_mode_def clear_safe_mode_def Let_def write_event_def split: if_splits)
  qed (use same assms(1) r in \<open>auto intro: same_records_eq simp: manifest_step_files campaign_step_files\<close>)
qed

lemma run_logged_or_unchanged:
  "\<not> list_ex may_skip_log rs \<Longrightarrow> db_audit (api_run h rs db) = db_audit db \<Longrightarrow> api_run h rs db = db"
proof (induction rs arbitrary: db)
  case Nil
  then show ?case by simp
next
  case (Cons r rs)
  obtain es es' where "db_audit (api_step h r db) = db_audit db @ es"
    "db_audit (api_run h rs (api_step h r db)) = db_audit (api_step h r db) @ es'"
    using api.append_only [of h "[r]" db] api.append_only [of h rs "api_step h r db"] by (auto simp: api_run_def)
  with Cons.prems(2) have "db_audit (api_step h r db) = db_audit db"
    "db_audit (api_run h rs (api_step h r db)) = db_audit (api_step h r db)" by auto
  with Cons.IH [of "api_step h r db"] Cons.prems(1) logged_or_unchanged [of r h db] show ?case by simp
qed

text \<open>
  C11. Operator actions are auditable (events.py, PRIV-006), and what escapes the log: after any
  history of requests to any router the old log is a prefix of the new one. If it has not grown, no
  table, no manifest file and no rules file has changed, except that a missing safe-mode row was stored
  as inactive; and if no upload, no fallback request (the fallback routes never write an
  event) and no read of the safe mode is among the requests, nothing at all has changed.
\<close>

theorem every_change_audited:
  "take (length (db_audit db)) (db_audit (api_run h rs db)) = db_audit db \<and>
   (length (db_audit db) < length (db_audit (api_run h rs db)) \<or>
    same_records db (api_run h rs db) \<and> (list_ex may_skip_log rs \<or> api_run h rs db = db))"
proof -
  obtain es where "db_audit (api_run h rs db) = db_audit db @ es"
    using api.append_only [of h rs db] by (auto simp: api_run_def)
  then show ?thesis
    using api.unaudited_unchanged [of h rs db] run_logged_or_unchanged [of rs h db]
    by (cases es) (auto simp: api_run_def)
qed

text \<open>
  C12. The audit log tells the status of every manifest: after any history of requests, also
  refused ones and ones with failing disk writes, the last status event of a manifest in
  the log is its status.
\<close>

theorem audit_log_replays_status:
  "replay_log (db_audit (api_run h rs empty_dashboard)) i = statuses (api_run h rs empty_dashboard) i"
  using run_audited by (simp add: audited_def)

lemma empty_safe_mode_logged: "safe_mode_logged empty_dashboard"
  by (simp add: safe_mode_logged_def safe_mode_view_def empty_dashboard_def)

lemma entity_is_no_safe_mode:
  "list_all (\<lambda>e. ae_event_type e \<noteq> ''safe_mode.engaged'' \<and> ae_event_type e \<noteq> ''safe_mode.cleared'') es \<Longrightarrow>
   list_all (\<lambda>e. safe_mode_of_event e = None) es"
  by (simp add: list_all_iff safe_mode_of_event_def)

subsection \<open>Approval before playback\<close>

text \<open>
  Approval is not bypassable: after any history of requests, every manifest that is
  approved, enabled or disabled carries an approver and an approval time, and the audit log
  holds the approval event of that actor at that time.
\<close>

theorem playable_was_approved:
  assumes "find_row i (api_run h rs empty_dashboard) = Some m"
    and "mr_status m = Approved \<or> mr_status m = Enabled \<or> mr_status m = Disabled"
  shows "\<exists>who t. mr_approved_by m = Some who \<and> mr_approved_at m = Some t \<and>
    list_ex (\<lambda>e. ae_event_type e = ''manifest.approved'' \<and> ae_entity_id e = i \<and> ae_actor e = who \<and>
      ae_created_at e = t) (db_audit (api_run h rs empty_dashboard))"
  using run_approved [of h rs] assms by (auto simp: approved_by_someone_def)

definition demo_in :: "string \<Rightarrow> manifest_in" where
  "demo_in i = \<lparr>mi_manifest_id = i, mi_title = ''demo'', mi_schema_version = ''1.0.0'',
     mi_manifest_json = JObj [(''manifest_id'', JStr i)], mi_audience_tags = [''general'']\<rparr>"

definition demo_requests :: "(rat \<times> api_request) list" where
  "demo_requests =
     [(1, ApiManifest True (ReqCreate ''u1'' (demo_in ''m1''))), (2, ApiManifest True (ReqEnable ''m1'')),
      (3, ApiManifest True (ReqApprove ''m1'' ''alice'')), (4, ApiManifest True (ReqEnable ''m1'')),
      (5, ApiSafeMode (ReqEngage ''drill'' ''bob'')),
      (6, ApiCampaign (ReqNewCampaign ''c1''
            \<lparr>ci_name = ''spring'', ci_description = None, ci_start_at = None, ci_end_at = None\<rparr>)),
      (7, ApiCampaign (ReqAddManifest ''c1'' ''m1''))]"

theorem playable_was_approved_witness:
  "list_ex (\<lambda>e. ae_event_type e = ''manifest.approved'' \<and> ae_entity_id e = ''m1'' \<and> ae_actor e = ''alice'')
     (db_audit (api_run id demo_requests empty_dashboard))"
proof -
  have "map_option (\<lambda>m. (mr_status m, mr_approved_by m)) (find_row ''m1'' (api_run id demo_requests empty_dashboard)) =
      Some (Enabled, Some ''alice'')"
    by code_simp
  then obtain m where "find_row ''m1'' (api_run id demo_requests empty_dashboard) = Some m"
    "mr_status m = Enabled" "mr_approved_by m = Some ''alice''"
    by auto
  with playable_was_approved [of "''m1''" id demo_requests m] show ?thesis by (auto simp: list_ex_iff)
qed

subsection \<open>The manifest directory\<close>

text \<open>
  The manifest directory is the set of enabled manifests: after any history of requests
  whose file operations succeed, it holds for each enabled manifest its document under its
  name, and no other file; so a disabled or archived manifest is gone from it.
\<close>

theorem directory_holds_enabled:
  assumes "list_all disk_works rs"
  shows "map_of (fs_manifests (api_run h rs empty_dashboard)) f = Some j \<longleftrightarrow>
    (\<exists>i m. f = file_name i \<and> find_row i (api_run h rs empty_dashboard) = Some m \<and>
       mr_status m = Enabled \<and> mr_manifest_json m = j)"
  by (rule disk_mirrors_files [OF run_disk_mirrors [OF assms]])

theorem directory_holds_enabled_witness:
  "map_of (fs_manifests (api_run id (demo_requests @ [(8, ApiManifest True (ReqDisable ''m1''))]) empty_dashboard))
     ''m1.json'' = None"
proof -
  let ?rs = "demo_requests @ [(8, ApiManifest True (ReqDisable ''m1''))]"
  have "list_all disk_works ?rs" by (simp add: demo_requests_def)
  moreover have "map_option mr_status (find_row ''m1'' (api_run id ?rs empty_dashboard)) = Some Disabled"
    by code_simp
  moreover have "''m1.json'' = file_name ''m1''" by (simp add: file_name_def)
  ultimately show ?thesis
    using directory_holds_enabled [of ?rs id "''m1.json''"] by (auto simp: not_Some_eq [symmetric])
qed

subsection \<open>Campaigns\<close>

text \<open>Every link leads to a manifest that has been approved.\<close>

definition links_approved :: "dashboard \<Rightarrow> bool" where
  "links_approved db \<longleftrightarrow>
     (\<forall>l \<in> set (db_links db). \<exists>i m. find_row i db = Some m \<and> mr_id m = cl_manifest_id l \<and> mr_approved_by m \<noteq> None)"

lemma api_step_links:
  assumes "l \<in> set (db_links (api_step h r db))"
  obtains "l \<in> set (db_links db)"
  | i m where "find_row i db = Some m" "mr_status m \<in> set activatable" "cl_manifest_id l = mr_id m"
  using assms
  by (cases r; cases "snd r")
    (auto simp: manifest_step_frame asset_step_frame safe_mode_step_frame fallback_step_def get_safe_mode_def Let_def
      elim: campaign_step_links)

lemma links_approved_step:
  assumes "links_approved db" "approved_by_someone db"
  shows "links_approved (api_step h r db)"
  unfolding links_approved_def
proof
  fix l assume "l \<in> set (db_links (api_step h r db))"
  then have "\<exists>i m. find_row i db = Some m \<and> mr_id m = cl_manifest_id l \<and> mr_approved_by m \<noteq> None"
  proof (cases rule: api_step_links)
    case 1
    with assms(1) show ?thesis by (simp add: links_approved_def)
  next
    case (2 i m)
    then have "mr_status m \<in> {Approved, Enabled, Disabled}" by (auto simp: activatable_def)
    with 2(1) assms(2) have "mr_approved_by m \<noteq> None" unfolding approved_by_someone_def by blast
    with 2 show ?thesis by metis
  qed
  then obtain i m where m: "find_row i db = Some m" "mr_id m = cl_manifest_id l" "mr_approved_by m \<noteq> None"
    by blast
  from api_document [OF m(1), of h r] m(2,3)
  show "\<exists>i m. find_row i (api_step h r db) = Some m \<and> mr_id m = cl_manifest_id l \<and> mr_approved_by m \<noteq> None"
    by (auto simp: same_document_def)
qed

lemma run_links_approved: "links_approved (api_run h rs empty_dashboard)"
proof -
  have "links_approved (api_run h rs empty_dashboard) \<and> approved_by_someone (api_run h rs empty_dashboard)"
    by (rule api_run_induct)
      (simp_all add: links_approved_step api_approved empty_invs, simp add: links_approved_def empty_dashboard_def)
  then show ?thesis ..
qed

text \<open>
  Only approved content enters a campaign: after any history of requests each link of a
  campaign leads to an existing manifest that somebody has approved.
\<close>

theorem campaign_links_approved:
  assumes "l \<in> set (db_links (api_run h rs empty_dashboard))"
  shows "\<exists>i m who. find_row i (api_run h rs empty_dashboard) = Some m \<and> mr_id m = cl_manifest_id l \<and>
    mr_approved_by m = Some who"
  using run_links_approved [of h rs] assms by (fastforce simp: links_approved_def)

theorem campaign_links_approved_witness:
  "\<exists>i m who. find_row i (api_run id demo_requests empty_dashboard) = Some m \<and> mr_id m = ''u1'' \<and>
    mr_approved_by m = Some who"
proof -
  have "db_links (api_run id demo_requests empty_dashboard) =
      [\<lparr>cl_campaign_id = ''c1'', cl_manifest_id = ''u1'', cl_position = 0\<rparr>]"
    by code_simp
  with campaign_links_approved [of _ id demo_requests] show ?thesis by auto
qed

lemma unordered_api_step: "unordered db \<Longrightarrow> unordered (api_step h r db)"
  by (cases r; cases "snd r")
    (auto simp: unordered_step, simp_all add: unordered_def manifest_step_frame asset_step_frame safe_mode_step_frame
      fallback_step_def get_safe_mode_def Let_def)

text \<open>
  The order of a campaign is never recorded: after any history of requests every link
  has the position 0, since the expression for the next position treats 0 as missing.
\<close>

theorem campaign_order_not_recorded:
  "list_all (\<lambda>l. cl_position l = 0) (db_links (api_run h rs empty_dashboard))"
proof -
  have "unordered (api_run h rs empty_dashboard)"
    by (rule api_run_induct) (simp_all add: unordered_api_step, simp add: unordered_def empty_dashboard_def)
  then show ?thesis by (simp add: unordered_def)
qed

subsection \<open>The directory as the other services read it\<close>

definition files_distinct :: "dashboard \<Rightarrow> bool" where
  "files_distinct db \<longleftrightarrow> dict_ok (fs_manifests db)"

lemma files_distinct_step: "files_distinct db \<Longrightarrow> files_distinct (api_step h r db)"
proof (cases rule: api_step_cases [of r h db])
  case (1 now disk_ok q)
  assume "files_distinct db"
  then have "files_distinct (manifest_step (now, disk_ok, q) db)"
    by (cases q)
      (auto simp: files_distinct_def handler_defs Let_def split_beta write_event_def put_row_def
        write_manifest_to_disk_def remove_manifest_from_disk_def split: option.split sum.split)
  with 1 show ?thesis by simp
next
  case 2
  assume "files_distinct db"
  with 2 show ?thesis by (simp add: foreign_def files_distinct_def)
qed

lemma run_files_distinct: "files_distinct (api_run h rs empty_dashboard)"
  by (rule api_run_induct) (simp_all add: files_distinct_step, simp add: files_distinct_def empty_dashboard_def)

definition published :: "dashboard \<Rightarrow> manifest_dir" where
  "published db = map (\<lambda>(n, j). (n, Some j)) (fs_manifests db)"

lemma file_name_json: "ends_with ''.json'' (file_name i)"
  by (simp add: ends_with_def file_name_def)

text \<open>The documents a service finds in the directory are those of the enabled manifests.\<close>

lemma published_docs:
  assumes "list_all disk_works rs" "db = api_run h rs empty_dashboard"
  shows "j \<in> set (readable (json_files (published db))) \<longleftrightarrow>
    (\<exists>i m. find_row i db = Some m \<and> mr_status m = Enabled \<and> mr_manifest_json m = j)"
proof -
  have "dict_ok (fs_manifests db)"
    using run_files_distinct [of h rs] by (simp add: assms(2) files_distinct_def)
  then have entry: "(f, j) \<in> set (fs_manifests db) \<longleftrightarrow>
      (\<exists>i m. f = file_name i \<and> find_row i db = Some m \<and> mr_status m = Enabled \<and> mr_manifest_json m = j)" for f
    using disk_mirrors_files [OF run_disk_mirrors [OF assms(1)], of h f j]
    by (simp add: assms(2) flip: dict_ok_entry)
  have "j \<in> set (readable (json_files (published db))) \<longleftrightarrow> (\<exists>f. (f, j) \<in> set (fs_manifests db) \<and> ends_with ''.json'' f)"
    by (auto simp: set_readable set_json_files published_def)
  then show ?thesis using entry file_name_json by blast
qed

text \<open>Every enabled document names itself as its row does (the API does not check this).\<close>

definition docs_named :: "dashboard \<Rightarrow> bool" where
  "docs_named db \<longleftrightarrow> list_all (\<lambda>m. mr_status m \<noteq> Enabled \<or>
     manifest_id_of (mr_manifest_json m) = Some (mr_manifest_id m)) (db_manifests db)"

lemma docs_named_row:
  "docs_named db \<Longrightarrow> find_row i db = Some m \<Longrightarrow> mr_status m = Enabled \<Longrightarrow> manifest_id_of (mr_manifest_json m) = Some i"
  by (fastforce simp: docs_named_def list_all_iff find_row_def find_Some_iff in_set_conv_nth)

lemma find_member: "find P xs = Some y \<Longrightarrow> y \<in> set xs \<and> P y"
  by (induction xs) (auto split: if_splits)

lemma find_unique:
  "(\<And>x. x \<in> set xs \<Longrightarrow> P x \<Longrightarrow> x = y) \<Longrightarrow> find P xs = Some y \<longleftrightarrow> y \<in> set xs \<and> P y"
  by (induction xs) auto

lemma find_published:
  assumes "list_all disk_works rs" "db = api_run h rs empty_dashboard" "docs_named db"
  shows "find (\<lambda>j. Q j \<and> manifest_id_of j = Some i) (rev (readable (json_files (published db)))) = Some j \<longleftrightarrow>
    (\<exists>m. find_row i db = Some m \<and> mr_status m = Enabled \<and> mr_manifest_json m = j \<and> Q j)"
proof -
  have row: "find_row i db = Some m" if "find_row k db = Some m" "mr_status m = Enabled"
      "manifest_id_of (mr_manifest_json m) = Some i" for k m
    using docs_named_row [OF assms(3) that(1,2)] that by simp
  show ?thesis
  proof (cases "\<exists>m. find_row i db = Some m \<and> mr_status m = Enabled \<and> mr_manifest_json m = j")
    case True
    then obtain m where m: "find_row i db = Some m" "mr_status m = Enabled" "mr_manifest_json m = j" by blast
    have "find (\<lambda>j. Q j \<and> manifest_id_of j = Some i) (rev (readable (json_files (published db)))) = Some j \<longleftrightarrow>
        j \<in> set (rev (readable (json_files (published db)))) \<and> Q j \<and> manifest_id_of j = Some i"
    proof (rule find_unique)
      fix x assume x: "x \<in> set (rev (readable (json_files (published db))))" "Q x \<and> manifest_id_of x = Some i"
      then obtain k m' where "find_row k db = Some m'" "mr_status m' = Enabled" "mr_manifest_json m' = x"
        using published_docs [OF assms(1,2)] by auto
      with row x(2) m show "x = j" by fastforce
    qed
    then show ?thesis
      using m docs_named_row [OF assms(3) m(1,2)] published_docs [OF assms(1,2), of j] by auto
  next
    case False
    have "find (\<lambda>j. Q j \<and> manifest_id_of j = Some i) (rev (readable (json_files (published db)))) \<noteq> Some j"
    proof
      assume "find (\<lambda>j. Q j \<and> manifest_id_of j = Some i) (rev (readable (json_files (published db)))) = Some j"
      then have "j \<in> set (readable (json_files (published db)))" "manifest_id_of j = Some i"
        by (auto dest: find_member)
      with published_docs [OF assms(1,2), of j] row False show False by blast
    qed
    with False show ?thesis by blast
  qed
qed

end
