(* ===== verification/ObservationStore.thy ===== *)
theory ObservationStore
  imports Prelude
begin

section \<open>Observation window (services/audience-state/audience_state/observation_store.py)\<close>

text \<open>
  The sliding window of ICD-2 observations and the smoothed ICD-3 blocks computed from it.
  An observation is the record of the fields the window reads from the validated message;
  \<open>now\<close> is the reading of the injected clock, one per call.
\<close>

record obs_demographics =
  od_age_group :: "(string \<times> rat) list"
  od_gender :: "(string \<times> rat) list option"
  od_attire :: "(string \<times> rat) list option"
  od_dwell_estimate_ms :: "int option"

record observation =
  ob_present :: int
  ob_confidence :: rat
  ob_pipeline_degraded :: bool
  ob_demographics :: "obs_demographics option"
  ob_attention :: "(string \<times> rat) list option"

record obs_window =
  ow_window_ms :: int
  ow_min_stability :: int
  ow_conf_threshold :: rat
  ow_observations :: "(observation \<times> rat) list"
  ow_total_added :: nat

definition make_window :: "int \<Rightarrow> int \<Rightarrow> rat \<Rightarrow> obs_window res" where
  "make_window window_ms min_stability threshold =
     (if window_ms < 100 then Inl ValueError
      else if min_stability < 1 then Inl ValueError
      else if \<not> (0 \<le> threshold \<and> threshold \<le> 1) then Inl ValueError
      else Inr \<lparr>ow_window_ms = window_ms, ow_min_stability = min_stability, ow_conf_threshold = threshold,
                ow_observations = [], ow_total_added = 0\<rparr>)"

definition ow_prune :: "rat \<Rightarrow> obs_window \<Rightarrow> obs_window" where
  "ow_prune now w =
     w\<lparr>ow_observations := filter (\<lambda>(_, t). now - of_int (ow_window_ms w) / 1000 \<le> t) (ow_observations w)\<rparr>"

definition ow_add :: "rat \<Rightarrow> observation \<Rightarrow> obs_window \<Rightarrow> obs_window" where
  "ow_add now ob w =
     (let w' = ow_prune now w
      in w'\<lparr>ow_observations := ow_observations w' @ [(ob, now)], ow_total_added := ow_total_added w' + 1\<rparr>)"

definition ow_obs :: "obs_window \<Rightarrow> observation list" where
  "ow_obs w = map fst (ow_observations w)"

subsection \<open>The state block\<close>

record state_block =
  sb_count :: int
  sb_confidence :: rat
  sb_state_stable :: bool
  sb_freeze_decision :: bool
  sb_observations_in_window :: nat

definition any_degraded :: "observation list \<Rightarrow> bool" where
  "any_degraded obs \<longleftrightarrow> list_ex ob_pipeline_degraded obs"

text \<open>
  The true division \<open>sum(counts) / n\<close> of integers raises \<open>OverflowError\<close> when the quotient
  rounds to a value beyond the largest float.
\<close>

definition float_limit :: int where
  "float_limit = 2 ^ 1024 - 2 ^ 970"

lemma float_limit_eval [code]: "float_limit =
  179769313486231580793728971405303415079934132710037826936173778980444968292764750946649017977587207096330286416692887910946555547851940402630657488671505820681908902000708383676273854845817711531764475730270069855571366959622842914819860834936475292719074168444365510704342711559699508093042880177904174497792"
  by (simp add: float_limit_def)

definition compute_state :: "rat \<Rightarrow> obs_window \<Rightarrow> state_block option res \<times> obs_window" where
  "compute_state now w0 =
     (let w = ow_prune now w0; obs = ow_obs w in
      if obs = [] then (Inr None, w)
      else if float_limit * int (length obs) \<le> \<bar>sum_list (map ob_present obs)\<bar> then (Inl OverflowError, w)
      else let n = length obs;
               smoothed_count = py_round (mean (map (\<lambda>o'. of_int (ob_present o')) obs));
               smoothed_conf = py_round4 (mean (map ob_confidence obs));
               state_stable = (ow_min_stability w \<le> int n)
           in (Inr (Some \<lparr>sb_count = smoothed_count, sb_confidence = smoothed_conf,
                     sb_state_stable = state_stable,
                     sb_freeze_decision =
                       (\<not> state_stable \<or> smoothed_conf < ow_conf_threshold w \<or> any_degraded obs),
                     sb_observations_in_window = n\<rparr>), w))"

subsection \<open>Demographics\<close>

datatype demographics_block =
    Suppressed
  | Demographics "(string \<times> rat) list" "(string \<times> rat) list option" "(string \<times> rat) list option" "int option"

text \<open>The values of one bin in all blocks, or \<open>None\<close> when some block lacks it.\<close>

definition bin_values :: "string \<Rightarrow> (string \<times> rat) list list \<Rightarrow> rat list option" where
  "bin_values k blocks =
     (let vs = map (\<lambda>b. map_of b k) blocks
      in if None \<in> set vs then None else Some (map the vs))"

text \<open>
  The averaged bins, in order; \<open>None\<close> as soon as one bin is missing somewhere (the early
  return for ages, the reset and \<open>break\<close> for gender and attire).
\<close>

fun smooth_bins :: "string list \<Rightarrow> (string \<times> rat) list list \<Rightarrow> (string \<times> rat) list option" where
  "smooth_bins [] blocks = Some []"
| "smooth_bins (k # ks) blocks =
     (case bin_values k blocks of
        None \<Rightarrow> None
      | Some vs \<Rightarrow> map_option (Cons (k, py_round4 (mean vs))) (smooth_bins ks blocks))"

definition age_bins :: "string list" where
  "age_bins = [''child'', ''young_adult'', ''adult'', ''senior'']"

definition gender_bins :: "string list" where
  "gender_bins = [''male'', ''female'']"

definition attire_bins :: "string list" where
  "attire_bins = [''formal'', ''business_casual'', ''casual'', ''athletic'', ''outdoor_technical'',
     ''workwear_uniform'', ''streetwear'', ''luxury_premium'', ''lounge_comfort'', ''smart_occasion'']"

text \<open>An optional distribution: averaged only when every observation carries the block.\<close>

definition smooth_optional :: "string list \<Rightarrow> (string \<times> rat) list option list \<Rightarrow> (string \<times> rat) list option" where
  "smooth_optional bins blocks =
     (if None \<in> set blocks then None else smooth_bins bins (map the blocks))"

definition compute_demographics :: "rat \<Rightarrow> obs_window \<Rightarrow> demographics_block option \<times> obs_window" where
  "compute_demographics now w0 =
     (let w = ow_prune now w0; obs = ow_obs w;
          dems = List.map_filter ob_demographics obs in
      if obs = [] then (None, w)
      else if dems = [] then (None, w)
      else if length dems < length obs then (Some Suppressed, w)
      else if mean (map ob_confidence obs) < ow_conf_threshold w then (Some Suppressed, w)
      else (case smooth_bins age_bins (map od_age_group dems) of
              None \<Rightarrow> (Some Suppressed, w)
            | Some ages \<Rightarrow>
                (Some (Demographics ages (smooth_optional gender_bins (map od_gender dems))
                  (smooth_optional attire_bins (map od_attire dems))
                  (od_dwell_estimate_ms (last dems))), w)))"

subsection \<open>Attention\<close>

definition compute_attention :: "rat \<Rightarrow> obs_window \<Rightarrow> (string \<times> rat) list option \<times> obs_window" where
  "compute_attention now w0 =
     (let w = ow_prune now w0; obs = ow_obs w; attn = List.map_filter ob_attention obs;
          field = (\<lambda>f. let present = List.map_filter (\<lambda>a. map_of a f) attn
                       in if present = [] then [] else [(f, py_round4 (mean present))]);
          result = field ''engaged'' @ field ''ambient''
      in if obs = [] \<or> attn = [] then (None, w)
         else (if result = [] then None else Some result, w))"

definition newest_observation_age_ms :: "rat \<Rightarrow> obs_window \<Rightarrow> int option \<times> obs_window" where
  "newest_observation_age_ms now w0 =
     (let w = ow_prune now w0
      in if ow_observations w = [] then (None, w)
         else (Some (py_int ((now - snd (last (ow_observations w))) * 1000)), w))"

definition any_pipeline_degraded :: "rat \<Rightarrow> obs_window \<Rightarrow> bool \<times> obs_window" where
  "any_pipeline_degraded now w0 = (let w = ow_prune now w0 in (any_degraded (ow_obs w), w))"

definition observation_count :: "rat \<Rightarrow> obs_window \<Rightarrow> nat \<times> obs_window" where
  "observation_count now w0 = (let w = ow_prune now w0 in (length (ow_observations w), w))"

subsection \<open>The window holds the recent observations\<close>

lemma ow_prune_idem [simp]: "ow_prune now (ow_prune now w) = ow_prune now w"
  by (simp add: ow_prune_def case_prod_unfold)

lemma ow_prune_later:
  "now \<le> now' \<Longrightarrow> ow_prune now' (ow_prune now w) = ow_prune now' w"
proof -
  assume le: "now \<le> now'"
  have "filter (\<lambda>(_, t). now' - c \<le> t) (filter (\<lambda>(_, t). now - c \<le> t) xs) = filter (\<lambda>(_, t). now' - c \<le> t) xs"
    for c and xs :: "(observation \<times> rat) list"
    using le by (induction xs) auto
  then show ?thesis by (simp add: ow_prune_def)
qed

definition add_all :: "(rat \<times> observation) list \<Rightarrow> obs_window \<Rightarrow> obs_window" where
  "add_all h w = fold (\<lambda>(t, ob). ow_add t ob) h w"

text \<open>The specification: the history of added observations that are recent at \<open>now\<close>.\<close>

definition recent :: "int \<Rightarrow> rat \<Rightarrow> (rat \<times> observation) list \<Rightarrow> (observation \<times> rat) list" where
  "recent window_ms now h =
     map (\<lambda>(t, ob). (ob, t)) (filter (\<lambda>(t, ob). now - of_int window_ms / 1000 \<le> t) h)"

lemma add_all_params [simp]:
  "ow_window_ms (add_all h w) = ow_window_ms w"
  "ow_conf_threshold (add_all h w) = ow_conf_threshold w"
  "ow_min_stability (add_all h w) = ow_min_stability w"
  by (induction h arbitrary: w) (auto simp: add_all_def ow_add_def ow_prune_def Let_def)

lemma window_recent:
  assumes "sorted (map fst h)" and "\<forall>(t, ob) \<in> set h. t \<le> now" and "ow_observations w = []"
  shows "ow_observations (ow_prune now (add_all h w)) = recent (ow_window_ms w) now h"
  using assms(1,2)
proof (induction h arbitrary: now rule: rev_induct)
  case Nil
  then show ?case using assms(3) by (simp add: add_all_def ow_prune_def recent_def)
next
  case (snoc x h)
  obtain t ob where x: "x = (t, ob)" by (cases x)
  have le: "\<forall>(s, ob) \<in> set h. s \<le> t" "t \<le> now" "sorted (map fst h)"
    using snoc.prems by (auto simp: x sorted_append)
  define w1 where "w1 = add_all h w"
  have p: "ow_window_ms w1 = ow_window_ms w" by (simp add: w1_def)
  have eq: "add_all (h @ [x]) w = ow_add t ob w1" by (simp add: add_all_def x w1_def)
  have "ow_observations (ow_prune now (ow_prune t w1)) = ow_observations (ow_prune now w1)"
    using ow_prune_later [OF le(2), of w1] by simp
  moreover have "ow_observations (ow_prune now w1) = recent (ow_window_ms w) now h"
    unfolding w1_def using le snoc.IH [of now] by fastforce
  ultimately have "ow_observations (ow_prune now (ow_prune t w1)) = recent (ow_window_ms w) now h" by simp
  then show ?case
    unfolding eq by (simp add: ow_add_def ow_prune_def recent_def x p Let_def)
qed

subsection \<open>Properties\<close>

text \<open>What ICD-2 guarantees of an observation.\<close>

definition unit_bins :: "(string \<times> rat) list \<Rightarrow> bool" where
  "unit_bins d \<longleftrightarrow> (\<forall>(k, v) \<in> set d. 0 \<le> v \<and> v \<le> 1)"

definition obs_ok :: "observation \<Rightarrow> bool" where
  "obs_ok ob \<longleftrightarrow> 0 \<le> ob_present ob \<and> 0 \<le> ob_confidence ob \<and> ob_confidence ob \<le> 1 \<and>
     (case ob_demographics ob of None \<Rightarrow> True | Some d \<Rightarrow>
        unit_bins (od_age_group d) \<and> (case od_gender d of None \<Rightarrow> True | Some g \<Rightarrow> unit_bins g) \<and>
        (case od_attire d of None \<Rightarrow> True | Some a \<Rightarrow> unit_bins a) \<and>
        (case od_dwell_estimate_ms d of None \<Rightarrow> True | Some n \<Rightarrow> 0 \<le> n)) \<and>
     (case ob_attention ob of None \<Rightarrow> True | Some a \<Rightarrow> unit_bins a)"

lemma mean_count_bounds:
  assumes "obs \<noteq> []" and "\<forall>o' \<in> set obs. lo \<le> ob_present o' \<and> ob_present o' \<le> hi"
  shows "lo \<le> py_round (mean (map (\<lambda>o'. of_int (ob_present o')) obs)) \<and>
    py_round (mean (map (\<lambda>o'. of_int (ob_present o')) obs)) \<le> hi"
proof -
  let ?xs = "map (\<lambda>o'. of_int (ob_present o') :: rat) obs"
  have "of_int lo \<le> mean ?xs" "mean ?xs \<le> of_int hi"
    using assms mean_bounds_ball [of ?xs "of_int lo" "of_int hi"] by auto
  then show ?thesis by (simp add: py_round_ge py_round_le)
qed

lemma mean_unit: "xs \<noteq> [] \<Longrightarrow> \<forall>x \<in> set xs. 0 \<le> x \<and> x \<le> 1 \<Longrightarrow> 0 \<le> py_round4 (mean xs) \<and> py_round4 (mean xs) \<le> 1"
  using mean_bounds_ball [of xs 0 1] by (intro py_round4_unit) auto

lemma recent_in: "(ob, t) \<in> set (recent ms now h) \<longleftrightarrow> (t, ob) \<in> set h \<and> now - of_int ms / 1000 \<le> t"
  by (auto simp: recent_def)

lemma compute_state_window:
  assumes "compute_state now w = (Inr (Some sb), w')"
  shows "w' = ow_prune now w \<and> ow_obs w' \<noteq> [] \<and> sb_observations_in_window sb = length (ow_obs w') \<and>
    sb_count sb = py_round (mean (map (\<lambda>o'. of_int (ob_present o')) (ow_obs w'))) \<and>
    sb_confidence sb = py_round4 (mean (map ob_confidence (ow_obs w'))) \<and>
    (\<not> sb_freeze_decision sb \<longrightarrow> ow_min_stability w' \<le> int (length (ow_obs w')) \<and>
       ow_conf_threshold w' \<le> sb_confidence sb \<and> (\<forall>ob \<in> set (ow_obs w'). \<not> ob_pipeline_degraded ob))"
  using assms by (auto simp: compute_state_def any_degraded_def list_ex_iff Let_def split: if_splits)

text \<open>
  The published state is computed from the recent observations only, and its freeze
  decision is conservative: for a window filled by a time-ordered history, the state at
  \<open>now\<close> counts exactly the observations of the last \<open>window_ms\<close>, its count lies between
  the smallest and the largest of theirs, its confidence in [0,1], and it does not ask for
  a freeze only if there are enough of them, confident enough and none degraded.
\<close>

theorem state_from_recent:
  assumes "make_window ms k thr = Inr w" and "sorted (map fst h)" and "\<forall>(t, ob) \<in> set h. t \<le> now \<and> obs_ok ob"
    and "compute_state now (add_all h w) = (Inr (Some sb), w')"
    and "\<forall>(ob, t) \<in> set (recent ms now h). lo \<le> ob_present ob \<and> ob_present ob \<le> hi"
  shows "sb_observations_in_window sb = length (recent ms now h) \<and> 0 < length (recent ms now h) \<and>
    lo \<le> sb_count sb \<and> sb_count sb \<le> hi \<and> 0 \<le> sb_confidence sb \<and> sb_confidence sb \<le> 1 \<and>
    (\<not> sb_freeze_decision sb \<longrightarrow> k \<le> int (length (recent ms now h)) \<and> thr \<le> sb_confidence sb \<and>
       (\<forall>(ob, t) \<in> set (recent ms now h). \<not> ob_pipeline_degraded ob))"
proof -
  have w: "ow_window_ms w = ms" "ow_min_stability w = k" "ow_conf_threshold w = thr" "ow_observations w = []"
    using assms(1) by (auto simp: make_window_def split: if_splits)
  note c = compute_state_window [OF assms(4)]
  have rec: "ow_observations w' = recent ms now h"
    using c window_recent [OF assms(2) _ w(4), of now] assms(3) w(1) by fastforce
  have params: "ow_min_stability w' = k" "ow_conf_threshold w' = thr"
    using c w by (simp_all add: ow_prune_def)
  have obs: "ow_obs w' = map fst (recent ms now h)" by (simp add: ow_obs_def rec)
  have unit: "\<forall>x \<in> set (map ob_confidence (ow_obs w')). 0 \<le> x \<and> x \<le> 1"
    using assms(3) by (auto simp: obs recent_in obs_ok_def)
  have cnt: "\<forall>ob \<in> set (ow_obs w'). lo \<le> ob_present ob \<and> ob_present ob \<le> hi"
    using assms(5) by (auto simp: obs)
  from c have ne: "ow_obs w' \<noteq> []" by blast
  from c have parts: "sb_observations_in_window sb = length (ow_obs w')"
      "sb_count sb = py_round (mean (map (\<lambda>o'. of_int (ob_present o')) (ow_obs w')))"
      "sb_confidence sb = py_round4 (mean (map ob_confidence (ow_obs w')))"
      "\<not> sb_freeze_decision sb \<longrightarrow> ow_min_stability w' \<le> int (length (ow_obs w')) \<and>
       ow_conf_threshold w' \<le> sb_confidence sb \<and> (\<forall>ob \<in> set (ow_obs w'). \<not> ob_pipeline_degraded ob)"
    by blast+
  have len: "length (ow_obs w') = length (recent ms now h)" by (simp add: obs)
  have "\<not> sb_freeze_decision sb \<longrightarrow> (\<forall>(ob, t) \<in> set (recent ms now h). \<not> ob_pipeline_degraded ob)"
    using parts(4) by (auto simp: obs)
  moreover have "0 < length (recent ms now h)" using ne by (simp add: obs)
  moreover have "lo \<le> sb_count sb \<and> sb_count sb \<le> hi"
    unfolding parts(2) by (rule mean_count_bounds [OF ne cnt])
  moreover have "0 \<le> sb_confidence sb \<and> sb_confidence sb \<le> 1"
    unfolding parts(3) by (rule mean_unit [OF _ unit]) (use ne in simp)
  ultimately show ?thesis using parts(1,4) params len by simp
qed

definition demo_obs :: observation where
  "demo_obs = \<lparr>ob_present = 2, ob_confidence = 0.9, ob_pipeline_degraded = False, ob_demographics = None,
     ob_attention = Some [(''engaged'', 0.5)]\<rparr>"

theorem state_from_recent_witness:
  "\<exists>sb. fst (compute_state 10 (add_all [(1, demo_obs), (9, demo_obs)]
       \<lparr>ow_window_ms = 5000, ow_min_stability = 1, ow_conf_threshold = 0.5, ow_observations = [], ow_total_added = 0\<rparr>)) =
     Inr (Some sb) \<and> sb_observations_in_window sb = 1 \<and> sb_count sb = 2"
proof -
  let ?w = "\<lparr>ow_window_ms = 5000, ow_min_stability = 1, ow_conf_threshold = 0.5, ow_observations = [], ow_total_added = 0\<rparr>"
  let ?h = "[(1, demo_obs), (9, demo_obs)] :: (rat \<times> observation) list"
  have m: "make_window 5000 1 0.5 = Inr ?w" by (simp add: make_window_def)
  have r: "recent 5000 10 ?h = [(demo_obs, 9)]" by (simp add: recent_def)
  have "ow_observations (ow_prune 10 (add_all ?h ?w)) = [(demo_obs, 9)]"
    by (simp add: add_all_def ow_add_def ow_prune_def Let_def)
  then obtain sb w' where c: "compute_state 10 (add_all ?h ?w) = (Inr (Some sb), w')"
    by (simp add: compute_state_def ow_obs_def Let_def mean_def demo_obs_def float_limit_def)
  have s: "sorted (map fst ?h)" "\<forall>(t, ob) \<in> set ?h. t \<le> 10 \<and> obs_ok ob"
    by (simp_all add: obs_ok_def demo_obs_def unit_bins_def)
  have p: "ob_present demo_obs = 2" by (simp add: demo_obs_def)
  have "sb_observations_in_window sb = 1 \<and> 2 \<le> sb_count sb \<and> sb_count sb \<le> 2"
    using state_from_recent [OF m s c, of 2 2] by (simp add: r p)
  with c show ?thesis by auto
qed

lemma bin_values_Some:
  "bin_values k blocks = Some vs \<Longrightarrow> length vs = length blocks \<and> (\<forall>v \<in> set vs. \<exists>b \<in> set blocks. map_of b k = Some v)"
  by (auto simp: bin_values_def Let_def split: if_splits) (metis image_eqI option.collapse)

lemma smooth_bins_unit:
  assumes "smooth_bins ks blocks = Some res" and "blocks \<noteq> []" and "\<forall>b \<in> set blocks. unit_bins b"
  shows "map fst res = ks \<and> unit_bins res"
  using assms(1)
proof (induction ks arbitrary: res)
  case Nil
  then show ?case by (simp add: unit_bins_def)
next
  case (Cons k ks)
  then obtain vs rest where v: "bin_values k blocks = Some vs" "smooth_bins ks blocks = Some rest"
      "res = (k, py_round4 (mean vs)) # rest"
    by (auto split: option.splits)
  have "vs \<noteq> []" using bin_values_Some [OF v(1)] assms(2) by (cases vs) auto
  moreover have "\<forall>x \<in> set vs. 0 \<le> x \<and> x \<le> 1"
    using bin_values_Some [OF v(1)] assms(3) by (fastforce simp: unit_bins_def dest: map_of_SomeD)
  ultimately have "0 \<le> py_round4 (mean vs) \<and> py_round4 (mean vs) \<le> 1" by (rule mean_unit)
  with Cons.IH [OF v(2)] v(3) show ?case by (simp add: unit_bins_def)
qed

lemma smooth_optional_unit:
  assumes "smooth_optional ks blocks = Some res" and "blocks \<noteq> []"
    and "\<forall>b \<in> set blocks. case b of None \<Rightarrow> True | Some d \<Rightarrow> unit_bins d"
  shows "map fst res = ks \<and> unit_bins res"
proof -
  from assms(1) have n: "None \<notin> set blocks" "smooth_bins ks (map the blocks) = Some res"
    by (auto simp: smooth_optional_def split: if_splits)
  have "\<forall>b \<in> set (map the blocks). unit_bins b"
  proof
    fix b assume "b \<in> set (map the blocks)"
    then obtain x where x: "x \<in> set blocks" "b = the x" by auto
    with n(1) have "x = Some b" by (cases x) auto
    with assms(3) x(1) show "unit_bins b" by auto
  qed
  with assms(2) show ?thesis by (intro smooth_bins_unit [OF n(2)]) simp_all
qed

lemma map_filter_full:
  "length (List.map_filter f xs) = length xs \<Longrightarrow> \<forall>x \<in> set xs. f x \<noteq> None"
proof (induction xs)
  case Nil
  then show ?case by simp
next
  case (Cons x xs)
  have "length (List.map_filter f xs) \<le> length xs" by (simp add: List.map_filter_def)
  with Cons show ?case by (auto simp: List.map_filter_simps split: option.splits)
qed

lemma length_map_filter_le: "length (List.map_filter f xs) \<le> length xs"
  by (simp add: List.map_filter_def)

lemma in_map_filter: "y \<in> set (List.map_filter f xs) \<Longrightarrow> \<exists>x \<in> set xs. f x = Some y"
  by (auto simp: List.map_filter_def)

lemma compute_demographics_ok:
  assumes "compute_demographics now w = (Some (Demographics ages genders attire dwell), w')"
    and "\<forall>ob \<in> set (ow_obs w). obs_ok ob"
  shows "(\<forall>ob \<in> set (ow_obs w'). ob_demographics ob \<noteq> None) \<and>
    ow_conf_threshold w' \<le> mean (map ob_confidence (ow_obs w')) \<and>
    map fst ages = age_bins \<and> unit_bins ages \<and>
    (case genders of None \<Rightarrow> True | Some g \<Rightarrow> map fst g = gender_bins \<and> unit_bins g) \<and>
    (case attire of None \<Rightarrow> True | Some a \<Rightarrow> map fst a = attire_bins \<and> unit_bins a) \<and>
    (case dwell of None \<Rightarrow> True | Some n \<Rightarrow> 0 \<le> n)"
proof -
  define dems where "dems = List.map_filter ob_demographics (ow_obs w')"
  from assms(1) have c: "w' = ow_prune now w" "dems \<noteq> []" "\<not> length dems < length (ow_obs w')"
      "\<not> mean (map ob_confidence (ow_obs w')) < ow_conf_threshold w'"
      "smooth_bins age_bins (map od_age_group dems) = Some ages"
      "genders = smooth_optional gender_bins (map od_gender dems)"
      "attire = smooth_optional attire_bins (map od_attire dems)"
      "dwell = od_dwell_estimate_ms (last dems)"
    by (auto simp: compute_demographics_def Let_def dems_def split: if_splits option.splits)
  have sub: "\<forall>ob \<in> set (ow_obs w'). obs_ok ob"
    using assms(2) by (auto simp: c(1) ow_obs_def ow_prune_def)
  have all: "length dems = length (ow_obs w')"
    using c(3) length_map_filter_le [of ob_demographics "ow_obs w'"] by (simp add: dems_def)
  have dem_ok: "unit_bins (od_age_group d) \<and> (case od_gender d of None \<Rightarrow> True | Some g \<Rightarrow> unit_bins g) \<and>
      (case od_attire d of None \<Rightarrow> True | Some a \<Rightarrow> unit_bins a) \<and>
      (case od_dwell_estimate_ms d of None \<Rightarrow> True | Some n \<Rightarrow> 0 \<le> n)" if "d \<in> set dems" for d
    using in_map_filter [OF that [unfolded dems_def]] sub by (fastforce simp: obs_ok_def)
  have "map fst ages = age_bins \<and> unit_bins ages"
    by (rule smooth_bins_unit [OF c(5)]) (use c(2) dem_ok in auto)
  moreover have "case genders of None \<Rightarrow> True | Some g \<Rightarrow> map fst g = gender_bins \<and> unit_bins g"
    using smooth_optional_unit [of gender_bins "map od_gender dems"] c(2,6) dem_ok
    by (auto split: option.split)
  moreover have "case attire of None \<Rightarrow> True | Some a \<Rightarrow> map fst a = attire_bins \<and> unit_bins a"
    using smooth_optional_unit [of attire_bins "map od_attire dems"] c(2,7) dem_ok
    by (auto split: option.split)
  moreover have "\<forall>ob \<in> set (ow_obs w'). ob_demographics ob \<noteq> None"
    using map_filter_full [of ob_demographics "ow_obs w'"] all by (simp add: dems_def)
  moreover have "case dwell of None \<Rightarrow> True | Some n \<Rightarrow> 0 \<le> n"
    unfolding c(8) using dem_ok [of "last dems"] c(2) by simp
  ultimately show ?thesis using c(4) by simp
qed

text \<open>
  C22. Demographics are published unsuppressed only when every observation in the window
  carries them and the mean confidence reaches the threshold; each published distribution
  has exactly its bins, each averaged value in [0,1].
\<close>

theorem demographics_published:
  assumes "compute_demographics now w = (Some (Demographics ages genders attire dwell), w')"
    and "\<forall>ob \<in> set (ow_obs w). obs_ok ob"
  shows "(\<forall>ob \<in> set (ow_obs w'). ob_demographics ob \<noteq> None) \<and>
    ow_conf_threshold w' \<le> mean (map ob_confidence (ow_obs w')) \<and>
    map fst ages = age_bins \<and> unit_bins ages \<and>
    (case genders of None \<Rightarrow> True | Some g \<Rightarrow> map fst g = gender_bins \<and> unit_bins g) \<and>
    (case attire of None \<Rightarrow> True | Some a \<Rightarrow> map fst a = attire_bins \<and> unit_bins a)"
  using compute_demographics_ok [OF assms] by blast

definition demo_dem_obs :: observation where
  "demo_dem_obs = demo_obs\<lparr>ob_demographics := Some
     \<lparr>od_age_group = [(''child'', 0), (''young_adult'', 0.5), (''adult'', 0.5), (''senior'', 0)],
      od_gender = None, od_attire = None, od_dwell_estimate_ms = Some 4000\<rparr>\<rparr>"

definition demo_window :: obs_window where
  "demo_window = \<lparr>ow_window_ms = 5000, ow_min_stability = 1, ow_conf_threshold = 0.5,
     ow_observations = [(demo_dem_obs, 9)], ow_total_added = 1\<rparr>"

theorem demographics_published_witness:
  "\<exists>ages dwell. fst (compute_demographics 10 demo_window) = Some (Demographics ages None None dwell) \<and>
     map fst ages = age_bins \<and> unit_bins ages"
proof -
  obtain ages dwell w' where c: "compute_demographics 10 demo_window = (Some (Demographics ages None None dwell), w')"
    by (auto simp: compute_demographics_def demo_window_def demo_dem_obs_def demo_obs_def ow_prune_def
        ow_obs_def List.map_filter_simps mean_def age_bins_def bin_values_def smooth_optional_def Let_def)
  have "\<forall>ob \<in> set (ow_obs demo_window). obs_ok ob"
    by (simp add: demo_window_def ow_obs_def demo_dem_obs_def demo_obs_def obs_ok_def unit_bins_def)
  from demographics_published [OF c this] c show ?thesis by auto
qed

end
