(* ===== verification/Analytics.thy ===== *)
theory Analytics
  imports Campaigns SystemApi ObservationStore
begin

section \<open>Analytics routes (services/dashboard-api/dashboard_api/routers/analytics.py)\<close>

text \<open>
  Read-only aggregates over the snapshots, impressions and probes the sinks store. Rounding
  is Python's \<open>round\<close> to two or four digits.
\<close>

subsection \<open>Audience summary\<close>

record analytics_summary =
  an_sampled_at :: rat
  an_total_observations :: nat
  an_avg_count :: "rat option"
  an_peak_count :: "int option"
  an_age_distribution :: "(string \<times> rat) list option"
  an_avg_attention :: "rat option"
  an_data_available :: bool

definition bin_or_zero :: "string \<Rightarrow> snapshot_row \<Rightarrow> rat" where
  "bin_or_zero k r = (case map_of (sn_age_group r) k of None \<Rightarrow> 0 | Some v \<Rightarrow> v)"

definition age_distribution :: "snapshot_row list \<Rightarrow> (string \<times> rat) list option" where
  "age_distribution rows =
     (let demo_rows = filter (\<lambda>r. \<not> sn_demographics_suppressed r) rows;
          bins = map (\<lambda>k. (k, mean (map (bin_or_zero k) demo_rows))) age_bins
      in if demo_rows = [] then None
         else if list_ex (\<lambda>(_, v). 0 < v) bins then Some bins else None)"

definition rounded_mean4 :: "rat list \<Rightarrow> rat option" where
  "rounded_mean4 xs = (if xs = [] then None else Some (py_round4 (mean xs)))"

definition get_analytics_summary :: "rat \<Rightarrow> dashboard \<Rightarrow> analytics_summary" where
  "get_analytics_summary now db =
     (let rows = filter (\<lambda>r. now - 3600 \<le> sn_sampled_at r) (db_snapshots db);
          counts = map sn_presence_count rows
      in if rows = []
         then \<lparr>an_sampled_at = now, an_total_observations = 0, an_avg_count = None, an_peak_count = None,
               an_age_distribution = None, an_avg_attention = None, an_data_available = False\<rparr>
         else \<lparr>an_sampled_at = now, an_total_observations = length rows,
               an_avg_count = Some (py_round2 (mean (map of_int counts))),
               an_peak_count = Some (foldr max counts (hd counts)),
               an_age_distribution = age_distribution rows,
               an_avg_attention = rounded_mean4 (List.map_filter sn_attention_engaged rows),
               an_data_available = True\<rparr>)"

subsection \<open>Impressions\<close>

definition list_play_events :: "string option \<Rightarrow> int \<Rightarrow> int option \<Rightarrow> dashboard
    \<Rightarrow> (play_row list \<times> pagination) res" where
  "list_play_events mid page page_size db =
     paginate page page_size
       (sort_key (\<lambda>r. - pw_activated_at r)
         (case mid of
            None \<Rightarrow> db_plays db
          | Some m \<Rightarrow> if m = [] then db_plays db else filter (\<lambda>r. pw_manifest_id r = m) (db_plays db)))"

record campaign_analytics =
  ca_campaign_id :: string
  ca_campaign_name :: string
  ca_total_impressions :: nat
  ca_breakdown :: "(string \<times> nat) list"
  ca_window_start :: "rat option"
  ca_window_end :: "rat option"
  ca_avg_attention :: "rat option"

text \<open>The manifest_ids of a campaign, by the join of its links with the manifest rows.\<close>

definition campaign_manifest_ids :: "string \<Rightarrow> dashboard \<Rightarrow> string list" where
  "campaign_manifest_ids cid db =
     concat (map (\<lambda>l. map mr_manifest_id (filter (\<lambda>m. mr_id m = cl_manifest_id l) (db_manifests db)))
       (campaign_links cid db))"

definition plays_of :: "string \<Rightarrow> dashboard \<Rightarrow> play_row list" where
  "plays_of mid db = filter (\<lambda>r. pw_manifest_id r = mid) (db_plays db)"

definition get_campaign_analytics :: "string \<Rightarrow> dashboard \<Rightarrow> campaign_analytics res" where
  "get_campaign_analytics cid db =
     (case get_campaign_or_404 cid db of
        Inl e \<Rightarrow> Inl e
      | Inr c \<Rightarrow>
          let mids = campaign_manifest_ids cid db;
              breakdown = map (\<lambda>mid. (mid, length (plays_of mid db))) mids;
              impressions = sum_list (map snd breakdown);
              plays = filter (\<lambda>r. pw_manifest_id r \<in> set mids) (db_plays db)
          in Inr \<lparr>ca_campaign_id = cid, ca_campaign_name = cr_name c, ca_total_impressions = impressions,
               ca_breakdown = breakdown,
               ca_window_start = (if 0 < impressions
                 then map_option pw_activated_at (newest (\<lambda>r. - pw_activated_at r) plays) else None),
               ca_window_end = (if 0 < impressions
                 then map_option pw_activated_at (newest pw_activated_at plays) else None),
               ca_avg_attention = (if mids \<noteq> [] \<and> 0 < impressions
                 then rounded_mean4 (List.map_filter pw_attention_at_trigger plays) else None)\<rparr>)"

subsection \<open>Uptime\<close>

record uptime_summary =
  ut_sampled_at :: rat
  ut_total_probes :: nat
  ut_healthy_probes :: nat
  ut_uptime_pct :: "rat option"
  ut_slo_met :: "bool option"

definition slo_target_pct :: rat where
  "slo_target_pct = 995 / 10"

definition get_uptime_summary :: "rat \<Rightarrow> int \<Rightarrow> dashboard \<Rightarrow> uptime_summary res" where
  "get_uptime_summary now hours db =
     (if hours < 1 \<or> 720 < hours then Inl (HTTPException 422)
      else
        let rows = filter (\<lambda>r. now - of_int hours * 3600 \<le> up_sampled_at r) (db_uptime db);
            healthy = length (filter (\<lambda>r. up_player_status r = ''healthy'') rows);
            pct = py_round2 (of_nat healthy / of_nat (length rows) * 100)
        in if rows = []
           then Inr \<lparr>ut_sampled_at = now, ut_total_probes = 0, ut_healthy_probes = 0,
                  ut_uptime_pct = None, ut_slo_met = None\<rparr>
           else Inr \<lparr>ut_sampled_at = now, ut_total_probes = length rows, ut_healthy_probes = healthy,
                  ut_uptime_pct = Some pct, ut_slo_met = Some (slo_target_pct \<le> pct)\<rparr>)"

subsection \<open>Impressions of a campaign\<close>

lemma sum_length_filter:
  "distinct ks \<Longrightarrow> sum_list (map (\<lambda>k. length (filter (\<lambda>r. f r = k) xs)) ks) = length (filter (\<lambda>r. f r \<in> set ks) xs)"
proof (induction ks)
  case Nil
  then show ?case by simp
next
  case (Cons k ks)
  have "length (filter (\<lambda>r. f r = k) xs) + length (filter (\<lambda>r. f r \<in> set ks) xs) =
      length (filter (\<lambda>r. f r = k \<or> f r \<in> set ks) xs)"
    using Cons.prems by (induction xs) auto
  with Cons show ?case by simp
qed

lemma distinct_concat_keyed:
  "distinct ids \<Longrightarrow> (\<And>i. distinct (g i)) \<Longrightarrow> (\<And>i j x. x \<in> set (g i) \<Longrightarrow> x \<in> set (g j) \<Longrightarrow> i = j) \<Longrightarrow>
   distinct (concat (map g ids))"
  by (induction ids) auto

lemma campaign_manifest_ids_distinct:
  assumes rows: "rows_distinct db" and links: "links_distinct db"
  shows "distinct (campaign_manifest_ids cid db)"
proof -
  let ?g = "\<lambda>i. map mr_manifest_id (filter (\<lambda>m. mr_id m = i) (db_manifests db))"
  have inj: "inj_on mr_manifest_id (set (db_manifests db))"
    using rows by (simp add: rows_distinct_def distinct_map)
  have "distinct (map cl_manifest_id (campaign_links cid db))"
    using links by (auto simp: links_distinct_def campaign_links_def distinct_map inj_on_def)
  then have "distinct (concat (map ?g (map cl_manifest_id (campaign_links cid db))))"
  proof (rule distinct_concat_keyed)
    show "distinct (?g i)" for i using rows by (simp add: rows_distinct_def distinct_map_filter)
    show "i = j" if "x \<in> set (?g i)" "x \<in> set (?g j)" for i j x
      using that inj by (auto dest: inj_onD)
  qed
  then show ?thesis by (simp add: campaign_manifest_ids_def comp_def)
qed

lemma newest_min:
  "newest (\<lambda>r. - field r) rows = Some r \<Longrightarrow> r' \<in> set rows \<Longrightarrow> field r \<le> field r'"
  using newest_Some(2) [of "\<lambda>r. - field r" rows r r'] by simp

lemma campaign_impressions:
  assumes "get_campaign_analytics cid db = Inr out" "rows_distinct db" "links_distinct db"
  shows "ca_total_impressions out = length (filter (\<lambda>r. pw_manifest_id r \<in> set (campaign_manifest_ids cid db)) (db_plays db))"
    and "r \<in> set (db_plays db) \<Longrightarrow> pw_manifest_id r \<in> set (campaign_manifest_ids cid db) \<Longrightarrow>
      (\<exists>a b. ca_window_start out = Some a \<and> ca_window_end out = Some b \<and> a \<le> pw_activated_at r \<and> pw_activated_at r \<le> b)"
proof -
  let ?plays = "filter (\<lambda>r. pw_manifest_id r \<in> set (campaign_manifest_ids cid db)) (db_plays db)"
  have n: "sum_list (map (\<lambda>mid. length (plays_of mid db)) (campaign_manifest_ids cid db)) = length ?plays"
    unfolding plays_of_def by (rule sum_length_filter [OF campaign_manifest_ids_distinct [OF assms(2,3)]])
  from assms(1) show "ca_total_impressions out = length ?plays"
    by (auto simp: get_campaign_analytics_def Let_def comp_def n split: sum.splits)
  assume r: "r \<in> set (db_plays db)" "pw_manifest_id r \<in> set (campaign_manifest_ids cid db)"
  then have "r \<in> set ?plays" by simp
  then obtain a b where ab: "newest (\<lambda>r. - pw_activated_at r) ?plays = Some a" "newest pw_activated_at ?plays = Some b"
    by (cases "newest (\<lambda>r. - pw_activated_at r) ?plays"; cases "newest pw_activated_at ?plays")
      (auto simp: newest_None filter_empty_conv)
  from \<open>r \<in> set ?plays\<close> have "0 < length ?plays" by (cases ?plays) auto
  with assms(1) ab have "ca_window_start out = Some (pw_activated_at a)" "ca_window_end out = Some (pw_activated_at b)"
    by (auto simp: get_campaign_analytics_def Let_def comp_def n split: sum.splits)
  with newest_min [OF ab(1) \<open>r \<in> set ?plays\<close>] newest_Some(2) [OF ab(2) \<open>r \<in> set ?plays\<close>]
  show "\<exists>a b. ca_window_start out = Some a \<and> ca_window_end out = Some b \<and> a \<le> pw_activated_at r \<and> pw_activated_at r \<le> b"
    by simp
qed

lemma uptime_pct_bounds:
  assumes "get_uptime_summary now hours db = Inr out" "ut_uptime_pct out = Some p"
  shows "0 \<le> p \<and> p \<le> 100"
proof -
  let ?rows = "filter (\<lambda>r. now - of_int hours * 3600 \<le> up_sampled_at r) (db_uptime db)"
  let ?x = "of_nat (length (filter (\<lambda>r. up_player_status r = ''healthy'') ?rows)) / of_nat (length ?rows) * 100 :: rat"
  from assms have p: "p = py_round2 ?x" and ne: "?rows \<noteq> []"
    by (auto simp: get_uptime_summary_def Let_def split: if_splits)
  have le: "length (filter (\<lambda>r. up_player_status r = ''healthy'') ?rows) \<le> length ?rows" by (rule length_filter_le)
  have "(0::rat) < of_nat (length ?rows)" using ne by simp
  then have "0 \<le> ?x" "?x \<le> 100" using le by (simp_all add: divide_le_eq)
  then have "0 \<le> py_round (?x * 100)" "py_round (?x * 100) \<le> 10000"
    using py_round_ge [of 0 "?x * 100"] py_round_le [of "?x * 100" 10000] by simp_all
  then have "(of_int 0 :: rat) \<le> of_int (py_round (?x * 100))" "(of_int (py_round (?x * 100)) :: rat) \<le> of_int 10000"
    by (simp_all only: of_int_le_iff)
  then show ?thesis by (simp add: p py_round2_def)
qed

end
