(* ===== verification/Dedup.thy ===== *)
theory Dedup
  imports Prelude
begin

section \<open>Bounded histories of message identifiers\<close>

text \<open>
  Three services remember which message identifiers they have already handled, in an
  ordered \<open>dict[str, bool]\<close> that is cut to its newer half when it grows past
  \<open>_MAX_SEEN_IDS\<close>: the player's command handler (\<open>_record\<close>), the decision optimizer's
  signal consumer and the audience-state observation consumer (\<open>_record_id\<close>). The
  locale states what such a history promises to the code that consults it; each of the
  three component theories interprets it on its own definition.
\<close>

text \<open>
  The update the three services share: mark the identifier, and when the dictionary is
  then longer than the limit, rebuild it from the keys after the oldest half.
\<close>

definition mark_and_prune :: "nat \<Rightarrow> string \<Rightarrow> (string \<times> bool) list \<Rightarrow> (string \<times> bool) list" where
  "mark_and_prune limit i seen =
     (let seen' = AList.update i True seen
      in if length seen' > limit
         then map (\<lambda>k. (k, True)) (drop (limit div 2) (dict_keys seen'))
         else seen')"

lemma mark_and_prune_fresh:
  "i \<notin> set (dict_keys h) \<Longrightarrow>
   dict_keys (mark_and_prune limit i h) =
     (if length h < limit then dict_keys h @ [i] else drop (limit div 2) (dict_keys h @ [i]))"
  by (simp add: mark_and_prune_def dict_keys_def update_fresh Let_def comp_def)

lemma mark_and_prune_known:
  "dict_ok h \<Longrightarrow> length h \<le> limit \<Longrightarrow> i \<in> set (dict_keys h) \<Longrightarrow>
   dict_keys (mark_and_prune limit i h) = dict_keys h"
proof -
  assume "i \<in> set (dict_keys h)"
  then have k: "map fst (AList.update i True h) = map fst h"
    by (induction h) (auto simp: dict_keys_def)
  then have "length (AList.update i True h) = length h"
    by (metis length_map)
  moreover assume "length h \<le> limit"
  ultimately show ?thesis
    using k by (simp add: mark_and_prune_def dict_keys_def Let_def)
qed

text \<open>
  The interface: \<open>known\<close> lists the remembered identifiers, oldest first; recording a
  new one appends it and, at the limit, forgets the oldest \<open>limit div 2\<close>.
\<close>

locale bounded_history =
  fixes remember :: "string \<Rightarrow> 'h \<Rightarrow> 'h"
    and known :: "'h \<Rightarrow> string list"
    and limit :: nat
  assumes limit_pos: "2 \<le> limit"
    and remember_fresh: "i \<notin> set (known h) \<Longrightarrow>
      known (remember i h) =
        (if length (known h) < limit then known h @ [i] else drop (limit div 2) (known h @ [i]))"
begin

text \<open>One call per accepted message: known identifiers are not recorded again.\<close>

definition accept :: "string \<Rightarrow> 'h \<Rightarrow> 'h" where
  "accept i h = (if i \<in> set (known h) then h else remember i h)"

definition history_ok :: "'h \<Rightarrow> bool" where
  "history_ok h = (distinct (known h) \<and> length (known h) \<le> limit)"

lemma remember_ok:
  assumes "history_ok h" and "i \<notin> set (known h)"
  shows "history_ok (remember i h)"
  using assms limit_pos
  by (auto simp: history_ok_def remember_fresh distinct_drop dest: in_set_dropD)

lemma remember_newest_known:
  assumes "history_ok h" and "i \<notin> set (known h)"
  shows "i \<in> set (known (remember i h))"
proof (cases "length (known h) < limit")
  case True
  with assms show ?thesis by (simp add: remember_fresh)
next
  case False
  with assms limit_pos have "limit div 2 \<le> length (known h)" by (simp add: history_ok_def)
  with False assms show ?thesis by (simp add: remember_fresh)
qed

lemma accept_ok: "history_ok h \<Longrightarrow> history_ok (accept i h)"
  by (simp add: accept_def remember_ok)

lemma accept_known: "history_ok h \<Longrightarrow> i \<in> set (known (accept i h))"
  by (simp add: accept_def remember_newest_known)

lemma accept_subset: "set (known (accept i h)) \<subseteq> insert i (set (known h))"
  by (auto simp: accept_def remember_fresh dest: in_set_dropD)

lemma fold_accept_ok: "history_ok h \<Longrightarrow> history_ok (fold accept js h)"
  by (induction js arbitrary: h) (auto intro: accept_ok)

text \<open>
  A window of certain detection: an identifier is still known while at most
  \<open>limit - limit div 2 - 1\<close> other messages have been accepted after it.
\<close>

lemma accept_keeps_recent:
  assumes "history_ok h" and "known h = us @ i # vs" and "length vs + limit div 2 < limit"
  shows "\<exists>us' vs'. known (accept j h) = us' @ i # vs' \<and> length vs' \<le> Suc (length vs)"
proof (cases "j \<in> set (known h)")
  case True
  with assms(2) have "known (accept j h) = us @ i # vs" by (simp add: accept_def)
  then show ?thesis by (intro exI conjI) (assumption, simp)
next
  case fresh: False
  show ?thesis
  proof (cases "length (known h) < limit")
    case True
    with fresh assms(2) have "known (accept j h) = us @ i # (vs @ [j])"
      by (simp add: accept_def remember_fresh)
    then show ?thesis by (intro exI conjI) (assumption, simp)
  next
    case False
    with assms have "length us + Suc (length vs) = limit" by (simp add: history_ok_def)
    with assms(3) have "limit div 2 \<le> length us" by linarith
    with False fresh assms(2) have "known (accept j h) = drop (limit div 2) us @ i # (vs @ [j])"
      by (simp add: accept_def remember_fresh)
    then show ?thesis by (intro exI conjI) (assumption, simp)
  qed
qed

lemma recent_stay_known:
  assumes "history_ok h" and "known h = us @ i # vs"
    and "length vs + length js + limit div 2 \<le> limit"
  shows "i \<in> set (known (fold accept js h))"
  using assms
proof (induction js arbitrary: h us vs)
  case Nil
  then show ?case by simp
next
  case (Cons j js)
  then have "length vs + limit div 2 < limit" by simp
  then obtain us' vs' where k: "known (accept j h) = us' @ i # vs'"
      and l: "length vs' \<le> Suc (length vs)"
    using accept_keeps_recent [OF Cons.prems(1,2)] by blast
  from l Cons.prems(3) have "length vs' + length js + limit div 2 \<le> limit" by simp
  with Cons.IH [OF accept_ok [OF Cons.prems(1)] k] show ?case by simp
qed

lemma redelivery_detected:
  assumes "history_ok h" and "i \<notin> set (known h)" and "length js + limit div 2 \<le> limit"
  shows "i \<in> set (known (fold accept js (remember i h)))"
proof -
  have ok: "history_ok (remember i h)" using assms(1,2) by (rule remember_ok)
  have "\<exists>us. known (remember i h) = us @ [i]"
  proof (cases "length (known h) < limit")
    case True
    with assms(2) show ?thesis by (simp add: remember_fresh)
  next
    case False
    with limit_pos have "limit div 2 \<le> length (known h)" by linarith
    with False assms(2) show ?thesis by (simp add: remember_fresh)
  qed
  then obtain us where "known (remember i h) = us @ i # []" by auto
  with ok show ?thesis by (rule recent_stay_known) (use assms(3) in simp)
qed

end

end
