(* ===== verification/Reconnect.thy ===== *)
theory Reconnect
  imports Prelude
begin

section \<open>Reconnect backoff\<close>

text \<open>
  Every long-running client of the system (the player's WebSocket loop and MQTT task, the
  MQTT consumers of the decision optimizer, the audience-state service and the dashboard,
  the camera reader of input-cv) waits between connection attempts: a fixed delay after a
  success, doubled after each failure up to a cap. The locale states the interface, its
  lemmas hold for every client that interprets it.
\<close>

locale reconnect =
  fixes initial cap :: rat
    and next_backoff :: "rat \<Rightarrow> rat"
  assumes initial_pos: "0 < initial"
    and initial_le_cap: "initial \<le> cap"
    and next_backoff: "next_backoff b = min (b * 2) cap"
begin

definition in_range :: "rat \<Rightarrow> bool" where
  "in_range b \<longleftrightarrow> initial \<le> b \<and> b \<le> cap"

lemma initial_in_range: "in_range initial"
  by (simp add: in_range_def initial_le_cap)

lemma next_in_range: "in_range b \<Longrightarrow> in_range (next_backoff b)"
  using initial_pos initial_le_cap by (auto simp: in_range_def next_backoff min_def)

lemma next_mono: "in_range b \<Longrightarrow> b \<le> next_backoff b"
  using initial_pos by (auto simp: in_range_def next_backoff min_def)

lemma after_failures: "(next_backoff ^^ n) initial = min (initial * 2 ^ n) cap"
proof (induction n)
  case 0
  then show ?case using initial_le_cap by simp
next
  case (Suc n)
  have "0 < cap" using initial_pos initial_le_cap by linarith
  with Suc show ?case by (auto simp: next_backoff min_def mult.commute mult.left_commute)
qed

text \<open>From some failure on the delay is the cap.\<close>

lemma reaches_cap: "\<exists>n. \<forall>k \<ge> n. (next_backoff ^^ k) initial = cap"
proof -
  obtain n where "cap / initial < 2 ^ n"
    using real_arch_pow [of 2 "of_rat (cap / initial)"]
    by (metis of_rat_less of_rat_numeral_eq of_rat_power one_less_numeral_iff semiring_norm(76))
  then have n: "cap < initial * 2 ^ n"
    using initial_pos by (simp add: divide_less_eq mult.commute)
  have "cap \<le> initial * 2 ^ k" if "n \<le> k" for k
  proof -
    have "(2::rat) ^ n \<le> 2 ^ k" using that by (simp add: power_increasing)
    with n initial_pos show ?thesis
      by (meson dual_order.trans less_imp_le mult_le_cancel_left_pos)
  qed
  then show ?thesis by (intro exI [of _ n]) (simp add: after_failures min_absorb2)
qed

end

end
