(* ===== verification/SignalConsumer.thy ===== *)
theory SignalConsumer
  imports Policy Dedup Reconnect
begin

section \<open>Signal consumer (services/decision-optimizer/decision_optimizer/signal_consumer.py)\<close>

text \<open>
  Validation, deduplication and staleness of ICD-3 audience-state signals. The service
  keeps the validated JSON; \<open>signal_view\<close> reads from it the fields the policy and the
  decision loop use.
\<close>

definition signal_view :: "json \<Rightarrow> audience_signal" where
  "signal_view m =
     \<lparr>sg_message_id = (case jstr_opt (jget m ''message_id'') of Some i \<Rightarrow> i | None \<Rightarrow> []),
      sg_presence =
        (case (jpath m [''state'', ''presence'', ''count''], jpath m [''state'', ''presence'', ''confidence'']) of
           (Some c, Some f) \<Rightarrow> (case (jint c, jnum f) of (Some n, Some x) \<Rightarrow> Some (n, x) | _ \<Rightarrow> None)
         | _ \<Rightarrow> None),
      sg_attention =
        (case jpath m [''state'', ''attention''] of
           None \<Rightarrow> None
         | Some a \<Rightarrow> if a = JNull then None
             else Some (case jget a ''engaged'' of Some e \<Rightarrow> jnum e | None \<Rightarrow> None)),
      sg_demographics =
        (case jpath m [''state'', ''demographics''] of
           Some (JObj d) \<Rightarrow>
             Some \<lparr>dg_suppressed = map_option truthy (jget (JObj d) ''suppressed''),
               dg_age_group = num_block (JObj d) ''age_group'',
               dg_gender = num_block (JObj d) ''gender'', dg_attire = num_block (JObj d) ''attire''\<rparr>
         | _ \<Rightarrow> None),
      sg_pipeline_degraded = jtrue (jpath m [''source_quality'', ''pipeline_degraded'']),
      sg_freeze_decision = jtrue (jpath m [''state'', ''stability'', ''freeze_decision''])\<rparr>"

record signal_consumer =
  sc_latest :: "json option"
  sc_latest_received_at :: "rat option"
  sc_seen_ids :: "(string \<times> bool) list"
  sc_total_received :: nat
  sc_total_rejected :: nat

definition init_sc :: signal_consumer where
  "init_sc = \<lparr>sc_latest = None, sc_latest_received_at = None, sc_seen_ids = [],
     sc_total_received = 0, sc_total_rejected = 0\<rparr>"

definition sc_max_seen_ids :: nat where
  "sc_max_seen_ids = 5000"

definition sc_record_id :: "string \<Rightarrow> signal_consumer \<Rightarrow> signal_consumer" where
  "sc_record_id i sc = sc\<lparr>sc_seen_ids := mark_and_prune sc_max_seen_ids i (sc_seen_ids sc)\<rparr>"

definition sc_process :: "(json \<Rightarrow> string list) \<Rightarrow> rat \<Rightarrow> payload \<Rightarrow> signal_consumer
    \<Rightarrow> bool res \<times> signal_consumer" where
  "sc_process errs now raw sc =
     (case raw of
        NotJson \<Rightarrow> (Inr False, sc\<lparr>sc_total_rejected := sc_total_rejected sc + 1\<rparr>)
      | LoadsError e \<Rightarrow> (Inl e, sc)
      | Decoded msg \<Rightarrow>
          if \<not> schema_ok errs msg
          then (Inr False, sc\<lparr>sc_total_rejected := sc_total_rejected sc + 1\<rparr>)
          else (case jindex msg ''message_id'' of
                  Inl e \<Rightarrow> (Inl e, sc)
                | Inr v \<Rightarrow>
               (case jstr_opt (Some v) of
                  None \<Rightarrow> (Inl TypeError, sc)
                | Some message_id \<Rightarrow>
                    if message_id \<in> set (dict_keys (sc_seen_ids sc)) then (Inr False, sc)
                    else (Inr True,
                      (sc_record_id message_id sc)
                        \<lparr>sc_latest := Some msg, sc_latest_received_at := Some now,
                         sc_total_received := sc_total_received sc + 1\<rparr>))))"

definition signal_age_ms :: "rat \<Rightarrow> signal_consumer \<Rightarrow> int option" where
  "signal_age_ms now sc = map_option (\<lambda>t. py_int ((now - t) * 1000)) (sc_latest_received_at sc)"

definition latest_signal :: "signal_consumer \<Rightarrow> audience_signal option" where
  "latest_signal sc = map_option signal_view (sc_latest sc)"

interpretation sig_hist: bounded_history "mark_and_prune sc_max_seen_ids" dict_keys sc_max_seen_ids
proof (unfold_locales, goal_cases)
  case 1
  show ?case by (simp add: sc_max_seen_ids_def)
next
  case (2 i h)
  then show ?case by (simp add: mark_and_prune_fresh)
qed

text \<open>The MQTT task of main.py reconnects with this delay.\<close>

definition do_mqtt_next_backoff :: "rat \<Rightarrow> rat" where
  "do_mqtt_next_backoff b = min (b * 2) 30"

interpretation do_mqtt: reconnect 1 30 do_mqtt_next_backoff
  by unfold_locales (simp_all add: do_mqtt_next_backoff_def)

text \<open>The invariant of the consumer.\<close>

definition sc_inv :: "(json \<Rightarrow> string list) \<Rightarrow> signal_consumer \<Rightarrow> bool" where
  "sc_inv errs sc \<longleftrightarrow>
     sig_hist.history_ok (sc_seen_ids sc) \<and>
     (sc_latest sc = None \<longleftrightarrow> sc_latest_received_at sc = None) \<and>
     (case sc_latest sc of None \<Rightarrow> True | Some m \<Rightarrow> schema_ok errs m)"

lemma sc_inv_init [step_inv]: "sc_inv errs init_sc"
  by (simp add: sc_inv_def init_sc_def sig_hist.history_ok_def dict_keys_def)

lemma sc_inv_process [step_inv]: "sc_inv errs sc \<Longrightarrow> sc_inv errs (snd (sc_process errs now raw sc))"
  by (auto simp: sc_process_def sc_inv_def sc_record_id_def intro: sig_hist.remember_ok
      split: payload.splits option.splits sum.splits)

end
