(* ===== verification/AudienceState.thy ===== *)
theory AudienceState
  imports ObservationStore SignalConsumer
begin

section \<open>Audience-state service (observation_consumer.py, signal_publisher.py, main.py)\<close>

text \<open>
  Ingestion of ICD-2 observations into the window and publication of ICD-3 signals. The
  state is the window, the identifiers seen and the counters; \<open>obs_view\<close> reads the fields
  of a validated message that the window keeps using.
\<close>

subsection \<open>Observations\<close>

definition opt_block :: "json \<Rightarrow> string \<Rightarrow> (string \<times> rat) list option" where
  "opt_block d k = (case jget d k of None \<Rightarrow> None | Some v \<Rightarrow> if v = JNull then None else Some (num_block d k))"

definition obs_view :: "json \<Rightarrow> observation" where
  "obs_view m =
     \<lparr>ob_present = (case jpath m [''counts'', ''present''] of
         Some j \<Rightarrow> (case jint j of Some n \<Rightarrow> n | None \<Rightarrow> 0) | None \<Rightarrow> 0),
      ob_confidence = (case jpath m [''counts'', ''confidence''] of
         Some j \<Rightarrow> (case jnum j of Some x \<Rightarrow> x | None \<Rightarrow> 0) | None \<Rightarrow> 0),
      ob_pipeline_degraded = jtrue (jpath m [''quality'', ''pipeline_degraded'']),
      ob_demographics =
        (case jget m ''demographics'' of
           None \<Rightarrow> None
         | Some d \<Rightarrow> if d = JNull then None
             else Some \<lparr>od_age_group = num_block d ''age_group'', od_gender = opt_block d ''gender'',
               od_attire = opt_block d ''attire'',
               od_dwell_estimate_ms = (case jget d ''dwell_estimate_ms'' of Some j \<Rightarrow> jint j | None \<Rightarrow> None)\<rparr>),
      ob_attention = opt_block m ''attention''\<rparr>"

record observation_consumer =
  oc_window :: obs_window
  oc_seen_ids :: "(string \<times> bool) list"
  oc_total_received :: nat
  oc_total_rejected :: nat

definition init_oc :: "obs_window \<Rightarrow> observation_consumer" where
  "init_oc w = \<lparr>oc_window = w, oc_seen_ids = [], oc_total_received = 0, oc_total_rejected = 0\<rparr>"

definition oc_max_seen_ids :: nat where
  "oc_max_seen_ids = 5000"

definition oc_record_id :: "string \<Rightarrow> observation_consumer \<Rightarrow> observation_consumer" where
  "oc_record_id i oc = oc\<lparr>oc_seen_ids := mark_and_prune oc_max_seen_ids i (oc_seen_ids oc)\<rparr>"

definition oc_process :: "(json \<Rightarrow> string list) \<Rightarrow> rat \<Rightarrow> payload \<Rightarrow> observation_consumer
    \<Rightarrow> bool res \<times> observation_consumer" where
  "oc_process errs now raw oc =
     (case raw of
        NotJson \<Rightarrow> (Inr False, oc\<lparr>oc_total_rejected := oc_total_rejected oc + 1\<rparr>)
      | LoadsError e \<Rightarrow> (Inl e, oc)
      | Decoded msg \<Rightarrow>
          if \<not> schema_ok errs msg
          then (Inr False, oc\<lparr>oc_total_rejected := oc_total_rejected oc + 1\<rparr>)
          else (case jindex msg ''message_id'' of
                  Inl e \<Rightarrow> (Inl e, oc)
                | Inr v \<Rightarrow>
               (case jstr_opt (Some v) of
                  None \<Rightarrow> (Inl TypeError, oc)
                | Some message_id \<Rightarrow>
                    if message_id \<in> set (dict_keys (oc_seen_ids oc)) then (Inr False, oc)
                    else (Inr True,
                      (oc_record_id message_id oc)
                        \<lparr>oc_window := ow_add now (obs_view msg) (oc_window oc),
                         oc_total_received := oc_total_received oc + 1\<rparr>))))"

record oc_status_dict =
  os_total_received :: nat
  os_total_rejected :: nat
  os_observations_in_window :: nat

definition oc_status :: "rat \<Rightarrow> observation_consumer \<Rightarrow> oc_status_dict \<times> observation_consumer" where
  "oc_status now oc =
     (let (n, w) = observation_count now (oc_window oc)
      in (\<lparr>os_total_received = oc_total_received oc, os_total_rejected = oc_total_rejected oc,
           os_observations_in_window = n\<rparr>, oc\<lparr>oc_window := w\<rparr>))"

interpretation obs_hist: bounded_history "mark_and_prune oc_max_seen_ids" dict_keys oc_max_seen_ids
proof (unfold_locales, goal_cases)
  case 1
  show ?case by (simp add: oc_max_seen_ids_def)
next
  case (2 i h)
  then show ?case by (simp add: mark_and_prune_fresh)
qed

subsection \<open>Building a signal\<close>

record as_config =
  ac_tenant_id :: string
  ac_site_id :: string
  ac_camera_id :: string

definition num_obj :: "(string \<times> rat) list \<Rightarrow> json" where
  "num_obj d = JObj (map (\<lambda>(k, v). (k, JFloat v)) d)"

definition state_json :: "state_block \<Rightarrow> (string \<times> json) list" where
  "state_json sb =
     [(''presence'', JObj [(''count'', JInt (sb_count sb)), (''confidence'', JFloat (sb_confidence sb))]),
      (''stability'', JObj [(''state_stable'', JBool (sb_state_stable sb)),
         (''freeze_decision'', JBool (sb_freeze_decision sb)),
         (''observations_in_window'', JInt (int (sb_observations_in_window sb)))])]"

fun demographics_json :: "demographics_block \<Rightarrow> json" where
  "demographics_json Suppressed = JObj [(''suppressed'', JBool True)]"
| "demographics_json (Demographics ages genders attire dwell) =
     JObj ([(''age_group'', num_obj ages), (''suppressed'', JBool False)] @
       (case genders of None \<Rightarrow> [] | Some g \<Rightarrow> [(''gender'', num_obj g)]) @
       (case attire of None \<Rightarrow> [] | Some a \<Rightarrow> [(''attire'', num_obj a)]) @
       (case dwell of None \<Rightarrow> [] | Some n \<Rightarrow> [(''dwell_estimate_ms'', JInt n)]))"

definition signal_json :: "as_config \<Rightarrow> string \<Rightarrow> string \<Rightarrow> state_block \<Rightarrow> demographics_block option
    \<Rightarrow> (string \<times> rat) list option \<Rightarrow> int \<Rightarrow> bool \<Rightarrow> json" where
  "signal_json cfg message_id produced_at sb demog attn age_ms degraded =
     JObj [(''schema_version'', JStr ''1.0.0''), (''message_type'', JStr ''audience_state_signal''),
       (''message_id'', JStr message_id), (''produced_at'', JStr produced_at),
       (''tenant_id'', JStr (ac_tenant_id cfg)), (''site_id'', JStr (ac_site_id cfg)),
       (''camera_id'', JStr (ac_camera_id cfg)),
       (''state'', JObj (state_json sb @
          (case demog of None \<Rightarrow> [] | Some d \<Rightarrow> [(''demographics'', demographics_json d)]) @
          (case attn of None \<Rightarrow> [] | Some a \<Rightarrow> [(''attention'', num_obj a)]))),
       (''source_quality'', JObj [(''signal_age_ms'', JInt age_ms),
          (''pipeline_degraded'', JBool degraded), (''observations_dropped'', JInt 0)]),
       (''privacy'', JObj [(''contains_images'', JBool False), (''contains_frame_urls'', JBool False),
          (''contains_face_embeddings'', JBool False)])]"

record signal_publisher =
  sp_published :: nat
  sp_validation_failures :: nat

text \<open>\<open>build_signal\<close>; the uuid and the timestamp are arguments.\<close>

definition build_signal :: "(json \<Rightarrow> string list) \<Rightarrow> as_config \<Rightarrow> string \<Rightarrow> string \<Rightarrow> rat
    \<Rightarrow> obs_window \<times> signal_publisher \<Rightarrow> json option res \<times> (obs_window \<times> signal_publisher)" where
  "build_signal errs cfg message_id produced_at now w0 =
     (let (win0, sp) = w0; (state, win) = compute_state now win0 in
      case state of
        Inl e \<Rightarrow> (Inl e, (win, sp))
      | Inr None \<Rightarrow> (Inr None, (win, sp))
      | Inr (Some sb) \<Rightarrow>
          (let age_ms = (case fst (newest_observation_age_ms now win) of Some a \<Rightarrow> a | None \<Rightarrow> 0);
               degraded = fst (any_pipeline_degraded now win);
               demog = fst (compute_demographics now win);
               attn = fst (compute_attention now win);
               sig = signal_json cfg message_id produced_at sb demog attn age_ms degraded
           in if errs sig \<noteq> []
              then (Inr None, (win, sp\<lparr>sp_validation_failures := sp_validation_failures sp + 1\<rparr>))
              else (Inr (Some sig), (win, sp))))"

text \<open>\<open>publish\<close>: every exception of the client is caught and answered \<open>False\<close>.\<close>

definition sp_publish :: "bool \<Rightarrow> signal_publisher \<Rightarrow> bool \<times> signal_publisher" where
  "sp_publish sends sp =
     (if sends then (True, sp\<lparr>sp_published := sp_published sp + 1\<rparr>) else (False, sp))"

subsection \<open>The publish loop\<close>

text \<open>
  \<open>_run_publish_loop\<close> as a machine: connecting may fail, a round on a connection builds
  and publishes. \<open>pl_conn\<close> is the connection number in use; the broker forgets a
  connection when \<open>broken\<close> says so, after which every publish on it fails. An exception of
  \<open>build_signal\<close> is no \<open>MqttError\<close>: it leaves the loop and is left in \<open>pp_raised\<close>.
\<close>

record publish_loop =
  pp_conn :: "nat option"
  pp_next_conn :: nat
  pp_backoff :: rat
  pp_window :: obs_window
  pp_publisher :: signal_publisher
  pp_sent :: "(nat \<times> json) list"
  pp_raised :: "py_error option"

datatype publish_event =
    PubConnected
  | PubConnectFailed
  | PubRound rat string string

definition as_next_backoff :: "rat \<Rightarrow> rat" where
  "as_next_backoff b = min (b * 2) 30"

interpretation as_mqtt: reconnect 1 30 as_next_backoff
  by unfold_locales (simp_all add: as_next_backoff_def)

fun publish_step :: "(json \<Rightarrow> string list) \<Rightarrow> as_config \<Rightarrow> (nat \<Rightarrow> rat \<Rightarrow> bool) \<Rightarrow> publish_event
    \<Rightarrow> publish_loop \<Rightarrow> publish_loop" where
  "publish_step errs cfg broken PubConnected s =
     (if pp_conn s = None
      then s\<lparr>pp_conn := Some (pp_next_conn s), pp_next_conn := pp_next_conn s + 1, pp_backoff := 1\<rparr>
      else s)"
| "publish_step errs cfg broken PubConnectFailed s =
     (if pp_conn s = None then s\<lparr>pp_backoff := as_next_backoff (pp_backoff s)\<rparr> else s)"
| "publish_step errs cfg broken (PubRound now message_id produced_at) s =
     (case (if pp_raised s = None then pp_conn s else None) of
        None \<Rightarrow> s
      | Some c \<Rightarrow>
          (let (sig, (win, sp)) = build_signal errs cfg message_id produced_at now (pp_window s, pp_publisher s);
               s' = s\<lparr>pp_window := win, pp_publisher := sp\<rparr>
           in case sig of
                Inl e \<Rightarrow> s'\<lparr>pp_raised := Some e\<rparr>
              | Inr None \<Rightarrow> s'
              | Inr (Some m) \<Rightarrow>
                  (let (ok, sp') = sp_publish (\<not> broken c now) sp
                   in s'\<lparr>pp_publisher := sp', pp_sent := (if ok then pp_sent s @ [(c, m)] else pp_sent s)\<rparr>)))"

subsection \<open>Properties\<close>

lemma publish_step_conn:
  "pp_conn s = Some c \<Longrightarrow> pp_conn (publish_step errs cfg broken e s) = Some c"
  by (cases e) (auto simp: Let_def split: prod.split sum.split option.split)

lemma publish_step_broken:
  "pp_conn s = Some c \<Longrightarrow> (\<And>t. broken c t) \<Longrightarrow> pp_sent (publish_step errs cfg broken e s) = pp_sent s"
  by (cases e) (auto simp: sp_publish_def Let_def split: prod.split sum.split option.split)

text \<open>
  C36. The publish loop does not recover from a lost broker connection: \<open>publish\<close> answers
  every client error with \<open>False\<close>, so the \<open>MqttError\<close> branch with its backoff is never
  reached from a round. Once the connection in use is broken, no later event publishes
  anything or opens another connection.
\<close>

theorem publish_loop_never_reconnects:
  assumes "pp_conn s = Some c" and "\<And>t. broken c t"
  shows "pp_conn (fold (publish_step errs cfg broken) es s) = Some c \<and>
    pp_sent (fold (publish_step errs cfg broken) es s) = pp_sent s \<and>
    pp_next_conn (fold (publish_step errs cfg broken) es s) = pp_next_conn s"
  using assms(1)
proof (induction es arbitrary: s)
  case Nil
  then show ?case by simp
next
  case (Cons e es)
  have "pp_next_conn (publish_step errs cfg broken e s) = pp_next_conn s"
    using Cons.prems by (cases e) (auto simp: Let_def split: prod.split sum.split option.split)
  moreover have "pp_sent (publish_step errs cfg broken e s) = pp_sent s"
    using Cons.prems assms(2) by (rule publish_step_broken)
  ultimately show ?case
    using Cons.IH [OF publish_step_conn [OF Cons.prems, of errs cfg broken e]] by simp
qed

theorem publish_loop_never_reconnects_witness:
  "pp_sent (fold (publish_step (\<lambda>_. []) \<lparr>ac_tenant_id = ''t'', ac_site_id = ''s'', ac_camera_id = ''c''\<rparr> (\<lambda>c t. c = 0))
     [PubRound 10 ''i1'' ''p'', PubConnected, PubRound 11 ''i2'' ''p'']
     \<lparr>pp_conn = Some 0, pp_next_conn = 1, pp_backoff = 1, pp_window = demo_window,
      pp_publisher = \<lparr>sp_published = 0, sp_validation_failures = 0\<rparr>, pp_sent = [], pp_raised = None\<rparr>) = []"
  using publish_loop_never_reconnects [of "\<lparr>pp_conn = Some 0, pp_next_conn = 1, pp_backoff = 1,
      pp_window = demo_window, pp_publisher = \<lparr>sp_published = 0, sp_validation_failures = 0\<rparr>, pp_sent = [], pp_raised = None\<rparr>" 0
      "\<lambda>c t. c = 0" "\<lambda>_. []" "\<lparr>ac_tenant_id = ''t'', ac_site_id = ''s'', ac_camera_id = ''c''\<rparr>"
      "[PubRound 10 ''i1'' ''p'', PubConnected, PubRound 11 ''i2'' ''p'']"]
  by (simp del: publish_step.simps)

text \<open>The demographics the decision optimizer sees for a published block.\<close>

fun block_view :: "demographics_block \<Rightarrow> demographics" where
  "block_view Suppressed = \<lparr>dg_suppressed = Some True, dg_age_group = [], dg_gender = [], dg_attire = []\<rparr>"
| "block_view (Demographics ages genders attire dwell) =
     \<lparr>dg_suppressed = Some False, dg_age_group = ages,
      dg_gender = (case genders of Some g \<Rightarrow> g | None \<Rightarrow> []),
      dg_attire = (case attire of Some a \<Rightarrow> a | None \<Rightarrow> [])\<rparr>"

lemma map_filter_floats:
  "List.map_filter (\<lambda>(n, v). map_option (Pair n) (jnum v)) (map (\<lambda>(k, v). (k, JFloat v)) b) = b"
  by (induction b) (auto simp: List.map_filter_simps)

text \<open>
  C37. Round trip over the broker: the signal the decision optimizer reads from a message
  built here has the smoothed count and confidence, the freeze decision and the pipeline
  flag of the state block, the attention value, and the demographics block with its
  suppression flag.
\<close>

theorem signal_roundtrip:
  "signal_view (signal_json cfg message_id produced_at sb demog attn age_ms degraded) =
     \<lparr>sg_message_id = message_id, sg_presence = Some (sb_count sb, sb_confidence sb),
      sg_attention = map_option (\<lambda>a. map_of a ''engaged'') attn,
      sg_demographics = map_option block_view demog,
      sg_pipeline_degraded = degraded, sg_freeze_decision = sb_freeze_decision sb\<rparr>"
proof -
  have e: "(case map_of (map (\<lambda>(k, v). (k, JFloat v)) a) f of Some e \<Rightarrow> jnum e | None \<Rightarrow> None) = map_of a f"
    for a :: "(string \<times> rat) list" and f
    by (induction a) auto
  show ?thesis
  proof (cases demog)
    case None
    then show ?thesis
      by (cases attn)
        (simp_all add: signal_view_def signal_json_def state_json_def jtrue_def num_obj_def e)
  next
    case (Some d)
    show ?thesis
    proof (cases d)
      case Suppressed
      with Some show ?thesis
        by (cases attn)
          (simp_all add: signal_view_def signal_json_def state_json_def jtrue_def num_obj_def e num_block_def)
    next
      case (Demographics ages genders attire dwell)
      with Some show ?thesis
        by (cases attn; cases genders; cases attire; cases dwell)
          (simp_all add: signal_view_def signal_json_def state_json_def jtrue_def num_block_def num_obj_def e map_filter_floats)
    qed
  qed
qed

end
