(* ===== verification/Sinks.thy ===== *)
theory Sinks
  imports SystemApi AudienceState
begin

section \<open>Analytics sinks (audience_sink.py, play_event_sink.py, uptime_sink.py)\<close>

text \<open>
  The background tasks of the dashboard that turn broker messages and probes into rows. The
  payload of a message is the decoded JSON, \<open>None\<close> when decoding raises. \<open>parse_int\<close> and
  \<open>parse_float\<close> are what \<open>int\<close> and \<open>float\<close> make of a string. A row is committed when the
  database accepts its columns (a number for a float column, a boolean for a boolean one, an
  aware timestamp) and the commit succeeds; otherwise the error is logged and it is lost.
\<close>

subsection \<open>Parsing a signal\<close>

text \<open>\<open>d.get(k, v)\<close> on a value that may be no dictionary.\<close>

definition jget_default :: "json \<Rightarrow> string \<Rightarrow> json \<Rightarrow> json res" where
  "jget_default d k v = (if is_obj d then Inr (get_or d k v) else Inl AttributeError)"

definition iso_field :: "iso_parser \<Rightarrow> json \<Rightarrow> py_datetime res" where
  "iso_field fromiso j =
     (case j of
        JStr s \<Rightarrow> (case fromiso (replace_z s) of Inl _ \<Rightarrow> Inl ValueError | Inr t \<Rightarrow> Inr t)
      | _ \<Rightarrow> Inl AttributeError)"

text \<open>\<open>bins.get(name) if bins else None\<close> for the columns of a group, the NULL ones left out.\<close>

definition bin_columns :: "string list \<Rightarrow> json \<Rightarrow> (string \<times> json) list res" where
  "bin_columns names bins =
     (if \<not> truthy bins then Inr []
      else if \<not> is_obj bins then Inl AttributeError
      else Inr (List.map_filter (\<lambda>k. case jget bins k of
                  None \<Rightarrow> None | Some v \<Rightarrow> if v = JNull then None else Some (k, v)) names))"

definition privacy_flags :: "string list" where
  "privacy_flags = [''contains_images'', ''contains_frame_urls'', ''contains_face_embeddings'']"

definition privacy_violated :: "json \<Rightarrow> bool res" where
  "privacy_violated msg =
     res_bind (jget_default msg ''privacy'' (JObj [])) (\<lambda>privacy.
       if \<not> is_obj privacy then Inl AttributeError
       else Inr (list_ex (\<lambda>f. truthy (get_or privacy f (JBool False))) privacy_flags))"

record parsed_snapshot =
  px_sampled_at :: py_datetime
  px_presence_count :: int
  px_presence_confidence :: rat
  px_state_stable :: bool
  px_pipeline_degraded :: bool
  px_demographics_suppressed :: json
  px_age_group :: "(string \<times> json) list"
  px_gender :: "(string \<times> json) list"
  px_attire :: "(string \<times> json) list"
  px_attention_engaged :: "rat option"

definition snapshot_fields :: "(string \<Rightarrow> rat option) \<Rightarrow> (string \<Rightarrow> rat option) \<Rightarrow> iso_parser \<Rightarrow> json
    \<Rightarrow> parsed_snapshot res" where
  "snapshot_fields parse_int parse_float fromiso msg =
     res_bind (jindex msg ''state'') (\<lambda>state.
     res_bind (jindex state ''presence'') (\<lambda>presence.
     res_bind (jget_default state ''stability'' (JObj [])) (\<lambda>stability.
     res_bind (jget_default msg ''source_quality'' (JObj [])) (\<lambda>source_quality.
     res_bind (iso_field fromiso (get_or msg ''produced_at'' (JStr []))) (\<lambda>sampled_at.
     res_bind (jget_default state ''demographics'' (JObj [])) (\<lambda>demographics.
     res_bind (jget_default demographics ''suppressed'' (JBool True)) (\<lambda>supp.
     let block = (\<lambda>k. if truthy supp then JObj [] else get_or demographics k (JObj []));
         attention_block = jget_or_empty state ''attention'' in
     res_bind (jget_default attention_block ''engaged'' JNull) (\<lambda>engaged.
     res_bind (res_bind (jindex presence ''count'') (py_int_of parse_int)) (\<lambda>count.
     res_bind (res_bind (jindex presence ''confidence'') (py_float parse_float)) (\<lambda>confidence.
     res_bind (jget_default stability ''state_stable'' (JBool False)) (\<lambda>stable.
     res_bind (jget_default source_quality ''pipeline_degraded'' (JBool False)) (\<lambda>degraded.
     res_bind (bin_columns age_bins (block ''age_group'')) (\<lambda>ages.
     res_bind (bin_columns gender_bins (block ''gender'')) (\<lambda>genders.
     res_bind (bin_columns attire_bins (block ''attire'')) (\<lambda>attires.
     res_bind (if engaged = JNull then Inr None
               else res_bind (py_float parse_float engaged) (\<lambda>x. Inr (Some x))) (\<lambda>attention.
     Inr \<lparr>px_sampled_at = sampled_at, px_presence_count = count, px_presence_confidence = confidence,
          px_state_stable = truthy stable, px_pipeline_degraded = truthy degraded,
          px_demographics_suppressed = supp, px_age_group = ages, px_gender = genders,
          px_attire = attires, px_attention_engaged = attention\<rparr>))))))))))))))))"

text \<open>\<open>except (KeyError, TypeError, ValueError)\<close>: the message is dropped; anything else escapes.\<close>

definition drop_malformed :: "'a res \<Rightarrow> 'a option res" where
  "drop_malformed r =
     (case r of
        Inr v \<Rightarrow> Inr (Some v)
      | Inl e \<Rightarrow> (case e of KeyError _ \<Rightarrow> Inr None | TypeError \<Rightarrow> Inr None | ValueError \<Rightarrow> Inr None | _ \<Rightarrow> Inl e))"

definition parse_snapshot :: "(string \<Rightarrow> rat option) \<Rightarrow> (string \<Rightarrow> rat option) \<Rightarrow> iso_parser \<Rightarrow> payload
    \<Rightarrow> parsed_snapshot option res" where
  "parse_snapshot parse_int parse_float fromiso payload =
     (case payload of
        NotJson \<Rightarrow> Inr None
      | LoadsError e \<Rightarrow> Inl e
      | Decoded msg \<Rightarrow>
          res_bind (privacy_violated msg) (\<lambda>violated.
            if violated then Inr None
            else drop_malformed (snapshot_fields parse_int parse_float fromiso msg)))"

subsection \<open>Committing rows\<close>

definition float_columns :: "(string \<times> json) list \<Rightarrow> (string \<times> rat) list option" where
  "float_columns cols =
     (if list_all (\<lambda>(k, v). jnum v \<noteq> None) cols
      then Some (map (\<lambda>(k, v). (k, the (jnum v))) cols) else None)"

definition bool_column :: "json \<Rightarrow> bool option" where
  "bool_column j =
     (case j of
        JBool b \<Rightarrow> Some b
      | JInt n \<Rightarrow> if n = 0 then Some False else if n = 1 then Some True else None
      | _ \<Rightarrow> None)"

definition snapshot_of :: "parsed_snapshot \<Rightarrow> snapshot_row option" where
  "snapshot_of p =
     (case (utc_instant (px_sampled_at p), bool_column (px_demographics_suppressed p),
            float_columns (px_age_group p), float_columns (px_gender p), float_columns (px_attire p)) of
        (Inr t, Some supp, Some ages, Some genders, Some attires) \<Rightarrow>
          Some \<lparr>sn_sampled_at = t, sn_presence_count = px_presence_count p,
            sn_presence_confidence = px_presence_confidence p, sn_state_stable = px_state_stable p,
            sn_pipeline_degraded = px_pipeline_degraded p, sn_demographics_suppressed = supp,
            sn_age_group = ages, sn_gender = genders, sn_attire = attires,
            sn_attention_engaged = px_attention_engaged p\<rparr>
      | _ \<Rightarrow> None)"

text \<open>One message of the audience sink; an exception is one that leaves the message loop.\<close>

definition audience_message :: "(string \<Rightarrow> rat option) \<Rightarrow> (string \<Rightarrow> rat option) \<Rightarrow> iso_parser
    \<Rightarrow> bool \<times> payload \<Rightarrow> dashboard \<Rightarrow> unit res \<times> dashboard" where
  "audience_message parse_int parse_float fromiso m db =
     (case m of (commit_ok, payload) \<Rightarrow>
        case parse_snapshot parse_int parse_float fromiso payload of
          Inl e \<Rightarrow> (Inl e, db)
        | Inr None \<Rightarrow> (Inr (), db)
        | Inr (Some p) \<Rightarrow>
            (case snapshot_of p of
               None \<Rightarrow> (Inr (), db)
             | Some row \<Rightarrow> (Inr (), if commit_ok then db\<lparr>db_snapshots := db_snapshots db @ [row]\<rparr> else db)))"

subsection \<open>Play events\<close>

text \<open>\<open>str(v)\<close> of a decoded value; \<open>repr\<close> is what it makes of floats, lists and dictionaries.\<close>

definition py_str :: "(json \<Rightarrow> string) \<Rightarrow> json \<Rightarrow> string" where
  "py_str repr j =
     (case j of
        JStr s \<Rightarrow> s
      | JNull \<Rightarrow> ''None''
      | JBool b \<Rightarrow> (if b then ''True'' else ''False'')
      | JInt n \<Rightarrow> show_int n
      | _ \<Rightarrow> repr j)"

record parsed_play =
  py_manifest_id :: string
  py_activated_at :: py_datetime
  py_reason :: "string option"
  py_prev_manifest_id :: "string option"

definition opt_str_field :: "(json \<Rightarrow> string) \<Rightarrow> nat \<Rightarrow> json \<Rightarrow> string \<Rightarrow> string option" where
  "opt_str_field repr n msg k =
     (case jget msg k of
        None \<Rightarrow> None
      | Some v \<Rightarrow> if truthy v then Some (take n (py_str repr v)) else None)"

definition parse_play_event :: "(json \<Rightarrow> string) \<Rightarrow> iso_parser \<Rightarrow> payload \<Rightarrow> parsed_play option res" where
  "parse_play_event repr fromiso payload =
     (case payload of
        NotJson \<Rightarrow> Inr None
      | LoadsError e \<Rightarrow> Inl e
      | Decoded msg \<Rightarrow> drop_malformed (
          res_bind (res_bind (jindex msg ''activated_at'') (iso_field fromiso)) (\<lambda>activated_at.
          res_bind (jindex msg ''manifest_id'') (\<lambda>mid.
          Inr \<lparr>py_manifest_id = take 128 (py_str repr mid), py_activated_at = activated_at,
               py_reason = opt_str_field repr 256 msg ''reason'',
               py_prev_manifest_id = opt_str_field repr 128 msg ''prev_manifest_id''\<rparr>))))"

definition attention_lookup_window_s :: rat where
  "attention_lookup_window_s = 5"

definition lookup_attention_at_trigger :: "rat \<Rightarrow> dashboard \<Rightarrow> rat option" where
  "lookup_attention_at_trigger activated_at db =
     (case newest sn_sampled_at
        (filter (\<lambda>r. activated_at - attention_lookup_window_s \<le> sn_sampled_at r \<and> sn_sampled_at r \<le> activated_at)
           (db_snapshots db)) of
        None \<Rightarrow> None
      | Some r \<Rightarrow> sn_attention_engaged r)"

definition play_message :: "(json \<Rightarrow> string) \<Rightarrow> iso_parser \<Rightarrow> bool \<times> rat \<times> payload \<Rightarrow> dashboard
    \<Rightarrow> unit res \<times> dashboard" where
  "play_message repr fromiso m db =
     (case m of (commit_ok, now, payload) \<Rightarrow>
        case parse_play_event repr fromiso payload of
          Inl e \<Rightarrow> (Inl e, db)
        | Inr None \<Rightarrow> (Inr (), db)
        | Inr (Some p) \<Rightarrow>
            (case utc_instant (py_activated_at p) of
               Inl _ \<Rightarrow> (Inr (), db)
             | Inr t \<Rightarrow>
                 let row = \<lparr>pw_manifest_id = py_manifest_id p, pw_activated_at = t, pw_reason = py_reason p,
                       pw_prev_manifest_id = py_prev_manifest_id p,
                       pw_attention_at_trigger = lookup_attention_at_trigger t db, pw_received_at = now\<rparr>
                 in (Inr (), if commit_ok then db\<lparr>db_plays := db_plays db @ [row]\<rparr> else db)))"

subsection \<open>Uptime probes\<close>

definition uptime_statuses :: "http_answer \<Rightarrow> string \<times> string" where
  "uptime_statuses answer =
     (case answer of
        Answered status _ \<Rightarrow> if status = 200 then (''healthy'', ''healthy'') else (''unhealthy'', ''degraded'')
      | _ \<Rightarrow> (''unreachable'', ''critical''))"

definition uptime_message :: "bool \<times> rat \<times> http_answer \<Rightarrow> dashboard \<Rightarrow> unit res \<times> dashboard" where
  "uptime_message m db =
     (case m of (commit_ok, now, answer) \<Rightarrow>
        let (player, overall) = uptime_statuses answer;
            row = \<lparr>up_sampled_at = now, up_player_status = player, up_overall_status = overall\<rparr>
        in (Inr (), if commit_ok then db\<lparr>db_uptime := db_uptime db @ [row]\<rparr> else db))"

subsection \<open>The subscription loop\<close>

text \<open>
  Both MQTT sinks run the same loop: a connection resets the backoff; a broker error, or an
  exception that leaves the handling of a message, closes the connection and doubles it.
\<close>

datatype 'm sink_event = SinkConnected | SinkMessage 'm | SinkFailed

record sink_loop =
  sl_connected :: bool
  sl_backoff :: rat

definition sink_initial_backoff :: rat where "sink_initial_backoff = 2"
definition sink_max_backoff :: rat where "sink_max_backoff = 60"

definition sink_next_backoff :: "rat \<Rightarrow> rat" where
  "sink_next_backoff b = min (b * 2) sink_max_backoff"

interpretation sink_mqtt: reconnect sink_initial_backoff sink_max_backoff sink_next_backoff
  by unfold_locales (simp_all add: sink_initial_backoff_def sink_max_backoff_def sink_next_backoff_def)

fun sink_step :: "('m \<Rightarrow> dashboard \<Rightarrow> unit res \<times> dashboard) \<Rightarrow> 'm sink_event \<Rightarrow> sink_loop \<times> dashboard
    \<Rightarrow> sink_loop \<times> dashboard" where
  "sink_step handle SinkConnected (sl, db) =
     (if sl_connected sl then sl else \<lparr>sl_connected = True, sl_backoff = sink_initial_backoff\<rparr>, db)"
| "sink_step handle (SinkMessage m) (sl, db) =
     (if \<not> sl_connected sl then (sl, db)
      else case handle m db of
        (Inl e, db') \<Rightarrow> (\<lparr>sl_connected = False, sl_backoff = sink_next_backoff (sl_backoff sl)\<rparr>, db')
      | (Inr _, db') \<Rightarrow> (sl, db'))"
| "sink_step handle SinkFailed (sl, db) =
     (\<lparr>sl_connected = False, sl_backoff = sink_next_backoff (sl_backoff sl)\<rparr>, db)"

definition sink_run :: "('m \<Rightarrow> dashboard \<Rightarrow> unit res \<times> dashboard) \<Rightarrow> 'm sink_event list \<Rightarrow> dashboard \<Rightarrow> dashboard" where
  "sink_run handle es db =
     snd (fold (sink_step handle) es (\<lparr>sl_connected = False, sl_backoff = sink_initial_backoff\<rparr>, db))"

text \<open>The contract of a sink: it only appends rows of its kind to its table.\<close>

locale row_sink =
  fixes handle :: "'m \<Rightarrow> dashboard \<Rightarrow> unit res \<times> dashboard"
    and table :: "dashboard \<Rightarrow> 'r list"
    and good :: "'r \<Rightarrow> bool"
  assumes appends: "\<exists>rs. table (snd (handle m db)) = table db @ rs \<and> list_all good rs"
begin

lemma step_appends:
  "\<exists>rs. table (snd (sink_step handle e w)) = table (snd w) @ rs \<and> list_all good rs"
proof (cases e)
  case (SinkMessage m)
  obtain sl db where w: "w = (sl, db)" by (rule prod.exhaust)
  obtain r db' where h: "handle m db = (r, db')" by (rule prod.exhaust)
  from appends [of m db] h show ?thesis
    by (cases r) (simp_all add: SinkMessage w)
qed (cases w; simp)+

lemma fold_appends:
  "\<exists>rs. table (snd (fold (sink_step handle) es w)) = table (snd w) @ rs \<and> list_all good rs"
proof (induction es arbitrary: w)
  case Nil
  then show ?case by simp
next
  case (Cons e es)
  from step_appends [of e w] obtain rs where
    rs: "table (snd (sink_step handle e w)) = table (snd w) @ rs" "list_all good rs" by blast
  from Cons.IH [of "sink_step handle e w"] obtain rs' where
    "table (snd (fold (sink_step handle) (e # es) w)) = table (snd (sink_step handle e w)) @ rs'"
    "list_all good rs'" by auto
  with rs show ?case by auto
qed

lemma run_good: "list_all good (table db) \<Longrightarrow> list_all good (table (sink_run handle es db))"
proof -
  assume g: "list_all good (table db)"
  from fold_appends [of es "(\<lparr>sl_connected = False, sl_backoff = sink_initial_backoff\<rparr>, db)"] obtain rs where
    "table (sink_run handle es db) = table db @ rs" "list_all good rs"
    by (auto simp: sink_run_def)
  with g show ?thesis by simp
qed

end

subsection \<open>Privacy of the stored rows\<close>

text \<open>The bins of a suppressed row are NULL, and the others are named bins.\<close>

definition snapshot_private :: "snapshot_row \<Rightarrow> bool" where
  "snapshot_private sn \<longleftrightarrow>
     list_all (\<lambda>k. k \<in> set age_bins) (dict_keys (sn_age_group sn)) \<and>
     list_all (\<lambda>k. k \<in> set gender_bins) (dict_keys (sn_gender sn)) \<and>
     list_all (\<lambda>k. k \<in> set attire_bins) (dict_keys (sn_attire sn)) \<and>
     (\<not> sn_demographics_suppressed sn \<or> sn_age_group sn = [] \<and> sn_gender sn = [] \<and> sn_attire sn = [])"

lemma bin_columns_names: "bin_columns names j = Inr cols \<Longrightarrow> set (map fst cols) \<subseteq> set names"
proof (induction names arbitrary: cols)
  case Nil
  then show ?case by (auto simp: bin_columns_def List.map_filter_simps split: if_splits)
next
  case (Cons k names)
  then show ?case
    by (fastforce simp: bin_columns_def List.map_filter_simps split: if_splits option.splits)
qed

lemma bin_columns_empty [simp]: "bin_columns names (JObj []) = Inr []"
  by (simp add: bin_columns_def)

lemma float_columns_fst: "float_columns cols = Some xs \<Longrightarrow> map fst xs = map fst cols"
  by (auto simp: float_columns_def split: if_splits)

lemma drop_malformed_Some: "drop_malformed r = Inr (Some v) \<longleftrightarrow> r = Inr v"
  by (cases r) (auto simp: drop_malformed_def split: py_error.splits)

lemma parse_snapshot_Some:
  assumes "parse_snapshot ip fp fromiso payload = Inr (Some p)"
  obtains msg where "payload = Decoded msg" "privacy_violated msg = Inr False"
    "snapshot_fields ip fp fromiso msg = Inr p"
  using assms
  by (cases payload)
    (auto simp: parse_snapshot_def res_bind_Inr drop_malformed_Some split: if_splits)

lemma snapshot_fields_bins:
  assumes "snapshot_fields ip fp fromiso msg = Inr p"
  obtains a g t where
    "bin_columns age_bins (if truthy (px_demographics_suppressed p) then JObj [] else a) = Inr (px_age_group p)"
    "bin_columns gender_bins (if truthy (px_demographics_suppressed p) then JObj [] else g) = Inr (px_gender p)"
    "bin_columns attire_bins (if truthy (px_demographics_suppressed p) then JObj [] else t) = Inr (px_attire p)"
  using assms unfolding snapshot_fields_def by (auto simp: res_bind_Inr Let_def)

lemma bool_column_truthy: "bool_column j = Some b \<Longrightarrow> truthy j = b"
  by (cases j) (auto simp: bool_column_def split: if_splits)

lemma snapshot_of_private:
  assumes "snapshot_fields ip fp fromiso msg = Inr p" "snapshot_of p = Some row"
  shows "snapshot_private row"
proof -
  from assms(2) have row: "bool_column (px_demographics_suppressed p) = Some (sn_demographics_suppressed row)"
    "float_columns (px_age_group p) = Some (sn_age_group row)"
    "float_columns (px_gender p) = Some (sn_gender row)"
    "float_columns (px_attire p) = Some (sn_attire row)"
    by (auto simp: snapshot_of_def split: sum.splits option.splits prod.splits)
  from assms(1) obtain a g t where
    bins: "bin_columns age_bins (if truthy (px_demographics_suppressed p) then JObj [] else a) = Inr (px_age_group p)"
    "bin_columns gender_bins (if truthy (px_demographics_suppressed p) then JObj [] else g) = Inr (px_gender p)"
    "bin_columns attire_bins (if truthy (px_demographics_suppressed p) then JObj [] else t) = Inr (px_attire p)"
    by (rule snapshot_fields_bins)
  note fsts = float_columns_fst [OF row(2)] float_columns_fst [OF row(3)] float_columns_fst [OF row(4)]
  have names: "set (dict_keys (sn_age_group row)) \<subseteq> set age_bins"
    "set (dict_keys (sn_gender row)) \<subseteq> set gender_bins" "set (dict_keys (sn_attire row)) \<subseteq> set attire_bins"
    using bin_columns_names [OF bins(1)] bin_columns_names [OF bins(2)] bin_columns_names [OF bins(3)]
    by (simp_all only: dict_keys_def fsts)
  have "sn_age_group row = [] \<and> sn_gender row = [] \<and> sn_attire row = []" if "sn_demographics_suppressed row"
  proof -
    from that row(1) have "truthy (px_demographics_suppressed p)" by (simp add: bool_column_truthy)
    with bins have "px_age_group p = []" "px_gender p = []" "px_attire p = []" by simp_all
    with row(2-4) show ?thesis by (simp add: float_columns_def)
  qed
  with names show ?thesis by (auto simp only: snapshot_private_def list_all_iff)
qed

interpretation audience_sink: row_sink "audience_message ip fp fromiso" db_snapshots snapshot_private
  for ip fp fromiso
proof
  fix m db
  show "\<exists>rs. db_snapshots (snd (audience_message ip fp fromiso m db)) = db_snapshots db @ rs \<and>
      list_all snapshot_private rs"
  proof (cases "\<exists>p row. parse_snapshot ip fp fromiso (snd m) = Inr (Some p) \<and> snapshot_of p = Some row \<and> fst m")
    case True
    then obtain p row where p: "parse_snapshot ip fp fromiso (snd m) = Inr (Some p)" "snapshot_of p = Some row" "fst m"
      by blast
    from p(1) obtain msg where "snapshot_fields ip fp fromiso msg = Inr p" by (rule parse_snapshot_Some)
    from snapshot_of_private [OF this p(2)] p show ?thesis
      by (cases m) (simp add: audience_message_def)
  next
    case False
    then show ?thesis
      by (cases m) (auto simp: audience_message_def split: sum.split option.split)
  qed
qed

definition play_fits :: "play_row \<Rightarrow> bool" where
  "play_fits r \<longleftrightarrow> length (pw_manifest_id r) \<le> 128 \<and>
     (case pw_reason r of None \<Rightarrow> True | Some s \<Rightarrow> length s \<le> 256) \<and>
     (case pw_prev_manifest_id r of None \<Rightarrow> True | Some s \<Rightarrow> length s \<le> 128)"

lemma opt_str_field_length:
  "case opt_str_field repr n msg k of None \<Rightarrow> True | Some s \<Rightarrow> length s \<le> n"
  by (simp add: opt_str_field_def split: option.split)

lemma parse_play_Some:
  "parse_play_event repr fromiso payload = Inr (Some p) \<Longrightarrow>
   \<exists>msg mid. py_manifest_id p = take 128 (py_str repr mid) \<and> py_reason p = opt_str_field repr 256 msg ''reason'' \<and>
     py_prev_manifest_id p = opt_str_field repr 128 msg ''prev_manifest_id''"
  by (cases payload) (auto simp: parse_play_event_def drop_malformed_Some res_bind_Inr)

interpretation play_sink: row_sink "play_message repr fromiso" db_plays play_fits for repr fromiso
proof
  fix m :: "bool \<times> rat \<times> payload" and db
  obtain ok now payload where m: "m = (ok, now, payload)" by (cases m) auto
  show "\<exists>rs. db_plays (snd (play_message repr fromiso m db)) = db_plays db @ rs \<and> list_all play_fits rs"
  proof (cases "\<exists>p t. parse_play_event repr fromiso payload = Inr (Some p) \<and> utc_instant (py_activated_at p) = Inr t \<and> ok")
    case True
    then obtain p t where p: "parse_play_event repr fromiso payload = Inr (Some p)"
      "utc_instant (py_activated_at p) = Inr t" ok by blast
    from parse_play_Some [OF p(1)] obtain msg mid where f: "py_manifest_id p = take 128 (py_str repr mid)"
      "py_reason p = opt_str_field repr 256 msg ''reason''"
      "py_prev_manifest_id p = opt_str_field repr 128 msg ''prev_manifest_id''" by blast
    show ?thesis
      using p f opt_str_field_length [of 256 repr msg "''reason''"] opt_str_field_length [of 128 repr msg "''prev_manifest_id''"]
      by (simp add: m play_message_def play_fits_def)
  next
    case False
    then show ?thesis by (auto simp: m play_message_def Let_def split: sum.split option.split)
  qed
qed

text \<open>
  C38. The stored analytics are privacy-safe (PRIV-001 to PRIV-005): after any sequence of
  broker events, whatever the messages are, every stored snapshot has only the named
  coarse bins, and none at all when its demographics are suppressed.
\<close>

theorem stored_snapshots_private:
  "list_all snapshot_private (db_snapshots (sink_run (audience_message ip fp fromiso) es empty_dashboard))"
  by (rule audience_sink.run_good) (simp add: empty_dashboard_def)

text \<open>A message with a privacy flag set stores nothing.\<close>

lemma violation_dropped:
  "privacy_violated msg = Inr True \<Longrightarrow> audience_message ip fp fromiso (ok, Decoded msg) db = (Inr (), db)"
  by (simp add: audience_message_def parse_snapshot_def)

text \<open>
  A block of the wrong type (for example \<open>"demographics": null\<close>) raises AttributeError, which
  the parser does not catch: the message is not dropped, it ends the connection.
\<close>

lemma null_demographics_escapes:
  assumes "fromiso (replace_z ''t'') = Inr (Aware t)"
  shows "parse_snapshot ip fp fromiso (Decoded (JObj [(''produced_at'', JStr ''t''),
     (''state'', JObj [(''presence'', JObj []), (''demographics'', JNull)])])) = Inl AttributeError"
  using assms
  by (simp add: parse_snapshot_def privacy_violated_def privacy_flags_def snapshot_fields_def jget_default_def
      get_or_def iso_field_def drop_malformed_def)

subsection \<open>From the audience-state service to the table\<close>

definition columns :: "string list \<Rightarrow> (string \<times> rat) list \<Rightarrow> (string \<times> rat) list" where
  "columns names d = List.map_filter (\<lambda>k. map_option (Pair k) (map_of d k)) names"

fun stored_bins :: "demographics_block option \<Rightarrow> (string \<times> rat) list \<times> (string \<times> rat) list \<times> (string \<times> rat) list" where
  "stored_bins (Some (Demographics ages genders attire dwell)) =
     (columns age_bins ages,
      columns gender_bins (case genders of Some g \<Rightarrow> g | None \<Rightarrow> []),
      columns attire_bins (case attire of Some a \<Rightarrow> a | None \<Rightarrow> []))"
| "stored_bins _ = ([], [], [])"

lemma map_of_num: "map_of (map (\<lambda>(k, v). (k, JFloat v)) d) k = map_option JFloat (map_of d k)"
  by (induction d) auto

lemma bin_columns_num: "bin_columns names (num_obj d) = Inr (map (\<lambda>(k, v). (k, JFloat v)) (columns names d))"
proof -
  have "List.map_filter (\<lambda>k. case map_option JFloat (map_of d k) of None \<Rightarrow> None
      | Some v \<Rightarrow> if v = JNull then None else Some (k, v)) names = map (\<lambda>(k, v). (k, JFloat v)) (columns names d)"
    by (induction names) (auto simp: columns_def List.map_filter_simps split: option.split)
  moreover have "columns names [] = []" by (induction names) (simp_all add: columns_def List.map_filter_simps)
  ultimately show ?thesis by (cases "d = []") (simp_all add: bin_columns_def num_obj_def map_of_num)
qed

lemma float_columns_num: "float_columns (map (\<lambda>(k, v). (k, JFloat v)) xs) = Some xs"
proof -
  have "map (\<lambda>(k, v). (k, the (jnum v))) (map (\<lambda>(k, v). (k, JFloat v)) xs) = xs"
    by (induction xs) auto
  moreover have "list_all (\<lambda>(k, v). jnum v \<noteq> None) (map (\<lambda>(k, v). (k, JFloat v)) xs)"
    by (auto simp: list_all_iff)
  ultimately show ?thesis unfolding float_columns_def by (simp only: if_True)
qed

lemma columns_Nil [simp]: "columns names [] = []"
  by (induction names) (simp_all add: columns_def List.map_filter_simps)

definition attention_value :: "(string \<times> rat) list option \<Rightarrow> rat option" where
  "attention_value attn = (case attn of None \<Rightarrow> None | Some a \<Rightarrow> map_of a ''engaged'')"

definition stored_row :: "rat \<Rightarrow> state_block \<Rightarrow> demographics_block option \<Rightarrow> (string \<times> rat) list option \<Rightarrow> bool
    \<Rightarrow> snapshot_row" where
  "stored_row t sb demog attn degraded =
     \<lparr>sn_sampled_at = t, sn_presence_count = sb_count sb, sn_presence_confidence = sb_confidence sb,
      sn_state_stable = sb_state_stable sb, sn_pipeline_degraded = degraded,
      sn_demographics_suppressed = (case demog of Some (Demographics _ _ _ _) \<Rightarrow> False | _ \<Rightarrow> True),
      sn_age_group = fst (stored_bins demog), sn_gender = fst (snd (stored_bins demog)),
      sn_attire = snd (snd (stored_bins demog)),
      sn_attention_engaged = attention_value attn\<rparr>"

subsection \<open>Reading a published signal\<close>

definition sig_state :: "state_block \<Rightarrow> demographics_block option \<Rightarrow> (string \<times> rat) list option \<Rightarrow> json" where
  "sig_state sb demog attn = JObj (state_json sb @
     (case demog of None \<Rightarrow> [] | Some d \<Rightarrow> [(''demographics'', demographics_json d)]) @
     (case attn of None \<Rightarrow> [] | Some a \<Rightarrow> [(''attention'', num_obj a)]))"

definition sig_demographics :: "demographics_block option \<Rightarrow> json" where
  "sig_demographics demog = (case demog of None \<Rightarrow> JObj [] | Some d \<Rightarrow> demographics_json d)"

lemma jpresent [simp]: "truthy (num_obj a) \<longleftrightarrow> a \<noteq> []" "is_obj (num_obj a)" "num_obj a \<noteq> JNull"
  by (simp_all add: num_obj_def)

lemma demographics_obj [simp]: "is_obj (demographics_json d)" "is_obj (sig_demographics demog)"
  by (cases d; simp) (simp add: sig_demographics_def split: option.split, metis demographics_json.elims is_obj.simps(1))

lemma sig_state_fields:
  "is_obj (sig_state sb demog attn)"
  "jindex (sig_state sb demog attn) ''presence'' =
     Inr (JObj [(''count'', JInt (sb_count sb)), (''confidence'', JFloat (sb_confidence sb))])"
  "get_or (sig_state sb demog attn) ''stability'' v = JObj [(''state_stable'', JBool (sb_state_stable sb)),
     (''freeze_decision'', JBool (sb_freeze_decision sb)),
     (''observations_in_window'', JInt (int (sb_observations_in_window sb)))]"
  "get_or (sig_state sb demog attn) ''demographics'' (JObj []) = sig_demographics demog"
  "jget_or_empty (sig_state sb demog attn) ''attention'' =
     (case attn of None \<Rightarrow> JObj [] | Some a \<Rightarrow> if a = [] then JObj [] else num_obj a)"
  by (cases demog; cases attn; simp add: sig_state_def state_json_def get_or_def jget_or_empty_def
      sig_demographics_def)+

lemma sig_demographics_suppressed:
  "get_or (sig_demographics demog) ''suppressed'' (JBool True) =
     JBool (case demog of Some (Demographics _ _ _ _) \<Rightarrow> False | _ \<Rightarrow> True)"
  by (cases demog rule: stored_bins.cases) (simp_all add: sig_demographics_def get_or_def)

lemma sig_demographics_blocks:
  "get_or (sig_demographics (Some (Demographics ages genders attire dwell))) ''age_group'' (JObj []) = num_obj ages"
  "get_or (sig_demographics (Some (Demographics ages genders attire dwell))) ''gender'' (JObj []) =
     (case genders of None \<Rightarrow> JObj [] | Some g \<Rightarrow> num_obj g)"
  "get_or (sig_demographics (Some (Demographics ages genders attire dwell))) ''attire'' (JObj []) =
     (case attire of None \<Rightarrow> JObj [] | Some a \<Rightarrow> num_obj a)"
  by (cases genders; cases attire; cases dwell; simp add: sig_demographics_def get_or_def)+

lemma jget_default_obj: "is_obj d \<Longrightarrow> jget_default d k v = Inr (get_or d k v)"
  by (simp add: jget_default_def)

lemma num_obj_field: "get_or (num_obj a) k JNull = (case map_of a k of None \<Rightarrow> JNull | Some x \<Rightarrow> JFloat x)"
  by (simp add: num_obj_def get_or_def map_of_num split: option.split)

definition parsed_signal :: "rat \<Rightarrow> state_block \<Rightarrow> demographics_block option \<Rightarrow> (string \<times> rat) list option \<Rightarrow> bool
    \<Rightarrow> parsed_snapshot" where
  "parsed_signal t sb demog attn degraded =
     (let num = map (\<lambda>(k, v). (k, JFloat v)) in
      \<lparr>px_sampled_at = Aware t, px_presence_count = sb_count sb, px_presence_confidence = sb_confidence sb,
       px_state_stable = sb_state_stable sb, px_pipeline_degraded = degraded,
       px_demographics_suppressed = JBool (case demog of Some (Demographics _ _ _ _) \<Rightarrow> False | _ \<Rightarrow> True),
       px_age_group = num (fst (stored_bins demog)), px_gender = num (fst (snd (stored_bins demog))),
       px_attire = num (snd (snd (stored_bins demog))),
       px_attention_engaged = attention_value attn\<rparr>)"

lemma snapshot_of_parsed: "snapshot_of (parsed_signal t sb demog attn degraded) = Some (stored_row t sb demog attn degraded)"
  by (simp add: snapshot_of_def parsed_signal_def Let_def float_columns_num bool_column_def stored_row_def)

lemma signal_json_fields:
  "jindex (signal_json cfg i pat sb demog attn age degraded) ''state'' = Inr (sig_state sb demog attn)"
  "is_obj (signal_json cfg i pat sb demog attn age degraded)"
  "get_or (signal_json cfg i pat sb demog attn age degraded) ''source_quality'' (JObj []) =
     JObj [(''signal_age_ms'', JInt age), (''pipeline_degraded'', JBool degraded), (''observations_dropped'', JInt 0)]"
  "get_or (signal_json cfg i pat sb demog attn age degraded) ''produced_at'' (JStr []) = JStr pat"
  by (simp_all add: signal_json_def sig_state_def get_or_def)

lemma engaged_column:
  "jget_default (jget_or_empty (sig_state sb demog attn) ''attention'') ''engaged'' JNull =
   Inr (case attention_value attn of None \<Rightarrow> JNull | Some x \<Rightarrow> JFloat x)"
proof (cases attn)
  case (Some a)
  then show ?thesis
    by (cases "a = []") (simp_all add: sig_state_fields jget_default_obj num_obj_field attention_value_def, simp add: get_or_def)
qed (simp add: sig_state_fields jget_default_obj attention_value_def get_or_def)

lemma attention_column:
  "(if (case v of None \<Rightarrow> JNull | Some x \<Rightarrow> JFloat x) = JNull then Inr None
    else res_bind (py_float fp (case v of None \<Rightarrow> JNull | Some x \<Rightarrow> JFloat x)) (\<lambda>x. Inr (Some x))) = Inr v"
  by (cases v) (simp_all add: py_float_def)

lemma stored_columns:
  "bin_columns age_bins (if truthy (JBool (case demog of Some (Demographics _ _ _ _) \<Rightarrow> False | _ \<Rightarrow> True))
     then JObj [] else get_or (sig_demographics demog) ''age_group'' (JObj [])) =
   Inr (map (\<lambda>(k, v). (k, JFloat v)) (fst (stored_bins demog)))"
  "bin_columns gender_bins (if truthy (JBool (case demog of Some (Demographics _ _ _ _) \<Rightarrow> False | _ \<Rightarrow> True))
     then JObj [] else get_or (sig_demographics demog) ''gender'' (JObj [])) =
   Inr (map (\<lambda>(k, v). (k, JFloat v)) (fst (snd (stored_bins demog))))"
  "bin_columns attire_bins (if truthy (JBool (case demog of Some (Demographics _ _ _ _) \<Rightarrow> False | _ \<Rightarrow> True))
     then JObj [] else get_or (sig_demographics demog) ''attire'' (JObj [])) =
   Inr (map (\<lambda>(k, v). (k, JFloat v)) (snd (snd (stored_bins demog))))"
  by (cases demog rule: stored_bins.cases;
      simp add: sig_demographics_blocks bin_columns_num split: option.split)+

text \<open>
  Round trip into the database: a signal the audience-state service publishes is stored
  as one row with the smoothed count and confidence, the stability and degradation flags,
  the attention value, and the averaged bins; suppressed or missing demographics are stored
  as suppressed without bins.
\<close>

theorem signal_persisted:
  assumes "fromiso (replace_z produced_at) = Inr (Aware t)"
  shows "audience_message ip fp fromiso (True, Decoded (signal_json cfg message_id produced_at sb demog attn age_ms degraded)) db
    = (Inr (), db\<lparr>db_snapshots := db_snapshots db @ [stored_row t sb demog attn degraded]\<rparr>)"
proof -
  let ?msg = "signal_json cfg message_id produced_at sb demog attn age_ms degraded"
  have priv: "privacy_violated ?msg = Inr False"
    by (simp add: privacy_violated_def signal_json_def jget_default_def get_or_def privacy_flags_def)
  have "snapshot_fields ip fp fromiso ?msg = Inr (parsed_signal t sb demog attn degraded)"
    by (simp only: snapshot_fields_def signal_json_fields sig_state_fields(1-4) sig_demographics_suppressed
        engaged_column attention_column stored_columns jget_default_obj res_bind_simps demographics_obj
        is_obj.simps Let_def)
      (simp add: assms iso_field_def get_or_def py_int_of_def py_float_def py_int_def parsed_signal_def Let_def)
  with priv show ?thesis
    by (simp add: audience_message_def parse_snapshot_def drop_malformed_def snapshot_of_parsed)
qed

theorem signal_persisted_witness:
  "sn_attention_engaged (last (db_snapshots (snd (audience_message (\<lambda>_. None) (\<lambda>_. None) (\<lambda>_. Inr (Aware 7))
     (True, Decoded (signal_json \<lparr>ac_tenant_id = ''t'', ac_site_id = ''s'', ac_camera_id = ''c''\<rparr> ''i'' ''p''
        \<lparr>sb_count = 2, sb_confidence = 9/10, sb_state_stable = True, sb_freeze_decision = False,
         sb_observations_in_window = 3\<rparr>
        (Some Suppressed) (Some [(''engaged'', 1/2)]) 0 False)) empty_dashboard)))) = Some (1/2)"
  using signal_persisted [of "\<lambda>_. Inr (Aware 7)" "''p''" 7]
  by (simp add: stored_row_def attention_value_def)

subsection \<open>Attention at trigger\<close>

text \<open>
  The attention value stored with an impression is that of the newest audience snapshot
  of the five seconds before the activation, and it is missing exactly when there is no
  such snapshot or it has no attention value.
\<close>

theorem attention_from_newest_snapshot:
  "(case lookup_attention_at_trigger t db of
      Some a \<Rightarrow> list_ex (\<lambda>r. sn_attention_engaged r = Some a \<and> t - 5 \<le> sn_sampled_at r \<and> sn_sampled_at r \<le> t \<and>
          list_all (\<lambda>r'. t < sn_sampled_at r' \<or> sn_sampled_at r' \<le> sn_sampled_at r) (db_snapshots db)) (db_snapshots db)
    | None \<Rightarrow> list_all (\<lambda>r. sn_sampled_at r < t - 5 \<or> t < sn_sampled_at r) (db_snapshots db) \<or>
        list_ex (\<lambda>r. sn_attention_engaged r = None \<and> t - 5 \<le> sn_sampled_at r \<and> sn_sampled_at r \<le> t \<and>
          list_all (\<lambda>r'. t < sn_sampled_at r' \<or> sn_sampled_at r' \<le> sn_sampled_at r) (db_snapshots db)) (db_snapshots db))"
proof -
  let ?ws = "filter (\<lambda>r. t - 5 \<le> sn_sampled_at r \<and> sn_sampled_at r \<le> t) (db_snapshots db)"
  show ?thesis
  proof (cases "newest sn_sampled_at ?ws")
    case None
    then have "list_all (\<lambda>r. sn_sampled_at r < t - 5 \<or> t < sn_sampled_at r) (db_snapshots db)"
      by (auto simp: newest_None filter_empty_conv list_all_iff)
    with None show ?thesis by (simp add: lookup_attention_at_trigger_def attention_lookup_window_s_def)
  next
    case (Some r)
    from newest_Some(1) [OF Some] have r: "r \<in> set (db_snapshots db)" "t - 5 \<le> sn_sampled_at r" "sn_sampled_at r \<le> t"
      by auto
    have "list_all (\<lambda>r'. t < sn_sampled_at r' \<or> sn_sampled_at r' \<le> sn_sampled_at r) (db_snapshots db)"
    proof (unfold list_all_iff, intro ballI)
      fix r' assume "r' \<in> set (db_snapshots db)"
      with newest_Some(2) [OF Some, of r'] r(2)
      show "t < sn_sampled_at r' \<or> sn_sampled_at r' \<le> sn_sampled_at r" by fastforce
    qed
    with Some r show ?thesis
      by (auto simp: lookup_attention_at_trigger_def attention_lookup_window_s_def list_ex_iff split: option.split)
  qed
qed

end
