(* ===== verification/PlayerState.thy ===== *)
theory PlayerState
  imports Prelude
begin

section \<open>Player state machine (services/player/player/state.py)\<close>

text \<open>
  The four states of the player, the six transitions of \<open>StateMachine\<close> and their
  \<open>TransitionResult\<close>s. Time is an argument: \<open>now\<close> is the reading of
  \<open>time.monotonic()\<close>, in seconds, during the (synchronous) call; the readings inside one
  call are identified. Logging is left out.
\<close>

subsection \<open>State and results\<close>

datatype player_state = FALLBACK | ACTIVE | FROZEN | SAFE_MODE

fun player_state_value :: "player_state \<Rightarrow> string" where
  "player_state_value FALLBACK = ''fallback''"
| "player_state_value ACTIVE = ''active''"
| "player_state_value FROZEN = ''frozen''"
| "player_state_value SAFE_MODE = ''safe_mode''"

record transition_result =
  tr_accepted :: bool
  tr_new_state :: player_state
  tr_action :: string
  tr_manifest_id :: "string option"
  tr_reason :: "string option"

record player_sm =
  sm_state :: player_state
  sm_active_manifest_id :: "string option"
  sm_activated_at :: "rat option"
  sm_min_dwell_ms :: int
  sm_freeze_reason :: "string option"
  sm_safe_mode_reason :: "string option"
  sm_cooldowns :: "(string \<times> (rat \<times> int)) list"
  sm_cooldown_ms_for_active :: int

definition init_sm :: player_sm where
  "init_sm = \<lparr>sm_state = FALLBACK, sm_active_manifest_id = None, sm_activated_at = None,
     sm_min_dwell_ms = 0, sm_freeze_reason = None, sm_safe_mode_reason = None,
     sm_cooldowns = [], sm_cooldown_ms_for_active = 0\<rparr>"

definition result :: "bool \<Rightarrow> player_state \<Rightarrow> string \<Rightarrow> string option \<Rightarrow> string option
    \<Rightarrow> transition_result" where
  "result acc st act mid rsn =
     \<lparr>tr_accepted = acc, tr_new_state = st, tr_action = act, tr_manifest_id = mid, tr_reason = rsn\<rparr>"

lemma result_simps [simp]:
  "tr_accepted (result acc st act mid rsn) = acc"
  "tr_new_state (result acc st act mid rsn) = st"
  "tr_action (result acc st act mid rsn) = act"
  "tr_manifest_id (result acc st act mid rsn) = mid"
  "tr_reason (result acc st act mid rsn) = rsn"
  by (simp_all add: result_def)

subsection \<open>Dwell and cooldown clocks\<close>

definition sm_dwell_elapsed :: "rat \<Rightarrow> player_sm \<Rightarrow> bool" where
  "sm_dwell_elapsed now s =
     (case sm_activated_at s of
        None \<Rightarrow> True
      | Some t \<Rightarrow> of_int (sm_min_dwell_ms s) \<le> (now - t) * 1000)"

definition sm_in_cooldown :: "rat \<Rightarrow> string \<Rightarrow> player_sm \<Rightarrow> bool" where
  "sm_in_cooldown now manifest_id s =
     (case map_of (sm_cooldowns s) manifest_id of
        None \<Rightarrow> False
      | Some (deactivated_at, cooldown_ms) \<Rightarrow> (now - deactivated_at) * 1000 < of_int cooldown_ms)"

text \<open>The cooldown entry written for the creative that leaves the screen.\<close>

definition sm_record_cooldown :: "rat \<Rightarrow> player_sm \<Rightarrow> player_sm" where
  "sm_record_cooldown now s =
     (case sm_active_manifest_id s of
        None \<Rightarrow> s
      | Some m \<Rightarrow>
          s\<lparr>sm_cooldowns := AList.update m (now, sm_cooldown_ms_for_active s) (sm_cooldowns s)\<rparr>)"

subsection \<open>Transitions\<close>

definition on_activate_creative :: "rat \<Rightarrow> string \<Rightarrow> int \<Rightarrow> int \<Rightarrow> string option \<Rightarrow> player_sm
    \<Rightarrow> transition_result \<times> player_sm" where
  "on_activate_creative now manifest_id min_dwell_ms cooldown_ms rationale s =
     (if sm_state s = SAFE_MODE then
        (result False (sm_state s) ''show_fallback'' None (Some ''safe_mode''), s)
      else if sm_state s = ACTIVE \<and> \<not> sm_dwell_elapsed now s then
        (result False (sm_state s) ''hold'' (sm_active_manifest_id s) (Some ''dwell_not_elapsed''), s)
      else if sm_in_cooldown now manifest_id s then
        (result False (sm_state s) ''hold'' (sm_active_manifest_id s) (Some ''cooldown''), s)
      else
        (result True ACTIVE ''play_manifest'' (Some manifest_id) None,
         (sm_record_cooldown now s)
           \<lparr>sm_state := ACTIVE,
            sm_active_manifest_id := Some manifest_id,
            sm_activated_at := Some now,
            sm_min_dwell_ms := min_dwell_ms,
            sm_cooldown_ms_for_active := cooldown_ms,
            sm_freeze_reason := None\<rparr>))"

definition on_freeze :: "string option \<Rightarrow> player_sm \<Rightarrow> transition_result \<times> player_sm" where
  "on_freeze reason s =
     (if sm_state s = SAFE_MODE then
        (result False (sm_state s) ''show_fallback'' None (Some ''safe_mode''), s)
      else if sm_state s = FALLBACK then
        (result False (sm_state s) ''show_fallback'' None (Some ''no_active_creative''), s)
      else if sm_state s = FROZEN then
        (result True (sm_state s) ''hold'' (sm_active_manifest_id s) None,
         s\<lparr>sm_freeze_reason := reason\<rparr>)
      else
        (result True FROZEN ''hold'' (sm_active_manifest_id s) None,
         s\<lparr>sm_state := FROZEN, sm_freeze_reason := reason\<rparr>))"

definition on_safe_mode :: "rat \<Rightarrow> string option \<Rightarrow> player_sm \<Rightarrow> transition_result \<times> player_sm" where
  "on_safe_mode now reason s =
     (result True SAFE_MODE ''show_fallback'' None reason,
      (sm_record_cooldown now s)
        \<lparr>sm_state := SAFE_MODE,
         sm_safe_mode_reason := reason,
         sm_active_manifest_id := None,
         sm_activated_at := None,
         sm_freeze_reason := None\<rparr>)"

definition on_clear_safe_mode :: "player_sm \<Rightarrow> transition_result \<times> player_sm" where
  "on_clear_safe_mode s =
     (if sm_state s \<noteq> SAFE_MODE then
        (result False (sm_state s) ''hold'' None (Some ''not_in_safe_mode''), s)
      else
        (result True FALLBACK ''show_fallback'' None None,
         s\<lparr>sm_state := FALLBACK, sm_safe_mode_reason := None\<rparr>))"

definition on_connection_lost :: "rat \<Rightarrow> player_sm \<Rightarrow> transition_result \<times> player_sm" where
  "on_connection_lost now s =
     (if sm_state s = SAFE_MODE then
        (result True (sm_state s) ''show_fallback'' None (Some ''connection_lost_in_safe_mode''), s)
      else
        (result True FALLBACK ''show_fallback'' None (Some ''connection_lost''),
         (sm_record_cooldown now s)
           \<lparr>sm_state := FALLBACK,
            sm_active_manifest_id := None,
            sm_activated_at := None,
            sm_freeze_reason := None\<rparr>))"

text \<open>\<open>status()\<close>: the dictionary behind \<open>/readyz\<close>.\<close>

record sm_status_dict =
  st_state :: string
  st_active_manifest_id :: "string option"
  st_dwell_elapsed :: "bool option"
  st_freeze_reason :: "string option"
  st_safe_mode_reason :: "string option"

definition sm_status :: "rat \<Rightarrow> player_sm \<Rightarrow> sm_status_dict" where
  "sm_status now s =
     \<lparr>st_state = player_state_value (sm_state s),
      st_active_manifest_id = sm_active_manifest_id s,
      st_dwell_elapsed = (if sm_state s = ACTIVE then Some (sm_dwell_elapsed now s) else None),
      st_freeze_reason = sm_freeze_reason s,
      st_safe_mode_reason = sm_safe_mode_reason s\<rparr>"

lemmas sm_transition_defs =
  on_activate_creative_def on_freeze_def on_safe_mode_def on_clear_safe_mode_def
  on_connection_lost_def sm_record_cooldown_def

subsection \<open>Events, runs, reachable states\<close>

datatype sm_event =
    EvActivate string int int "string option"
  | EvFreeze "string option"
  | EvSafeMode "string option"
  | EvClearSafeMode
  | EvConnectionLost

fun sm_step :: "rat \<Rightarrow> sm_event \<Rightarrow> player_sm \<Rightarrow> transition_result \<times> player_sm" where
  "sm_step now (EvActivate m d c why) s = on_activate_creative now m d c why s"
| "sm_step now (EvFreeze r) s = on_freeze r s"
| "sm_step now (EvSafeMode r) s = on_safe_mode now r s"
| "sm_step now EvClearSafeMode s = on_clear_safe_mode s"
| "sm_step now EvConnectionLost s = on_connection_lost now s"

fun sm_run :: "(rat \<times> sm_event) list \<Rightarrow> player_sm \<Rightarrow> transition_result list \<times> player_sm" where
  "sm_run [] s = ([], s)"
| "sm_run ((now, e) # es) s =
     (let (r, s') = sm_step now e s; (rs, s'') = sm_run es s' in (r # rs, s''))"

inductive sm_reachable :: "player_sm \<Rightarrow> bool" where
  sm_start: "sm_reachable init_sm"
| sm_next: "sm_reachable s \<Longrightarrow> sm_reachable (snd (sm_step now e s))"

subsection \<open>The invariant between the fields\<close>

text \<open>
  What the transitions keep true of the fields: a creative is active exactly in ACTIVE and
  FROZEN, its activation time goes with it, a freeze reason belongs to FROZEN and a
  safe-mode reason to SAFE_MODE, and the cooldown table has one entry per manifest.
\<close>

definition sm_inv :: "player_sm \<Rightarrow> bool" where
  "sm_inv s \<longleftrightarrow>
     (sm_active_manifest_id s \<noteq> None \<longleftrightarrow> sm_state s = ACTIVE \<or> sm_state s = FROZEN) \<and>
     (sm_activated_at s \<noteq> None \<longleftrightarrow> sm_active_manifest_id s \<noteq> None) \<and>
     (sm_freeze_reason s \<noteq> None \<longrightarrow> sm_state s = FROZEN) \<and>
     (sm_safe_mode_reason s \<noteq> None \<longrightarrow> sm_state s = SAFE_MODE) \<and>
     dict_ok (sm_cooldowns s)"

lemma sm_inv_init [step_inv]: "sm_inv init_sm"
  by (simp add: sm_inv_def init_sm_def)

lemma sm_inv_step [step_inv]: "sm_inv s \<Longrightarrow> sm_inv (snd (sm_step now e s))"
  by (cases e; cases "sm_state s")
    (auto simp: sm_inv_def sm_transition_defs split: option.splits)

lemma sm_run_Cons:
  "snd (sm_run ((now, e) # es) s) = snd (sm_run es (snd (sm_step now e s)))"
  "fst (sm_run ((now, e) # es) s) = fst (sm_step now e s) # fst (sm_run es (snd (sm_step now e s)))"
  by (simp_all add: split_beta Let_def)

lemma sm_reachable_run: "sm_reachable s \<Longrightarrow> sm_reachable (snd (sm_run es s))"
proof (induction es arbitrary: s)
  case Nil
  then show ?case by simp
next
  case (Cons ev es)
  obtain u e where ev: "ev = (u, e)" by (cases ev)
  from Cons.prems have "sm_reachable (snd (sm_step u e s))" by (rule sm_reachable.sm_next)
  then have "sm_reachable (snd (sm_run es (snd (sm_step u e s))))" by (rule Cons.IH)
  then show ?case by (simp only: ev sm_run_Cons)
qed

text \<open>
  C35. Every reachable state of the player satisfies the invariant between its fields.
\<close>

theorem sm_reachable_inv: "sm_reachable s \<Longrightarrow> sm_inv s"
proof (induction rule: sm_reachable.induct)
  case sm_start
  show ?case by (rule sm_inv_init)
next
  case (sm_next s now e)
  then show ?case by (blast intro: sm_inv_step)
qed

theorem sm_reachable_inv_witness:
  "sm_inv (snd (sm_step 2 (EvFreeze None) (snd (sm_step 1 (EvActivate ''m1'' 0 0 None) init_sm))))"
proof -
  have "sm_reachable (snd (sm_step 2 (EvFreeze None) (snd (sm_step 1 (EvActivate ''m1'' 0 0 None) init_sm))))"
    by (intro sm_reachable.sm_next sm_reachable.sm_start)
  then show ?thesis by (rule sm_reachable_inv)
qed

subsection \<open>What a result says\<close>

lemma sm_result_state: "tr_new_state (fst (sm_step now e s)) = sm_state (snd (sm_step now e s))"
  by (cases e) (auto simp: sm_transition_defs split: option.splits)

lemma sm_play_result:
  "tr_action (fst (sm_step now e s)) = ''play_manifest'' \<Longrightarrow>
   sm_state (snd (sm_step now e s)) = ACTIVE \<and>
   tr_manifest_id (fst (sm_step now e s)) = sm_active_manifest_id (snd (sm_step now e s))"
  by (cases e) (auto simp: sm_transition_defs split: if_splits option.splits)

lemma sm_play_activates:
  "tr_action (fst (sm_step now e s)) = ''play_manifest'' \<Longrightarrow>
   \<exists>m d c why. e = EvActivate m d c why \<and> sm_state (snd (sm_step now e s)) = ACTIVE \<and>
     sm_active_manifest_id (snd (sm_step now e s)) = Some m \<and>
     tr_manifest_id (fst (sm_step now e s)) = Some m \<and> sm_state s \<noteq> SAFE_MODE"
  by (cases e) (auto simp: sm_transition_defs split: if_splits option.splits)

lemma sm_hold_result:
  "tr_action (fst (sm_step now e s)) = ''hold'' \<Longrightarrow>
   sm_active_manifest_id (snd (sm_step now e s)) = sm_active_manifest_id s \<and>
   (sm_state s = SAFE_MODE \<longleftrightarrow> sm_state (snd (sm_step now e s)) = SAFE_MODE)"
  by (cases e) (auto simp: sm_transition_defs split: if_splits option.splits)

lemma sm_fallback_result:
  "sm_inv s \<Longrightarrow> tr_action (fst (sm_step now e s)) = ''show_fallback'' \<Longrightarrow>
   sm_active_manifest_id (snd (sm_step now e s)) = None"
  by (cases e) (auto simp: sm_inv_def sm_transition_defs split: if_splits option.splits)

lemma sm_action_cases:
  "tr_action (fst (sm_step now e s)) = ''play_manifest'' \<or>
   tr_action (fst (sm_step now e s)) = ''show_fallback'' \<or>
   tr_action (fst (sm_step now e s)) = ''hold''"
  by (cases e) (auto simp: sm_transition_defs split: option.splits)

subsection \<open>Runs that keep the screen\<close>

text \<open>The deadline, in monotonic seconds, before which a dwell or cooldown of \<open>ms\<close> is running.\<close>

definition before :: "rat \<Rightarrow> int \<Rightarrow> (rat \<times> 'e) list \<Rightarrow> bool" where
  "before t ms es \<longleftrightarrow> (\<forall>(u, e) \<in> set es. (u - t) * 1000 < of_int ms)"

lemma before_Nil [simp]: "before t ms []"
  by (simp add: before_def)

lemma before_Cons [simp]:
  "before t ms ((u, e) # es) \<longleftrightarrow> (u - t) * 1000 < of_int ms \<and> before t ms es"
  by (simp add: before_def)

fun is_switch :: "sm_event \<Rightarrow> bool" where
  "is_switch (EvActivate _ _ _ _) = True"
| "is_switch EvClearSafeMode = True"
| "is_switch _ = False"

text \<open>
  C24. Minimum dwell: from an ACTIVE state whose creative started at \<open>t\<close>, no run of
  activation and clear-safe-mode commands that all arrive before the dwell has elapsed
  changes anything: every command is rejected and the state is the same.
\<close>

theorem dwell_protects_creative:
  assumes "sm_state s = ACTIVE" and "sm_activated_at s = Some t"
    and "before t (sm_min_dwell_ms s) es"
    and "\<forall>(u, e) \<in> set es. is_switch e"
  shows "snd (sm_run es s) = s \<and> (\<forall>r \<in> set (fst (sm_run es s)). \<not> tr_accepted r \<and> tr_action r = ''hold'')"
  using assms(3,4)
proof (induction es)
  case Nil
  then show ?case by simp
next
  case (Cons ev es)
  obtain u e where ev: "ev = (u, e)" by (cases ev)
  have "snd (sm_step u e s) = s \<and> \<not> tr_accepted (fst (sm_step u e s)) \<and>
      tr_action (fst (sm_step u e s)) = ''hold''"
    using assms(1,2) Cons.prems
    by (cases e) (simp_all add: ev on_activate_creative_def on_clear_safe_mode_def sm_dwell_elapsed_def)
  with Cons show ?case by (simp add: ev sm_run_Cons del: sm_run.simps(2))
qed

definition dwelling_sm :: player_sm where
  "dwelling_sm = snd (sm_step 100 (EvActivate ''m1'' 10000 5000 None) init_sm)"

theorem dwell_protects_creative_witness:
  "snd (sm_run [(105, EvActivate ''m2'' 0 0 None), (109, EvClearSafeMode)] dwelling_sm) = dwelling_sm"
proof -
  have "sm_state dwelling_sm = ACTIVE" "sm_activated_at dwelling_sm = Some 100"
    "sm_min_dwell_ms dwelling_sm = 10000"
    by (simp_all add: dwelling_sm_def init_sm_def on_activate_creative_def sm_in_cooldown_def)
  then show ?thesis
    using dwell_protects_creative [of dwelling_sm 100
        "[(105, EvActivate ''m2'' 0 0 None), (109, EvClearSafeMode)]"]
    by (simp add: before_def)
qed

subsection \<open>Cooldown\<close>

text \<open>\<open>m\<close> is off the screen and its cooldown entry is \<open>(t, c)\<close>.\<close>

definition cooling :: "string \<Rightarrow> rat \<Rightarrow> int \<Rightarrow> player_sm \<Rightarrow> bool" where
  "cooling m t c s \<longleftrightarrow>
     sm_active_manifest_id s \<noteq> Some m \<and> map_of (sm_cooldowns s) m = Some (t, c)"

lemma cooling_step:
  "cooling m t c s \<Longrightarrow> (u - t) * 1000 < of_int c \<Longrightarrow> cooling m t c (snd (sm_step u e s))"
  by (cases e)
    (auto simp: cooling_def sm_transition_defs sm_in_cooldown_def dict_simps split: option.splits)

lemma deactivation_starts_cooling:
  "sm_active_manifest_id s = Some m \<Longrightarrow> sm_active_manifest_id (snd (sm_step t e s)) \<noteq> Some m \<Longrightarrow>
   cooling m t (sm_cooldown_ms_for_active s) (snd (sm_step t e s))"
  by (cases e) (auto simp: cooling_def sm_transition_defs dict_simps split: if_splits)

text \<open>
  C25. Cooldown: whichever transition takes a creative off the screen (a switch, safe mode
  or a lost connection), no later command arriving before its cooldown has elapsed brings
  it back, whatever happens in between.
\<close>

theorem cooldown_enforced:
  assumes "sm_active_manifest_id s = Some m"
    and "sm_active_manifest_id (snd (sm_step t e s)) \<noteq> Some m"
    and "before t (sm_cooldown_ms_for_active s) es"
  shows "sm_active_manifest_id (snd (sm_run es (snd (sm_step t e s)))) \<noteq> Some m"
proof -
  define c where "c = sm_cooldown_ms_for_active s"
  have "cooling m t c (snd (sm_run es s'))" if "cooling m t c s'" for s'
    using assms(3) [folded c_def] that
  proof (induction es arbitrary: s')
    case Nil
    then show ?case by simp
  next
    case (Cons ev es)
    obtain u e where ev: "ev = (u, e)" by (cases ev)
    from Cons.prems have "cooling m t c (snd (sm_step u e s'))"
      by (simp add: ev cooling_step)
    with Cons show ?case by (simp add: ev sm_run_Cons del: sm_run.simps(2))
  qed
  with deactivation_starts_cooling [OF assms(1,2)] show ?thesis
    by (simp add: c_def cooling_def)
qed

theorem cooldown_enforced_witness:
  "sm_active_manifest_id (snd (sm_run [(112, EvConnectionLost), (115, EvActivate ''m1'' 0 0 None)]
     (snd (sm_step 111 (EvActivate ''m2'' 0 0 None) dwelling_sm)))) \<noteq> Some ''m1''"
proof -
  have a: "sm_active_manifest_id dwelling_sm = Some ''m1''" "sm_cooldown_ms_for_active dwelling_sm = 5000"
    "sm_active_manifest_id (snd (sm_step 111 (EvActivate ''m2'' 0 0 None) dwelling_sm)) \<noteq> Some ''m1''"
    by (simp_all add: dwelling_sm_def init_sm_def sm_transition_defs sm_in_cooldown_def
        sm_dwell_elapsed_def)
  show ?thesis
    using cooldown_enforced [OF a(1,3), of "[(112, EvConnectionLost), (115, EvActivate ''m1'' 0 0 None)]"] a(2)
    by simp
qed

subsection \<open>Safe mode\<close>

text \<open>
  C26. Safe mode is sticky: in a run without a clear command every transition answers with
  the fallback bundle and the player is in safe mode at the end, through activations,
  freezes and lost connections.
\<close>

theorem safe_mode_sticky:
  assumes "sm_state s = SAFE_MODE" and "EvClearSafeMode \<notin> snd ` set es"
  shows "sm_state (snd (sm_run es s)) = SAFE_MODE \<and>
    (\<forall>r \<in> set (fst (sm_run es s)). tr_action r = ''show_fallback'')"
  using assms
proof (induction es arbitrary: s)
  case Nil
  then show ?case by simp
next
  case (Cons ev es)
  obtain u e where ev: "ev = (u, e)" by (cases ev)
  have "sm_state (snd (sm_step u e s)) = SAFE_MODE \<and>
      tr_action (fst (sm_step u e s)) = ''show_fallback''"
    using Cons.prems by (cases e) (auto simp: ev sm_transition_defs)
  with Cons.IH [of "snd (sm_step u e s)"] Cons.prems show ?case
    by (simp add: ev sm_run_Cons del: sm_run.simps(2))
qed

theorem safe_mode_sticky_witness:
  "sm_state (snd (sm_run [(2, EvActivate ''m1'' 0 0 None), (3, EvConnectionLost), (4, EvFreeze None)]
     (snd (sm_step 1 (EvSafeMode None) init_sm)))) = SAFE_MODE"
proof -
  have "sm_state (snd (sm_step 1 (EvSafeMode None) init_sm)) = SAFE_MODE"
    by (simp add: on_safe_mode_def init_sm_def)
  then show ?thesis
    using safe_mode_sticky [of "snd (sm_step 1 (EvSafeMode None) init_sm)"
        "[(2, EvActivate ''m1'' 0 0 None), (3, EvConnectionLost), (4, EvFreeze None)]"]
    by simp
qed

subsection \<open>A freeze that cannot be lifted\<close>

text \<open>
  Lifting a freeze with the creative that is already on the screen writes a cooldown
  entry for that creative although it stays on the screen. A second freeze can then not be
  lifted by the same activation before the cooldown has elapsed: it is answered with
  \<open>cooldown\<close> and the player stays FROZEN.
\<close>

theorem refreeze_within_cooldown_sticks:
  assumes "sm_inv s" and "sm_state s = FROZEN" and "sm_active_manifest_id s = Some m"
    and "\<not> sm_in_cooldown t1 m s"
    and "(t2 - t1) * 1000 < of_int (sm_cooldown_ms_for_active s)"
  shows "let s1 = snd (on_activate_creative t1 m d c why s); s2 = snd (on_freeze r s1)
    in sm_state s1 = ACTIVE \<and> sm_state s2 = FROZEN \<and>
       on_activate_creative t2 m d c why s2 =
         (result False FROZEN ''hold'' (Some m) (Some ''cooldown''), s2)"
  using assms
  by (simp add: Let_def sm_transition_defs sm_in_cooldown_def dict_simps)

theorem refreeze_within_cooldown_sticks_witness:
  "let s = snd (on_freeze None dwelling_sm);
       s1 = snd (on_activate_creative 120 ''m1'' 10000 5000 None s);
       s2 = snd (on_freeze None s1)
   in sm_state s1 = ACTIVE \<and> sm_state s2 = FROZEN \<and> on_activate_creative 124 ''m1'' 10000 5000 None s2 =
        (result False FROZEN ''hold'' (Some ''m1'') (Some ''cooldown''), s2)"
proof -
  define s where "s = snd (on_freeze None dwelling_sm)"
  have s: "sm_inv s" "sm_state s = FROZEN" "sm_active_manifest_id s = Some ''m1''"
    "\<not> sm_in_cooldown 120 ''m1'' s" "sm_cooldown_ms_for_active s = 5000"
    by (simp_all add: s_def dwelling_sm_def init_sm_def sm_transition_defs sm_in_cooldown_def
        sm_inv_def)
  then have "(124 - 120 :: rat) * 1000 < of_int (sm_cooldown_ms_for_active s)" by simp
  from refreeze_within_cooldown_sticks [OF s(1-4) this, of 10000 5000 None None] show ?thesis
    unfolding Let_def s_def [symmetric] .
qed

subsection \<open>The abstract machine\<close>

text \<open>
  What the player promises when clocks, reasons and tables are forgotten: it shows the
  fallback bundle, or a creative that may be frozen, or it is in safe mode.
\<close>

datatype player_mode = MFallback | MShowing string bool | MSafe

definition sm_mode :: "player_sm \<Rightarrow> player_mode" where
  "sm_mode s =
     (case sm_state s of
        SAFE_MODE \<Rightarrow> MSafe
      | FALLBACK \<Rightarrow> MFallback
      | st \<Rightarrow> (case sm_active_manifest_id s of Some m \<Rightarrow> MShowing m (st = FROZEN) | None \<Rightarrow> MFallback))"

inductive mode_step :: "player_mode \<Rightarrow> sm_event \<Rightarrow> player_mode \<Rightarrow> bool" where
  mode_activate: "p \<noteq> MSafe \<Longrightarrow> mode_step p (EvActivate m d c why) (MShowing m False)"
| mode_freeze: "mode_step (MShowing m f) (EvFreeze r) (MShowing m True)"
| mode_safe: "mode_step p (EvSafeMode r) MSafe"
| mode_clear: "mode_step MSafe EvClearSafeMode MFallback"
| mode_lost: "p \<noteq> MSafe \<Longrightarrow> mode_step p EvConnectionLost MFallback"
| mode_refuse: "\<not> (\<exists>r. e = EvSafeMode r) \<Longrightarrow> e = EvConnectionLost \<longrightarrow> p = MSafe \<Longrightarrow>
     e = EvClearSafeMode \<longrightarrow> p \<noteq> MSafe \<Longrightarrow> (\<exists>r. e = EvFreeze r) \<longrightarrow> (\<forall>m f. p \<noteq> MShowing m f) \<Longrightarrow>
     mode_step p e p"

inductive_simps mode_step_from_safe: "mode_step MSafe e p"
inductive_cases mode_step_clear: "mode_step p EvClearSafeMode p'"

text \<open>
  C14. The state machine refines the abstract machine: every transition from a state that
  satisfies the invariant is an abstract step between the abstracted states.
\<close>

theorem sm_refines_mode:
  assumes "sm_inv s"
  shows "mode_step (sm_mode s) e (sm_mode (snd (sm_step now e s)))"
  using assms
  by (cases e; cases "sm_state s")
    (auto simp: sm_mode_def sm_inv_def sm_transition_defs split: option.splits
      intro: mode_step.intros)

theorem sm_refines_mode_witness:
  "mode_step (MShowing ''m1'' False) (EvFreeze None) (MShowing ''m1'' True)"
proof -
  have "sm_inv dwelling_sm"
    by (simp add: dwelling_sm_def init_sm_def sm_transition_defs sm_in_cooldown_def sm_inv_def)
  from sm_refines_mode [OF this, of "EvFreeze None" 101] show ?thesis
    by (simp add: sm_mode_def dwelling_sm_def init_sm_def sm_transition_defs sm_in_cooldown_def)
qed

end
