(* ===== verification/CommandHandler.thy ===== *)
theory CommandHandler
  imports PlayerState PlayerStore Dedup Reconnect
begin

section \<open>Player command handler (services/player/player/command_handler.py)\<close>

text \<open>
  ICD-4 commands: validation, idempotency by \<open>command_id\<close>, ordering by
  \<open>sequence_number\<close>, the manifest check and the dispatch to the state machine.
  \<open>json.loads\<close> is the argument \<open>raw :: payload\<close> (only a \<open>JSONDecodeError\<close> is caught), the
  validator the parameter \<open>errs\<close>; \<open>now\<close> is the monotonic clock, \<open>wall\<close> the UTC
  clock. \<open>handle_raw\<close> answers with the result that the awaited \<open>on_transition\<close> callback
  is given (PlayerMain composes it), \<open>None\<close> when the command is dropped, or the exception
  that escapes.
\<close>

subsection \<open>State\<close>

text \<open>One call of \<open>PlayEventPublisher.schedule_publish\<close>.\<close>

record play_event =
  pe_manifest_id :: string
  pe_reason :: "string option"
  pe_prev_manifest_id :: "string option"

record command_handler =
  ch_sm :: player_sm
  ch_store :: player_store
  ch_has_publisher :: bool
  ch_scheduled :: "play_event list"
  ch_last_sequence :: int
  ch_seen_command_ids :: "(string \<times> bool) list"

definition max_seen_ids :: nat where
  "max_seen_ids = 5000"

definition init_handler :: "player_sm \<Rightarrow> player_store \<Rightarrow> bool \<Rightarrow> command_handler" where
  "init_handler sm store has_publisher =
     \<lparr>ch_sm = sm, ch_store = store, ch_has_publisher = has_publisher, ch_scheduled = [],
      ch_last_sequence = - 1, ch_seen_command_ids = []\<rparr>"

definition reset_session :: "command_handler \<Rightarrow> command_handler" where
  "reset_session h = h\<lparr>ch_last_sequence := - 1\<rparr>"

text \<open>\<open>_record\<close>: remember the command, keep the newer half when the history is full.\<close>

definition ch_record :: "int \<Rightarrow> string \<Rightarrow> command_handler \<Rightarrow> command_handler" where
  "ch_record seq command_id h =
     h\<lparr>ch_last_sequence := seq,
       ch_seen_command_ids := mark_and_prune max_seen_ids command_id (ch_seen_command_ids h)\<rparr>"

subsection \<open>Dispatch\<close>

text \<open>The answer to an activation that is refused before the state machine is asked.\<close>

definition ch_refusal :: "string \<Rightarrow> command_handler \<Rightarrow> transition_result" where
  "ch_refusal reason h =
     result False (sm_state (ch_sm h))
       (if sm_state (ch_sm h) \<noteq> FALLBACK then ''hold'' else ''show_fallback'')
       (sm_active_manifest_id (ch_sm h)) (Some reason)"

lemma ch_refusal_not_play: "tr_action (ch_refusal reason h) \<noteq> ''play_manifest''"
  by (simp add: ch_refusal_def split: if_split)

text \<open>
  The payload fields are read as the contract types them; a value of another type is a
  \<open>TypeError\<close> where it is first used.
\<close>

definition activate_payload :: "json \<Rightarrow> (string \<times> int \<times> int \<times> string option) res" where
  "activate_payload msg =
     (let payload = jget_or_empty msg ''activate_creative'' in
      case jindex payload ''manifest_id'' of
        Inl e \<Rightarrow> Inl e
      | Inr mid \<Rightarrow>
     (case jindex payload ''min_dwell_ms'' of
        Inl e \<Rightarrow> Inl e
      | Inr dwell \<Rightarrow>
     (case jstr_opt (Some mid) of
        None \<Rightarrow> Inl TypeError
      | Some m \<Rightarrow>
     (case jint dwell of
        None \<Rightarrow> Inl TypeError
      | Some d \<Rightarrow>
     (case jint (case jget payload ''cooldown_ms'' of Some c \<Rightarrow> c | None \<Rightarrow> JInt 0) of
        None \<Rightarrow> Inl TypeError
      | Some c \<Rightarrow> Inr (m, d, c, jstr_opt (jget payload ''rationale'')))))))"

definition handle_activate_creative :: "iso_parser \<Rightarrow> rat \<Rightarrow> rat \<Rightarrow> json \<Rightarrow> command_handler
    \<Rightarrow> transition_result res \<times> command_handler" where
  "handle_activate_creative fromiso now wall msg h =
     (case activate_payload msg of
        Inl e \<Rightarrow> (Inl e, h)
      | Inr (manifest_id, min_dwell_ms, cooldown_ms, rationale) \<Rightarrow>
     (let prev = sm_active_manifest_id (ch_sm h) in
      case ps_get (ch_store h) manifest_id of
        None \<Rightarrow> (Inr (ch_refusal ''unknown_manifest'' h), h)
      | Some manifest \<Rightarrow>
     (case ps_check_manifest fromiso wall manifest of
        Inl e \<Rightarrow> (Inl e, h)
      | Inr (Some rejection) \<Rightarrow> (Inr (ch_refusal rejection h), h)
      | Inr None \<Rightarrow>
     (let (r, sm') = on_activate_creative now manifest_id min_dwell_ms cooldown_ms rationale (ch_sm h);
          h' = h\<lparr>ch_sm := sm'\<rparr>
      in (Inr r,
          if tr_accepted r \<and> ch_has_publisher h
          then h'\<lparr>ch_scheduled := ch_scheduled h'
                 @ [\<lparr>pe_manifest_id = manifest_id, pe_reason = rationale, pe_prev_manifest_id = prev\<rparr>]\<rparr>
          else h')))))"

definition payload_reason :: "json \<Rightarrow> string \<Rightarrow> string option res" where
  "payload_reason msg k =
     (case jget_attr (jget_or_empty msg k) ''reason'' of
        Inl e \<Rightarrow> Inl e
      | Inr v \<Rightarrow> Inr (jstr_opt v))"

definition ch_dispatch :: "iso_parser \<Rightarrow> rat \<Rightarrow> rat \<Rightarrow> json \<Rightarrow> string \<Rightarrow> command_handler
    \<Rightarrow> transition_result res \<times> command_handler" where
  "ch_dispatch fromiso now wall msg command_type h =
     (if command_type = ''activate_creative'' then handle_activate_creative fromiso now wall msg h
      else if command_type = ''freeze'' then
        (case payload_reason msg ''freeze'' of
           Inl e \<Rightarrow> (Inl e, h)
         | Inr reason \<Rightarrow>
             (let (r, sm') = on_freeze reason (ch_sm h) in (Inr r, h\<lparr>ch_sm := sm'\<rparr>)))
      else if command_type = ''safe_mode'' then
        (case payload_reason msg ''safe_mode'' of
           Inl e \<Rightarrow> (Inl e, h)
         | Inr reason \<Rightarrow>
             (let (r, sm') = on_safe_mode now reason (ch_sm h) in (Inr r, h\<lparr>ch_sm := sm'\<rparr>)))
      else if command_type = ''clear_safe_mode'' then
        (let (r, sm') = on_clear_safe_mode (ch_sm h) in (Inr r, h\<lparr>ch_sm := sm'\<rparr>))
      else (Inl ValueError, h))"

subsection \<open>One message\<close>

text \<open>
  The header of \<open>handle_raw\<close>: \<open>Inr None\<close> for a silent return, \<open>Inr (Some (seq, id, type))\<close>
  for a command that is going to be recorded and dispatched.
\<close>

definition ch_admit :: "(json \<Rightarrow> string list) \<Rightarrow> json \<Rightarrow> command_handler
    \<Rightarrow> (int \<times> string \<times> string) option res" where
  "ch_admit errs msg h =
     (if \<not> schema_ok errs msg then Inr None
      else case jindex msg ''command_id'' of Inl e \<Rightarrow> Inl e | Inr jcid \<Rightarrow>
     (case jindex msg ''sequence_number'' of Inl e \<Rightarrow> Inl e | Inr jseq \<Rightarrow>
     (case jindex msg ''command_type'' of Inl e \<Rightarrow> Inl e | Inr jtype \<Rightarrow>
     (case jstr_opt (Some jcid) of None \<Rightarrow> Inl TypeError | Some command_id \<Rightarrow>
        if command_id \<in> set (dict_keys (ch_seen_command_ids h)) then Inr None
        else (case jint jseq of None \<Rightarrow> Inl TypeError | Some seq \<Rightarrow>
          if seq \<le> ch_last_sequence h then Inr None
          else (case jstr_opt (Some jtype) of
                  None \<Rightarrow> Inl ValueError
                | Some command_type \<Rightarrow> Inr (Some (seq, command_id, command_type))))))))"

definition handle_raw :: "(json \<Rightarrow> string list) \<Rightarrow> iso_parser \<Rightarrow> rat \<Rightarrow> rat \<Rightarrow> payload
    \<Rightarrow> command_handler \<Rightarrow> transition_result option res \<times> command_handler" where
  "handle_raw errs fromiso now wall raw h =
     (case raw of
        NotJson \<Rightarrow> (Inr None, h)
      | LoadsError e \<Rightarrow> (Inl e, h)
      | Decoded msg \<Rightarrow>
     (case ch_admit errs msg h of
        Inl e \<Rightarrow> (Inl e, h)
      | Inr None \<Rightarrow> (Inr None, h)
      | Inr (Some (seq, command_id, command_type)) \<Rightarrow>
     (case ch_dispatch fromiso now wall msg command_type (ch_record seq command_id h) of
        (Inl e, h') \<Rightarrow> (Inl e, h')
      | (Inr r, h') \<Rightarrow> (Inr (Some r), h'))))"

subsection \<open>The WebSocket loop\<close>

text \<open>
  \<open>run()\<close> as the events it reacts to: an established connection, a message, a failure of
  connecting or receiving (one of the four caught exception classes), and a connection the
  peer closed normally, after which the \<open>async for\<close> ends and the loop connects again.
  The answer is the result given to \<open>on_transition\<close>, if any. The delays are the defaults
  of config.py (\<open>WS_RECONNECT_INITIAL_BACKOFF_S\<close>, \<open>WS_RECONNECT_MAX_BACKOFF_S\<close>).
\<close>

datatype ws_event =
    WsConnected
  | WsMessage rat rat payload
  | WsFailed rat
  | WsClosed

definition ws_initial_backoff :: rat where "ws_initial_backoff = 1"
definition ws_max_backoff :: rat where "ws_max_backoff = 30"

definition ws_next_backoff :: "rat \<Rightarrow> rat" where
  "ws_next_backoff b = min (b * 2) ws_max_backoff"

fun ch_loop_step :: "(json \<Rightarrow> string list) \<Rightarrow> iso_parser \<Rightarrow> ws_event \<Rightarrow> command_handler \<times> rat
    \<Rightarrow> transition_result option res \<times> (command_handler \<times> rat)" where
  "ch_loop_step errs fromiso WsConnected (h, b) = (Inr None, (reset_session h, ws_initial_backoff))"
| "ch_loop_step errs fromiso (WsMessage now wall raw) (h, b) =
     (let (r, h') = handle_raw errs fromiso now wall raw h in (r, (h', b)))"
| "ch_loop_step errs fromiso (WsFailed now) (h, b) =
     (let (r, sm') = on_connection_lost now (ch_sm h)
      in (Inr (Some r), (h\<lparr>ch_sm := sm'\<rparr>, ws_next_backoff b)))"
| "ch_loop_step errs fromiso WsClosed (h, b) = (Inr None, (h, b))"

text \<open>The loop over a sequence of events; an exception ends it.\<close>

fun ch_loop :: "(json \<Rightarrow> string list) \<Rightarrow> iso_parser \<Rightarrow> ws_event list \<Rightarrow> command_handler \<times> rat
    \<Rightarrow> (transition_result list \<times> py_error option) \<times> (command_handler \<times> rat)" where
  "ch_loop errs fromiso [] w = (([], None), w)"
| "ch_loop errs fromiso (e # es) w =
     (case ch_loop_step errs fromiso e w of
        (Inl err, w') \<Rightarrow> (([], Some err), w')
      | (Inr None, w') \<Rightarrow> ch_loop errs fromiso es w'
      | (Inr (Some r), w') \<Rightarrow>
          (let ((rs, x), w'') = ch_loop errs fromiso es w' in ((r # rs, x), w'')))"

interpretation ws: reconnect ws_initial_backoff ws_max_backoff ws_next_backoff
  by unfold_locales (simp_all add: ws_initial_backoff_def ws_max_backoff_def ws_next_backoff_def)

subsection \<open>The contract shape of a command\<close>

text \<open>
  What contracts/player/player-command.schema.json guarantees of the fields the handler
  reads. It does not require the payload object of the command's type to be present.
\<close>

definition obj_field :: "(json \<Rightarrow> bool) \<Rightarrow> json \<Rightarrow> string \<Rightarrow> bool" where
  "obj_field ok m k \<longleftrightarrow> (case jget m k of None \<Rightarrow> True | Some v \<Rightarrow> is_obj v \<and> ok v)"

definition is_jint :: "json option \<Rightarrow> bool" where
  "is_jint v \<longleftrightarrow> (case v of Some j \<Rightarrow> jint j \<noteq> None | None \<Rightarrow> False)"

definition activate_shape :: "json \<Rightarrow> bool" where
  "activate_shape p \<longleftrightarrow>
     jstr_opt (jget p ''manifest_id'') \<noteq> None \<and> is_jint (jget p ''min_dwell_ms'') \<and>
     (jget p ''cooldown_ms'' \<noteq> None \<longrightarrow> is_jint (jget p ''cooldown_ms''))"

definition command_shape :: "json \<Rightarrow> bool" where
  "command_shape m \<longleftrightarrow>
     jstr_opt (jget m ''command_id'') \<noteq> None \<and> is_jint (jget m ''sequence_number'') \<and>
     jstr_opt (jget m ''command_type'') \<in>
       Some ` {''activate_creative'', ''freeze'', ''safe_mode'', ''clear_safe_mode''} \<and>
     obj_field activate_shape m ''activate_creative'' \<and>
     obj_field (\<lambda>_. True) m ''freeze'' \<and> obj_field (\<lambda>_. True) m ''safe_mode''"

subsection \<open>What dispatch does to the state machine\<close>

lemma handle_activate_cases:
  assumes "handle_activate_creative fromiso now wall msg h = (Inr r, h')"
  obtains (refused) reason where "r = ch_refusal reason h" "h' = h"
  | (asked) m d c why manifest where
      "(r, ch_sm h') = sm_step now (EvActivate m d c why) (ch_sm h)"
      "ps_get (ch_store h) m = Some manifest" "renderable fromiso wall manifest"
      "ch_store h' = ch_store h" "ch_last_sequence h' = ch_last_sequence h"
      "ch_seen_command_ids h' = ch_seen_command_ids h"
proof (cases "activate_payload msg")
  case (Inl e)
  with assms show ?thesis by (simp add: handle_activate_creative_def)
next
  case (Inr p)
  obtain m d c why where p: "p = (m, d, c, why)" by (cases p) auto
  show ?thesis
  proof (cases "ps_get (ch_store h) m")
    case None
    with assms Inr p show ?thesis
      by (intro refused) (auto simp: handle_activate_creative_def Let_def)
  next
    case (Some manifest)
    show ?thesis
    proof (cases "ps_check_manifest fromiso wall manifest = Inr None")
      case True
      then have "renderable fromiso wall manifest" by (simp only: ps_check_ok)
      with True assms Inr p Some show ?thesis
        by (intro asked [of m d c why manifest])
          (auto simp: handle_activate_creative_def Let_def split: prod.splits if_splits)
    next
      case False
      with assms Inr p Some show ?thesis
        by (intro refused [of "the (projr (ps_check_manifest fromiso wall manifest))"])
          (auto simp: handle_activate_creative_def Let_def split: sum.splits option.splits)
    qed
  qed
qed

lemma handle_activate_frame:
  "ch_store (snd (handle_activate_creative fromiso now wall msg h)) = ch_store h \<and>
   ch_last_sequence (snd (handle_activate_creative fromiso now wall msg h)) = ch_last_sequence h \<and>
   ch_seen_command_ids (snd (handle_activate_creative fromiso now wall msg h)) = ch_seen_command_ids h"
  by (simp add: handle_activate_creative_def Let_def split: sum.split option.split prod.split)

lemma ch_dispatch_frame:
  "ch_store (snd (ch_dispatch fromiso now wall msg ty h)) = ch_store h"
  "ch_last_sequence (snd (ch_dispatch fromiso now wall msg ty h)) = ch_last_sequence h"
  "ch_seen_command_ids (snd (ch_dispatch fromiso now wall msg ty h)) = ch_seen_command_ids h"
  using handle_activate_frame [of fromiso now wall msg h]
  by (auto simp: ch_dispatch_def Let_def split: sum.split prod.split)

lemma ch_dispatch_cases:
  assumes "ch_dispatch fromiso now wall msg ty h = (Inr r, h')"
  obtains (refused) reason where "r = ch_refusal reason h" "h' = h"
  | (asked) e where "(r, ch_sm h') = sm_step now e (ch_sm h)"
      "\<And>m d c why. e = EvActivate m d c why \<Longrightarrow>
         \<exists>manifest. ps_get (ch_store h) m = Some manifest \<and> renderable fromiso wall manifest"
proof (cases "ty = ''activate_creative''")
  case True
  with assms have "handle_activate_creative fromiso now wall msg h = (Inr r, h')"
    by (simp add: ch_dispatch_def)
  then show ?thesis
  proof (cases rule: handle_activate_cases)
    case (refused reason)
    then show ?thesis by (rule that(1))
  next
    case (asked m d c why manifest)
    then show ?thesis by (intro that(2) [of "EvActivate m d c why"]) auto
  qed
next
  case False
  then consider (freeze) reason where "on_freeze reason (ch_sm h) = (r, ch_sm h')"
    | (safe) reason where "on_safe_mode now reason (ch_sm h) = (r, ch_sm h')"
    | (clear) "on_clear_safe_mode (ch_sm h) = (r, ch_sm h')"
    using assms
    by (auto simp: ch_dispatch_def Let_def split: if_splits sum.splits prod.splits)
  then show ?thesis
  proof cases
    case freeze
    then show ?thesis by (intro that(2) [of "EvFreeze reason"]) simp_all
  next
    case safe
    then show ?thesis by (intro that(2) [of "EvSafeMode reason"]) simp_all
  next
    case clear
    then show ?thesis by (intro that(2) [of EvClearSafeMode]) simp_all
  qed
qed

lemma ch_dispatch_error_sm:
  "ch_dispatch fromiso now wall msg ty h = (Inl e, h') \<Longrightarrow> h' = h"
  by (auto simp: ch_dispatch_def handle_activate_creative_def Let_def
      split: if_splits sum.splits option.splits prod.splits)

lemma ch_record_simps [simp]:
  "ch_sm (ch_record seq i h) = ch_sm h"
  "ch_store (ch_record seq i h) = ch_store h"
  "ch_last_sequence (ch_record seq i h) = seq"
  "ch_seen_command_ids (ch_record seq i h) = mark_and_prune max_seen_ids i (ch_seen_command_ids h)"
  by (simp_all add: ch_record_def)

lemma handle_raw_cases:
  assumes "handle_raw errs fromiso now wall raw h = (res, h')"
  obtains (dropped) "res = Inr None" "h' = h"
  | (failed) e where "res = Inl e" "h' = h"
  | (raised) e msg seq i ty where "res = Inl e" "raw = Decoded msg"
      "ch_admit errs msg h = Inr (Some (seq, i, ty))" "h' = ch_record seq i h"
  | (dispatched) r msg seq i ty where "res = Inr (Some r)" "raw = Decoded msg"
      "ch_admit errs msg h = Inr (Some (seq, i, ty))"
      "ch_dispatch fromiso now wall msg ty (ch_record seq i h) = (Inr r, h')"
proof (cases raw)
  case NotJson
  with assms show ?thesis by (intro dropped) (simp_all add: handle_raw_def)
next
  case (LoadsError e)
  with assms show ?thesis by (intro failed [of e]) (simp_all add: handle_raw_def)
next
  case decoded: (Decoded msg)
  show ?thesis
  proof (cases "ch_admit errs msg h")
    case (Inl e)
    with decoded assms show ?thesis by (intro failed [of e]) (simp_all add: handle_raw_def)
  next
    case (Inr a)
    show ?thesis
    proof (cases a)
      case None
      with decoded Inr assms show ?thesis by (intro dropped) (simp_all add: handle_raw_def)
    next
      case (Some c)
      obtain seq i ty where c: "c = (seq, i, ty)" by (cases c)
      obtain res' h1 where d: "ch_dispatch fromiso now wall msg ty (ch_record seq i h) = (res', h1)"
        by fastforce
      note facts = Some Inr c d assms \<open>raw = Decoded msg\<close>
      show ?thesis
      proof (cases res')
        case (Inl e)
        with facts show ?thesis
          using ch_dispatch_error_sm [of fromiso now wall msg ty "ch_record seq i h" e h1]
          by (intro raised [of e msg seq i ty]) (simp_all add: handle_raw_def)
      next
        case (Inr r)
        with facts show ?thesis
          by (intro dispatched [of r msg seq i ty]) (simp_all add: handle_raw_def)
      qed
    qed
  qed
qed

text \<open>The invariant of the handler and the objects it holds.\<close>

definition handler_inv :: "command_handler \<Rightarrow> bool" where
  "handler_inv h \<longleftrightarrow> sm_inv (ch_sm h) \<and> dict_ok (ch_seen_command_ids h) \<and>
     length (ch_seen_command_ids h) \<le> max_seen_ids"

interpretation cmd_hist: bounded_history "mark_and_prune max_seen_ids" dict_keys max_seen_ids
proof (unfold_locales, goal_cases)
  case 1
  show ?case by (simp add: max_seen_ids_def)
next
  case (2 i h)
  then show ?case by (simp add: mark_and_prune_fresh)
qed

lemma cmd_hist_ok:
  "cmd_hist.history_ok d \<longleftrightarrow> dict_ok d \<and> length d \<le> max_seen_ids"
  by (simp add: cmd_hist.history_ok_def dict_ok_def dict_keys_def)

lemma ch_admit_fresh:
  "ch_admit errs msg h = Inr (Some (seq, i, ty)) \<Longrightarrow>
   i \<notin> set (dict_keys (ch_seen_command_ids h)) \<and> ch_last_sequence h < seq \<and>
   jget msg ''command_id'' = Some (JStr i)"
  by (auto simp: ch_admit_def jindex_Inr jstr_opt_Some_iff split: if_splits sum.splits option.splits)

text \<open>How the history and the sequence number move.\<close>

definition ch_progress :: "(json \<Rightarrow> string list) \<Rightarrow> payload \<Rightarrow> command_handler \<Rightarrow> (int \<times> string) option" where
  "ch_progress errs raw h =
     (case raw of
        Decoded msg \<Rightarrow> (case ch_admit errs msg h of Inr (Some (seq, i, ty)) \<Rightarrow> Some (seq, i) | _ \<Rightarrow> None)
      | _ \<Rightarrow> None)"

lemma handle_raw_history:
  "ch_seen_command_ids (snd (handle_raw errs fromiso now wall raw h)) =
     (case ch_progress errs raw h of
        None \<Rightarrow> ch_seen_command_ids h
      | Some (seq, i) \<Rightarrow> cmd_hist.accept i (ch_seen_command_ids h))"
  "ch_last_sequence (snd (handle_raw errs fromiso now wall raw h)) =
     (case ch_progress errs raw h of None \<Rightarrow> ch_last_sequence h | Some (seq, i) \<Rightarrow> seq)"
  using ch_dispatch_frame(2,3) [of fromiso now wall]
  by (auto simp: handle_raw_def ch_progress_def cmd_hist.accept_def
      split: payload.split option.split sum.split prod.split dest!: ch_admit_fresh)
     (metis snd_conv ch_record_simps(3,4))+

lemma handle_raw_store: "ch_store (snd (handle_raw errs fromiso now wall raw h)) = ch_store h"
  using ch_dispatch_frame(1) [of fromiso now wall]
  by (auto simp: handle_raw_def split: payload.split option.split sum.split prod.split)
    (metis ch_record_simps(2) snd_conv)+

lemma handler_inv_raw [step_inv]:
  assumes "handler_inv h"
  shows "handler_inv (snd (handle_raw errs fromiso now wall raw h))"
proof -
  obtain res h' where r: "handle_raw errs fromiso now wall raw h = (res, h')" by fastforce
  have "sm_inv (ch_sm h')"
    using r
  proof (cases rule: handle_raw_cases)
    case (dispatched r msg seq i ty)
    from dispatched(4) show ?thesis
      using assms by (cases rule: ch_dispatch_cases)
        (simp_all add: handler_inv_def, metis sm_inv_step snd_conv)
  qed (use assms in \<open>simp_all add: handler_inv_def\<close>)
  moreover have "cmd_hist.history_ok (ch_seen_command_ids h')"
    using handle_raw_history(1) [of errs fromiso now wall raw h] assms
    by (auto simp: r handler_inv_def simp flip: cmd_hist_ok intro: cmd_hist.accept_ok split: option.splits)
  ultimately show ?thesis by (simp add: r handler_inv_def cmd_hist_ok)
qed

subsection \<open>Properties\<close>

lemma handle_raw_play:
  assumes "handle_raw errs fromiso now wall raw h = (Inr (Some r), h')"
    and "tr_action r = ''play_manifest''"
  shows "\<exists>m manifest. tr_manifest_id r = Some m \<and> sm_active_manifest_id (ch_sm h') = Some m \<and>
    sm_state (ch_sm h') = ACTIVE \<and> sm_state (ch_sm h) \<noteq> SAFE_MODE \<and>
    ps_get (ch_store h) m = Some manifest \<and> renderable fromiso wall manifest"
  using assms(1)
proof (cases rule: handle_raw_cases)
  case (dispatched r' msg seq i ty)
  then have r': "r' = r" by simp
  from dispatched(4) show ?thesis
  proof (cases rule: ch_dispatch_cases)
    case (refused reason)
    with assms(2) r' show ?thesis by (metis ch_refusal_not_play)
  next
    case (asked e)
    then have s: "fst (sm_step now e (ch_sm h)) = r" "snd (sm_step now e (ch_sm h)) = ch_sm h'"
      using r' by (metis ch_record_simps(1) fst_conv, metis ch_record_simps(1) snd_conv)
    obtain m d c why where "e = EvActivate m d c why" "sm_state (ch_sm h') = ACTIVE"
        "sm_active_manifest_id (ch_sm h') = Some m" "tr_manifest_id r = Some m"
        "sm_state (ch_sm h) \<noteq> SAFE_MODE"
      using sm_play_activates [of now e "ch_sm h"] s assms(2) by auto
    with asked(2) show ?thesis by auto
  qed
qed simp_all

text \<open>
  C3. Only approved, unexpired manifests the store holds reach the screen: when a message
  makes the handler answer \<open>play_manifest\<close>, the named manifest is in the store, is
  renderable at the wall-clock time of the message, is what the state machine now has as
  active, and the player was not in safe mode.
\<close>

theorem activation_only_approved:
  assumes "handle_raw errs fromiso now wall raw h = (Inr (Some r), h')"
    and "tr_action r = ''play_manifest''"
  shows "\<exists>m manifest. tr_manifest_id r = Some m \<and> sm_active_manifest_id (ch_sm h') = Some m \<and>
    sm_state (ch_sm h') = ACTIVE \<and> sm_state (ch_sm h) \<noteq> SAFE_MODE \<and>
    ps_get (ch_store h) m = Some manifest \<and> renderable fromiso wall manifest"
  using assms by (rule handle_raw_play)

definition demo_command :: "string \<Rightarrow> int \<Rightarrow> (string \<times> json) list \<Rightarrow> json" where
  "demo_command i seq payload = JObj
     ([(''command_id'', JStr i), (''sequence_number'', JInt seq),
       (''command_type'', JStr ''activate_creative'')] @ payload)"

definition demo_payload :: "(string \<times> json) list" where
  "demo_payload = [(''activate_creative'',
     JObj [(''manifest_id'', JStr ''m1''), (''min_dwell_ms'', JInt 10000)])]"

definition demo_handler :: command_handler where
  "demo_handler = init_handler init_sm [(''m1'', demo_manifest ''m1'')] True"

definition no_iso :: iso_parser where
  "no_iso s = Inl ''Invalid isoformat string''"

lemmas demo_handler_defs = demo_command_def demo_payload_def demo_handler_def init_handler_def
  init_sm_def demo_manifest_def no_iso_def

lemma demo_command_shape: "command_shape (demo_command i seq demo_payload)"
  by (simp add: command_shape_def demo_handler_defs is_jint_def obj_field_def activate_shape_def)

lemma demo_handle_raw:
  "handle_raw (errs_of command_shape) no_iso 1 1 (Decoded (demo_command ''c1'' 7 demo_payload)) demo_handler =
     (Inr (Some (result True ACTIVE ''play_manifest'' (Some ''m1'') None)),
      demo_handler\<lparr>ch_sm := snd (on_activate_creative 1 ''m1'' 10000 0 None init_sm),
        ch_last_sequence := 7, ch_seen_command_ids := [(''c1'', True)],
        ch_scheduled := [\<lparr>pe_manifest_id = ''m1'', pe_reason = None, pe_prev_manifest_id = None\<rparr>]\<rparr>)"
  using demo_command_shape [of "''c1''" 7]
  by (simp add: handle_raw_def ch_admit_def demo_handler_defs dict_keys_def ch_record_def
      mark_and_prune_def max_seen_ids_def ch_dispatch_def handle_activate_creative_def
      activate_payload_def jget_or_empty_def ps_get_def ps_check_manifest_def field_set_def
      on_activate_creative_def sm_in_cooldown_def sm_record_cooldown_def Let_def)

theorem activation_only_approved_witness:
  "\<exists>m manifest. ps_get (ch_store demo_handler) m = Some manifest \<and> renderable no_iso 1 manifest"
  using activation_only_approved [OF demo_handle_raw] by fastforce

lemma ch_loop_step_inv [step_inv]:
  "handler_inv (fst w) \<Longrightarrow> handler_inv (fst (snd (ch_loop_step errs fromiso e w)))"
proof (cases w)
  case (Pair h b)
  moreover assume "handler_inv (fst w)"
  ultimately show ?thesis
    using handler_inv_raw [of h errs fromiso] sm_inv_step [of "ch_sm h" _ EvConnectionLost]
    by (cases e) (auto simp: handler_inv_def reset_session_def split_beta Let_def)
qed

lemma ch_loop_step_history:
  "\<exists>ks. length ks \<le> 1 \<and>
     ch_seen_command_ids (fst (snd (ch_loop_step errs fromiso e w))) =
       fold cmd_hist.accept ks (ch_seen_command_ids (fst w))"
proof (cases w)
  case (Pair h b)
  show ?thesis
  proof (cases e)
    case (WsMessage now wall raw)
    show ?thesis
    proof (cases "ch_progress errs raw h")
      case None
      with Pair WsMessage show ?thesis
        by (intro exI [of _ "[]"]) (simp add: split_beta Let_def handle_raw_history)
    next
      case (Some a)
      with Pair WsMessage show ?thesis
        by (intro exI [of _ "[snd a]"]) (simp add: split_beta Let_def handle_raw_history)
    qed
  qed (use Pair in \<open>auto simp: reset_session_def split_beta Let_def intro!: exI [of _ "[]"]\<close>)
qed

lemma ch_loop_history:
  "\<exists>ks. length ks \<le> length es \<and>
     ch_seen_command_ids (fst (snd (ch_loop errs fromiso es w))) =
       fold cmd_hist.accept ks (ch_seen_command_ids (fst w))"
proof (induction es arbitrary: w)
  case Nil
  show ?case by simp
next
  case (Cons e es)
  obtain r w' where s: "ch_loop_step errs fromiso e w = (r, w')" by (rule prod.exhaust)
  obtain ks where i: "length ks \<le> 1"
      "ch_seen_command_ids (fst w') = fold cmd_hist.accept ks (ch_seen_command_ids (fst w))"
    using ch_loop_step_history [of errs fromiso e w] s by auto
  obtain js where j: "length js \<le> length es"
      "ch_seen_command_ids (fst (snd (ch_loop errs fromiso es w'))) =
         fold cmd_hist.accept js (ch_seen_command_ids (fst w'))"
    using Cons.IH [of w'] by auto
  show ?case
  proof (cases r)
    case (Inl err)
    with s i show ?thesis by (intro exI [of _ "ks"]) auto
  next
    case (Inr a)
    with s have "snd (ch_loop errs fromiso (e # es) w) = snd (ch_loop errs fromiso es w')"
      by (auto split: option.splits prod.splits)
    with i j show ?thesis by (intro exI [of _ "ks @ js"]) auto
  qed
qed

text \<open>
  C15. Idempotence across reconnects: after a command with identifier \<open>i\<close> has been
  dispatched, through any 2500 further loop events (messages, failures, reconnects), a
  redelivery with the same identifier is dropped: no result, no exception and the same
  handler, whatever its sequence number and payload.
\<close>

theorem redelivery_ignored:
  assumes "handler_inv h" and "ch_admit errs msg h = Inr (Some (seq, i, ty))"
    and "length es \<le> 2500"
    and "jget msg' ''command_id'' = Some (JStr i)"
    and "jget msg' ''sequence_number'' \<noteq> None" and "jget msg' ''command_type'' \<noteq> None"
    and "handle_raw errs fromiso now wall (Decoded msg) h = (res, h1)"
    and "h2 = fst (snd (ch_loop errs fromiso es (h1, b)))"
  shows "handle_raw errs fromiso now' wall' (Decoded msg') h2 = (Inr None, h2)"
proof -
  have fresh: "i \<notin> set (dict_keys (ch_seen_command_ids h))"
    using ch_admit_fresh [OF assms(2)] by simp
  have h1: "ch_seen_command_ids h1 = mark_and_prune max_seen_ids i (ch_seen_command_ids h)"
    using handle_raw_history(1) [of errs fromiso now wall "Decoded msg" h] fresh
    by (simp add: assms(2,7) ch_progress_def cmd_hist.accept_def)
  obtain ks where ks: "length ks \<le> length es"
      "ch_seen_command_ids h2 = fold cmd_hist.accept ks (ch_seen_command_ids h1)"
    using ch_loop_history [of es errs fromiso "(h1, b)"] assms(8) by auto
  have "i \<in> set (dict_keys (ch_seen_command_ids h2))"
    unfolding ks(2) h1
  proof (rule cmd_hist.redelivery_detected)
    show "cmd_hist.history_ok (ch_seen_command_ids h)"
      using assms(1) by (simp add: cmd_hist_ok handler_inv_def)
  qed (use assms(3) ks(1) fresh in \<open>simp_all add: max_seen_ids_def\<close>)
  with assms(4-6) show ?thesis
    by (auto simp: handle_raw_def ch_admit_def jindex_jget)
qed

theorem redelivery_ignored_witness:
  "let h1 = snd (handle_raw (errs_of command_shape) no_iso 1 1 (Decoded (demo_command ''c1'' 7 demo_payload)) demo_handler);
       h2 = fst (snd (ch_loop (errs_of command_shape) no_iso [WsFailed 2, WsConnected] (h1, 1)))
   in handle_raw (errs_of command_shape) no_iso 3 3 (Decoded (demo_command ''c1'' 0 [])) h2 = (Inr None, h2)"
proof -
  have inv: "handler_inv demo_handler"
    using sm_inv_init by (simp add: handler_inv_def demo_handler_def init_handler_def)
  have adm: "ch_admit (errs_of command_shape) (demo_command ''c1'' 7 demo_payload) demo_handler =
      Inr (Some (7, ''c1'', ''activate_creative''))"
    using demo_command_shape [of "''c1''" 7]
    by (simp add: ch_admit_def demo_handler_defs dict_keys_def)
  show ?thesis
    unfolding Let_def
    by (rule redelivery_ignored [OF inv adm, where es = "[WsFailed 2, WsConnected]", OF _ _ _ _ prod.collapse [symmetric]])
      (simp_all add: demo_command_def)
qed

text \<open>
  One session: received messages, each with the outcome \<open>cb\<close> of the awaited \<open>on_transition\<close>
  callback should it be called, and what else happens to the two objects the handler shares: the
  control server moves the state machine, the refresh loop reloads the store. The answer is the
  commands that were recorded and dispatched, as (sequence number, identifier) pairs, and the
  exception that ended the session: neither \<open>handle_raw\<close> nor \<open>run\<close> catches it.
\<close>

datatype session_event =
    Received rat rat payload "unit res"
  | Elsewhere player_sm player_store

definition received_error :: "transition_result option res \<Rightarrow> unit res \<Rightarrow> py_error option" where
  "received_error r cb =
     (case r of
        Inl e \<Rightarrow> Some e
      | Inr None \<Rightarrow> None
      | Inr (Some _) \<Rightarrow> (case cb of Inl e \<Rightarrow> Some e | Inr _ \<Rightarrow> None))"

fun ch_session :: "(json \<Rightarrow> string list) \<Rightarrow> iso_parser \<Rightarrow> session_event list \<Rightarrow> command_handler
    \<Rightarrow> (int \<times> string) list \<times> py_error option" where
  "ch_session errs fromiso [] h = ([], None)"
| "ch_session errs fromiso (Elsewhere sm store # es) h =
     ch_session errs fromiso es (h\<lparr>ch_sm := sm, ch_store := store\<rparr>)"
| "ch_session errs fromiso (Received now wall raw cb # es) h =
     (let (r, h') = handle_raw errs fromiso now wall raw h;
          here = (case ch_progress errs raw h of None \<Rightarrow> [] | Some p \<Rightarrow> [p])
      in case received_error r cb of
           Some e \<Rightarrow> (here, Some e)
         | None \<Rightarrow> (let (ps, x) = ch_session errs fromiso es h' in (here @ ps, x)))"

lemma ch_progress_Some:
  "ch_progress errs raw h = Some (seq, i) \<Longrightarrow> ch_last_sequence h < seq"
  by (auto simp: ch_progress_def split: payload.splits option.splits sum.splits dest: ch_admit_fresh)

text \<open>
  Ordering within a session: the sequence numbers of the commands that one session
  dispatches are strictly increasing, and all above the last one applied before.
\<close>

theorem session_sequences_increasing:
  "sorted_wrt (<) (map fst (fst (ch_session errs fromiso es h))) \<and>
   list_all (\<lambda>p. ch_last_sequence h < fst p) (fst (ch_session errs fromiso es h))"
proof (induction es arbitrary: h)
  case Nil
  show ?case by simp
next
  case (Cons e es)
  show ?case
  proof (cases e)
    case (Elsewhere sm store)
    with Cons.IH [of "h\<lparr>ch_sm := sm, ch_store := store\<rparr>"] show ?thesis by simp
  next
    case (Received now wall raw cb)
    obtain r h' where r: "handle_raw errs fromiso now wall raw h = (r, h')" by (rule prod.exhaust)
    have h': "h' = snd (handle_raw errs fromiso now wall raw h)" by (simp add: r)
    show ?thesis
    proof (cases "ch_progress errs raw h")
      case None
      then have "ch_last_sequence h' = ch_last_sequence h" by (simp add: h' handle_raw_history)
      with None Cons.IH [of h'] r show ?thesis
        by (auto simp: Received split_beta Let_def split: option.split)
    next
      case (Some p)
      obtain seq i where p: "p = (seq, i)" by (cases p)
      with Some have "ch_last_sequence h' = seq" "ch_last_sequence h < seq"
        using ch_progress_Some by (auto simp: h' handle_raw_history)
      with Some p Cons.IH [of h'] r show ?thesis
        by (auto simp: Received split_beta Let_def list_all_iff split: option.split)
    qed
  qed
qed

lemma activate_payload_shape:
  assumes "command_shape m" and "jget m ''activate_creative'' = Some v"
  shows "\<exists>p. activate_payload m = Inr p"
proof -
  from assms have v: "is_obj v" "activate_shape v"
    by (auto simp: command_shape_def obj_field_def)
  then obtain i where i: "jget v ''manifest_id'' = Some (JStr i)"
    by (auto simp: activate_shape_def jstr_opt_Some_iff)
  obtain dj d where d: "jget v ''min_dwell_ms'' = Some dj" "jint dj = Some d"
    using v by (auto simp: activate_shape_def is_jint_def split: option.splits)
  have "truthy v" using v(1) i by (cases v) auto
  with assms(2) have e: "jget_or_empty m ''activate_creative'' = v" by (simp add: jget_or_empty_def)
  show ?thesis
  proof (cases "jget v ''cooldown_ms''")
    case None
    with i d e show ?thesis by (simp add: activate_payload_def Let_def jindex_jget)
  next
    case (Some c)
    with v obtain ci where "jint c = Some ci" by (auto simp: activate_shape_def is_jint_def)
    with Some i d e show ?thesis by (simp add: activate_payload_def Let_def jindex_jget)
  qed
qed

lemma activate_payload_missing:
  "jget m ''activate_creative'' = None \<Longrightarrow> activate_payload m = Inl (KeyError ''manifest_id'')"
  by (simp add: activate_payload_def jget_or_empty_def)

lemma payload_reason_ok:
  "obj_field (\<lambda>_. True) m k \<Longrightarrow> \<exists>r. payload_reason m k = Inr r"
  by (auto simp: payload_reason_def jget_or_empty_def obj_field_def jget_attr_def split: option.splits)

lemma ch_admit_shape:
  "command_shape m \<Longrightarrow> ch_admit errs m h = Inl e \<Longrightarrow> False"
  "command_shape m \<Longrightarrow> ch_admit errs m h = Inr (Some (seq, i, ty)) \<Longrightarrow>
   ty \<in> {''activate_creative'', ''freeze'', ''safe_mode'', ''clear_safe_mode''}"
  by (auto simp: command_shape_def is_jint_def ch_admit_def jindex_jget jstr_opt_Some_iff
      split: option.splits if_splits)

text \<open>
  \<open>handle_raw\<close> is documented never to raise. For validated messages it raises in
  exactly one case: a fresh \<open>activate_creative\<close> command without its payload object, which
  the contract does not require; the escaping exception is \<open>KeyError 'manifest_id'\<close>.
\<close>

theorem handle_raw_raises_iff:
  assumes shape: "\<And>m. schema_ok errs m \<Longrightarrow> command_shape m"
    and checks: "\<And>i man. ps_get (ch_store h) i = Some man \<Longrightarrow> \<not> is_inl (ps_check_manifest fromiso wall man)"
  shows "fst (handle_raw errs fromiso now wall (Decoded msg) h) = Inl e \<longleftrightarrow>
    e = KeyError ''manifest_id'' \<and> jget msg ''activate_creative'' = None \<and>
    (\<exists>seq i. ch_admit errs msg h = Inr (Some (seq, i, ''activate_creative'')))"
proof (cases "ch_admit errs msg h")
  case (Inl x)
  then have "schema_ok errs msg" by (auto simp: ch_admit_def split: if_splits)
  with Inl show ?thesis using ch_admit_shape(1) [OF shape] by blast
next
  case (Inr a)
  show ?thesis
  proof (cases a)
    case None
    with Inr show ?thesis by (simp add: handle_raw_def)
  next
    case (Some c)
    obtain seq i ty where c: "c = (seq, i, ty)" by (cases c)
    have sh: "command_shape msg"
      using Inr Some by (intro shape) (auto simp: ch_admit_def split: if_splits)
    have ty: "ty \<in> {''activate_creative'', ''freeze'', ''safe_mode'', ''clear_safe_mode''}"
      using ch_admit_shape(2) [OF sh] Inr Some c by blast
    have raw: "fst (handle_raw errs fromiso now wall (Decoded msg) h) = Inl e \<longleftrightarrow>
        fst (ch_dispatch fromiso now wall msg ty (ch_record seq i h)) = Inl e" for e
      by (simp add: handle_raw_def Inr Some c split: sum.split prod.split)
    show ?thesis
    proof (cases "ty = ''activate_creative''")
      case False
      obtain r1 r2 where "payload_reason msg ''freeze'' = Inr r1" "payload_reason msg ''safe_mode'' = Inr r2"
        using payload_reason_ok sh unfolding command_shape_def by metis
      with False ty show ?thesis
        unfolding raw by (auto simp: ch_dispatch_def Inr Some c split: prod.split)
    next
      case True
      show ?thesis
      proof (cases "jget msg ''activate_creative''")
        case None
        with True show ?thesis
          unfolding raw
          by (auto simp: ch_dispatch_def handle_activate_creative_def activate_payload_missing Inr Some c)
      next
        case (Some v)
        obtain m d cd why where p: "activate_payload msg = Inr (m, d, cd, why)"
          using activate_payload_shape [OF sh Some] by auto
        have "\<not> is_inl (fst (handle_activate_creative fromiso now wall msg (ch_record seq i h)))"
          using checks [of m]
          by (auto simp: handle_activate_creative_def p Let_def is_inl_def split: option.split sum.split prod.split)
        with True Some show ?thesis
          unfolding raw by (auto simp: ch_dispatch_def is_inl_def split: sum.splits)
      qed
    qed
  qed
qed

theorem handle_raw_raises_iff_witness:
  "fst (handle_raw (errs_of command_shape) no_iso 1 1 (Decoded (demo_command ''c1'' 7 [])) demo_handler) =
     Inl (KeyError ''manifest_id'')"
proof -
  have c: "\<not> is_inl (ps_check_manifest no_iso 1 man)" if "ps_get (ch_store demo_handler) i = Some man" for i man
    using that by (auto simp: ps_get_def demo_handler_defs ps_check_manifest_def field_set_def split: if_splits)
  have "ch_admit (errs_of command_shape) (demo_command ''c1'' 7 []) demo_handler =
      Inr (Some (7, ''c1'', ''activate_creative''))"
    by (simp add: ch_admit_def demo_handler_defs dict_keys_def command_shape_def is_jint_def obj_field_def)
  then show ?thesis
    using handle_raw_raises_iff [of "errs_of command_shape" demo_handler no_iso 1 1 "demo_command ''c1'' 7 []"] c
    by (simp add: demo_command_def)
qed

lemma ch_loop_failures:
  "snd (snd (ch_loop errs fromiso (map WsFailed ts) (h, b))) = (ws_next_backoff ^^ length ts) b \<and>
   length (fst (fst (ch_loop errs fromiso (map WsFailed ts) (h, b)))) = length ts \<and>
   (\<forall>r \<in> set (fst (fst (ch_loop errs fromiso (map WsFailed ts) (h, b)))). tr_action r = ''show_fallback'')"
proof (induction ts arbitrary: h b)
  case Nil
  show ?case by simp
next
  case (Cons t ts)
  obtain r sm' where s: "on_connection_lost t (ch_sm h) = (r, sm')" by (rule prod.exhaust)
  then have "tr_action r = ''show_fallback''" by (auto simp: on_connection_lost_def split: if_splits)
  with Cons.IH [of "h\<lparr>ch_sm := sm'\<rparr>" "ws_next_backoff b"] s show ?case
    by (simp add: split_beta Let_def funpow_swap1)
qed

text \<open>
  After a connection that is lost and \<open>n\<close> failed attempts, every failure has sent
  the player to its fallback bundle and the delay is \<open>min (2^n) 30\<close> seconds, never above
  the cap and never below the initial delay.
\<close>

theorem reconnect_delay:
  "let w' = ch_loop errs fromiso (WsConnected # map WsFailed ts) w
   in snd (snd w') = min (2 ^ length ts) 30 \<and> length (fst (fst w')) = length ts \<and>
      list_all (\<lambda>r. tr_action r = ''show_fallback'') (fst (fst w'))"
proof -
  obtain h b where w: "w = (h, b)" by (cases w)
  show ?thesis
    using ch_loop_failures [of errs fromiso ts "reset_session h" ws_initial_backoff]
      ws.after_failures [of "length ts"]
    by (simp add: w Let_def ws_initial_backoff_def ws_max_backoff_def list_all_iff)
qed

end
