(* ===== verification/Renderer.thy ===== *)
theory Renderer
  imports Prelude
begin

section \<open>Renderers (services/player/player/renderer.py)\<close>

text \<open>
  The abstract class \<open>RendererBase\<close> is a record of operations over a renderer state; the
  contract its docstrings give ("never blank", \<open>RendererError\<close> on failure) is a locale,
  interpreted on both implementations.
\<close>

record 'r renderer =
  rn_startup :: "'r \<Rightarrow> unit res \<times> 'r"
  rn_show_fallback :: "string \<Rightarrow> 'r \<Rightarrow> unit res \<times> 'r"
  rn_play_manifest_item :: "string \<Rightarrow> string \<Rightarrow> int \<Rightarrow> bool \<Rightarrow> 'r \<Rightarrow> unit res \<times> 'r"
  rn_stop :: "'r \<Rightarrow> 'r"

subsection \<open>The contract\<close>

text \<open>
  \<open>screen\<close> is the path of what is displayed. A successful call displays its asset, a
  failing one raises \<open>RendererError\<close> and leaves the old content or the new asset.
\<close>

locale renderer_contract =
  fixes R :: "'r renderer"
    and screen :: "'r \<Rightarrow> string option"
  assumes show_ok: "rn_show_fallback R p r = (Inr u, r') \<Longrightarrow> screen r' = Some p"
    and show_fails: "rn_show_fallback R p r = (Inl e, r') \<Longrightarrow>
      e = RendererError \<and> (screen r' = screen r \<or> screen r' = Some p)"
    and play_ok: "rn_play_manifest_item R p ty d l r = (Inr u, r') \<Longrightarrow> screen r' = Some p"
    and play_fails: "rn_play_manifest_item R p ty d l r = (Inl e, r') \<Longrightarrow>
      e = RendererError \<and> (screen r' = screen r \<or> screen r' = Some p)"
begin

lemma show_keeps_screen [never_blank]:
  "screen r \<noteq> None \<Longrightarrow> screen (snd (rn_show_fallback R p r)) \<noteq> None"
proof (cases "rn_show_fallback R p r")
  case (Pair res r')
  assume "screen r \<noteq> None"
  with Pair show ?thesis
    by (cases res) (use show_ok [of p r] show_fails [of p r] in auto)
qed

lemma play_keeps_screen [never_blank]:
  "screen r \<noteq> None \<Longrightarrow> screen (snd (rn_play_manifest_item R p ty d l r)) \<noteq> None"
proof (cases "rn_play_manifest_item R p ty d l r")
  case (Pair res r')
  assume "screen r \<noteq> None"
  with Pair show ?thesis
    by (cases res) (use play_ok [of p ty d l r] play_fails [of p ty d l r] in auto)
qed

end

subsection \<open>StubRenderer\<close>

text \<open>Every call succeeds and is logged; the state is the log.\<close>

datatype stub_call =
    StubStartup
  | StubFallback string
  | StubPlay string string int bool
  | StubStop

type_synonym stub_log = "stub_call list"

definition stub_startup :: "stub_log \<Rightarrow> unit res \<times> stub_log" where
  "stub_startup r = (Inr (), r @ [StubStartup])"

definition stub_show_fallback :: "string \<Rightarrow> stub_log \<Rightarrow> unit res \<times> stub_log" where
  "stub_show_fallback p r = (Inr (), r @ [StubFallback p])"

definition stub_play_manifest_item :: "string \<Rightarrow> string \<Rightarrow> int \<Rightarrow> bool \<Rightarrow> stub_log \<Rightarrow> unit res \<times> stub_log" where
  "stub_play_manifest_item p ty d l r = (Inr (), r @ [StubPlay p ty d l])"

definition stub_stop :: "stub_log \<Rightarrow> stub_log" where
  "stub_stop r = r @ [StubStop]"

definition stub_renderer :: "stub_log renderer" where
  "stub_renderer = \<lparr>rn_startup = stub_startup, rn_show_fallback = stub_show_fallback,
     rn_play_manifest_item = stub_play_manifest_item, rn_stop = stub_stop\<rparr>"

lemma stub_renderer_simps [simp]:
  "rn_show_fallback stub_renderer = stub_show_fallback"
  "rn_play_manifest_item stub_renderer = stub_play_manifest_item"
  "rn_startup stub_renderer = stub_startup"
  by (simp_all add: stub_renderer_def)

fun stub_shown :: "stub_call \<Rightarrow> string option" where
  "stub_shown (StubFallback p) = Some p"
| "stub_shown (StubPlay p _ _ _) = Some p"
| "stub_shown _ = None"

definition stub_screen :: "stub_log \<Rightarrow> string option" where
  "stub_screen r = latest stub_shown r"

lemma stub_screen_snoc [simp]:
  "stub_screen (r @ [c]) = (case stub_shown c of Some p \<Rightarrow> Some p | None \<Rightarrow> stub_screen r)"
  by (simp add: stub_screen_def split: option.split)

interpretation stub: renderer_contract stub_renderer stub_screen
  by unfold_locales (auto simp: stub_show_fallback_def stub_play_manifest_item_def)

subsection \<open>MpvRenderer\<close>

text \<open>
  The mpv process and its socket are outside the program. \<open>mp_process\<close> is the child with
  its return code (\<open>None\<close> while it runs), \<open>mp_found\<close> whether the executable exists,
  \<open>mp_polls\<close> the clock readings and answers of \<open>Path(ipc).exists()\<close> during startup,
  \<open>mp_sends\<close> whether each coming socket write succeeds (all succeed when the list is
  used up), \<open>mp_received\<close> the commands mpv was given, \<open>mp_exit\<close> the exit code if mpv ends
  within five seconds of \<open>terminate\<close>.
\<close>

datatype ipc_command = Loadfile string | SetLoopFile string

record mpv =
  mp_process :: "int option option"
  mp_found :: bool
  mp_polls :: "(rat \<times> bool) list"
  mp_sends :: "bool list"
  mp_received :: "ipc_command list"
  mp_exit :: "int option"

fun mpv_wait :: "rat \<Rightarrow> (rat \<times> bool) list \<Rightarrow> unit res" where
  "mpv_wait deadline [] = Inl RendererStartupError"
| "mpv_wait deadline ((t, exists_ipc) # ps) =
     (if \<not> t < deadline then Inl RendererStartupError
      else if exists_ipc then Inr () else mpv_wait deadline ps)"

text \<open>\<open>startup\<close>; the first poll gives the clock from which the five seconds count.\<close>

definition mpv_startup :: "mpv \<Rightarrow> unit res \<times> mpv" where
  "mpv_startup r =
     (if \<not> mp_found r then (Inl RendererStartupError, r)
      else (mpv_wait ((case mp_polls r of [] \<Rightarrow> 0 | (t, _) # _ \<Rightarrow> t) + 5) (mp_polls r),
            r\<lparr>mp_process := Some None\<rparr>))"

definition mpv_alive :: "mpv \<Rightarrow> bool" where
  "mpv_alive r \<longleftrightarrow> (case mp_process r of Some (Some rc) \<Rightarrow> False | _ \<Rightarrow> True)"

definition mpv_ipc :: "ipc_command \<Rightarrow> mpv \<Rightarrow> unit res \<times> mpv" where
  "mpv_ipc c r =
     (if \<not> mpv_alive r then (Inl RendererError, r)
      else (case mp_sends r of
              [] \<Rightarrow> (Inr (), r\<lparr>mp_received := mp_received r @ [c]\<rparr>)
            | True # ss \<Rightarrow> (Inr (), r\<lparr>mp_received := mp_received r @ [c], mp_sends := ss\<rparr>)
            | False # ss \<Rightarrow> (Inl RendererError, r\<lparr>mp_sends := ss\<rparr>)))"

definition mpv_show_fallback :: "string \<Rightarrow> mpv \<Rightarrow> unit res \<times> mpv" where
  "mpv_show_fallback p r =
     (case mpv_ipc (Loadfile p) r of
        (Inl e, r') \<Rightarrow> (Inl e, r')
      | (Inr _, r') \<Rightarrow> mpv_ipc (SetLoopFile ''inf'') r')"

definition mpv_play_manifest_item :: "string \<Rightarrow> string \<Rightarrow> int \<Rightarrow> bool \<Rightarrow> mpv \<Rightarrow> unit res \<times> mpv" where
  "mpv_play_manifest_item p ty d l r =
     (case mpv_ipc (Loadfile p) r of
        (Inl e, r') \<Rightarrow> (Inl e, r')
      | (Inr _, r') \<Rightarrow> mpv_ipc (SetLoopFile (if l then ''inf'' else ''no'')) r')"

definition mpv_stop :: "mpv \<Rightarrow> mpv" where
  "mpv_stop r =
     (case mp_process r of
        None \<Rightarrow> r
      | Some rc \<Rightarrow> r\<lparr>mp_process := Some (case mp_exit r of Some c \<Rightarrow> Some c | None \<Rightarrow> rc)\<rparr>)"

definition mpv_renderer :: "mpv renderer" where
  "mpv_renderer = \<lparr>rn_startup = mpv_startup, rn_show_fallback = mpv_show_fallback,
     rn_play_manifest_item = mpv_play_manifest_item, rn_stop = mpv_stop\<rparr>"

lemma mpv_renderer_simps [simp]:
  "rn_show_fallback mpv_renderer = mpv_show_fallback"
  "rn_play_manifest_item mpv_renderer = mpv_play_manifest_item"
  "rn_startup mpv_renderer = mpv_startup"
  by (simp_all add: mpv_renderer_def)

fun ipc_loaded :: "ipc_command \<Rightarrow> string option" where
  "ipc_loaded (Loadfile p) = Some p"
| "ipc_loaded (SetLoopFile _) = None"

text \<open>mpv shows the file of the last \<open>loadfile\<close> it received.\<close>

definition mpv_screen :: "mpv \<Rightarrow> string option" where
  "mpv_screen r = latest ipc_loaded (mp_received r)"

lemma mpv_ipc_cases:
  assumes "mpv_ipc c r = (res, r')"
  shows "(case res of Inr _ \<Rightarrow> mpv_screen r' = (case ipc_loaded c of Some p \<Rightarrow> Some p | None \<Rightarrow> mpv_screen r)
     | Inl e \<Rightarrow> e = RendererError \<and> mpv_screen r' = mpv_screen r)"
  using assms
  by (auto simp: mpv_ipc_def mpv_screen_def split: if_splits list.splits option.splits bool.splits)

lemma mpv_load_then_set:
  assumes "(case mpv_ipc (Loadfile p) r of (Inl e, r') \<Rightarrow> (Inl e, r') | (Inr _, r') \<Rightarrow> mpv_ipc (SetLoopFile l) r') = (res, r'')"
  shows "(case res of Inr _ \<Rightarrow> mpv_screen r'' = Some p
     | Inl e \<Rightarrow> e = RendererError \<and> (mpv_screen r'' = mpv_screen r \<or> mpv_screen r'' = Some p))"
proof (cases "mpv_ipc (Loadfile p) r")
  case (Pair res1 r1)
  show ?thesis
  proof (cases res1)
    case (Inl e)
    with assms Pair mpv_ipc_cases [OF Pair] show ?thesis by auto
  next
    case (Inr u)
    with assms Pair have "mpv_ipc (SetLoopFile l) r1 = (res, r'')" by simp
    from mpv_ipc_cases [OF this] mpv_ipc_cases [OF Pair] Inr show ?thesis
      by (auto split: sum.splits)
  qed
qed

interpretation mpv: renderer_contract mpv_renderer mpv_screen
  by unfold_locales
    (auto simp: mpv_show_fallback_def mpv_play_manifest_item_def dest!: mpv_load_then_set)

text \<open>\<open>create_renderer\<close>: mpv when configured, the stub for every other value.\<close>

datatype backend = MpvBackend | StubBackend

definition create_renderer :: "string \<Rightarrow> backend" where
  "create_renderer configured = (if ascii_lower configured = ''mpv'' then MpvBackend else StubBackend)"

end
