(* ===== verification/PlayerMain.thy ===== *)
theory PlayerMain
  imports CommandHandler Fallback Renderer
begin

section \<open>Player service (services/player/player/main.py, health.py, event_publisher.py)\<close>

text \<open>
  The player as one process: its command handler, fallback bundle, renderer, ICD-9 event
  publisher and the control endpoints, driven by a sequence of events of its asyncio loop.
  Handlers run to completion before the next event: the calls they await (the renderer,
  the MQTT client) are the operations of the model.
\<close>

subsection \<open>ICD-9 events\<close>

text \<open>
  The MQTT client's behaviour is the function \<open>ep_world\<close>: for the n-th event built, its
  uuid, its timestamp and whether \<open>client.publish\<close> succeeds.
\<close>

record event_publisher =
  ep_client :: bool
  ep_published :: nat
  ep_failed :: nat
  ep_built :: nat
  ep_sent :: "json list"
  ep_world :: "nat \<Rightarrow> string \<times> string \<times> bool"

definition init_ep :: "(nat \<Rightarrow> string \<times> string \<times> bool) \<Rightarrow> event_publisher" where
  "init_ep w = \<lparr>ep_client = False, ep_published = 0, ep_failed = 0, ep_built = 0, ep_sent = [],
     ep_world = w\<rparr>"

definition set_client :: "event_publisher \<Rightarrow> event_publisher" where
  "set_client ep = ep\<lparr>ep_client := True\<rparr>"

definition clear_client :: "event_publisher \<Rightarrow> event_publisher" where
  "clear_client ep = ep\<lparr>ep_client := False\<rparr>"

definition opt_field :: "string \<Rightarrow> json option \<Rightarrow> (string \<times> json) list" where
  "opt_field k v = (case v of None \<Rightarrow> [] | Some j \<Rightarrow> [(k, j)])"

definition build_event :: "string \<Rightarrow> string \<Rightarrow> string \<Rightarrow> string option \<Rightarrow> bool option \<Rightarrow> string option \<Rightarrow> json" where
  "build_event event_id produced_at event_type manifest_id dwell_elapsed rule_rationale =
     JObj ([(''schema_version'', JStr ''1.0.0''), (''event_id'', JStr event_id),
            (''produced_at'', JStr produced_at), (''event_type'', JStr event_type)] @
           opt_field ''manifest_id'' (map_option JStr manifest_id) @
           opt_field ''dwell_elapsed'' (map_option JBool dwell_elapsed) @
           opt_field ''rule_rationale'' (map_option JStr rule_rationale))"

definition ep_publish :: "string \<Rightarrow> string option \<Rightarrow> bool option \<Rightarrow> string option
    \<Rightarrow> event_publisher \<Rightarrow> event_publisher" where
  "ep_publish event_type manifest_id dwell_elapsed rule_rationale ep =
     (let (event_id, produced_at, sends) = ep_world ep (ep_built ep);
          event = build_event event_id produced_at event_type manifest_id dwell_elapsed rule_rationale;
          ep' = ep\<lparr>ep_built := Suc (ep_built ep)\<rparr>
      in if \<not> ep_client ep then ep'
         else if sends then ep'\<lparr>ep_published := ep_published ep + 1, ep_sent := ep_sent ep @ [event]\<rparr>
         else ep'\<lparr>ep_failed := ep_failed ep + 1\<rparr>)"

definition manifest_activated :: "string \<Rightarrow> string option \<Rightarrow> event_publisher \<Rightarrow> event_publisher" where
  "manifest_activated m why ep = ep_publish ''manifest_activated'' (Some m) None why ep"

definition manifest_deactivated :: "string \<Rightarrow> bool option \<Rightarrow> event_publisher \<Rightarrow> event_publisher" where
  "manifest_deactivated m dwell ep = ep_publish ''manifest_deactivated'' (Some m) dwell None ep"

definition ep_frozen :: "event_publisher \<Rightarrow> event_publisher" where
  "ep_frozen ep = ep_publish ''frozen'' None None None ep"

definition safe_mode_entered :: "event_publisher \<Rightarrow> event_publisher" where
  "safe_mode_entered ep = ep_publish ''safe_mode_entered'' None None None ep"

definition fallback_entered :: "event_publisher \<Rightarrow> event_publisher" where
  "fallback_entered ep = ep_publish ''fallback_entered'' None None None ep"

lemmas ep_defs = manifest_activated_def manifest_deactivated_def ep_frozen_def
  safe_mode_entered_def fallback_entered_def

subsection \<open>Executing a transition\<close>

text \<open>\<open>Path(d) / n\<close>: an absolute right operand replaces the left one.\<close>

definition path_div :: "string \<Rightarrow> string \<Rightarrow> string" where
  "path_div d n = (if take 1 n = ''/'' then n else path_join d n)"

definition show_fallback :: "'r renderer \<Rightarrow> fallback_bundle \<Rightarrow> 'r \<Rightarrow> unit res \<times> 'r" where
  "show_fallback R fb r =
     (case asset_path fb of Inl e \<Rightarrow> (Inl e, r) | Inr p \<Rightarrow> rn_show_fallback R p r)"

text \<open>The arguments of \<open>play_manifest_item\<close>, read from the first item of a manifest.\<close>

definition play_args :: "string \<Rightarrow> json \<Rightarrow> (string \<times> string \<times> int \<times> bool) res" where
  "play_args cache it =
     (case jindex it ''asset_id'' of Inl e \<Rightarrow> Inl e | Inr ja \<Rightarrow>
     (case jstr_opt (Some ja) of None \<Rightarrow> Inl TypeError | Some a \<Rightarrow>
     (case jindex it ''asset_type'' of Inl e \<Rightarrow> Inl e | Inr jt \<Rightarrow>
     (case jstr_opt (Some jt) of None \<Rightarrow> Inl TypeError | Some t \<Rightarrow>
     (case jindex it ''duration_ms'' of Inl e \<Rightarrow> Inl e | Inr jd \<Rightarrow>
     (case jint jd of None \<Rightarrow> Inl TypeError | Some d \<Rightarrow>
        Inr (path_div cache a, t, d, field_set it ''loop'')))))))"

definition execute_transition :: "'r renderer \<Rightarrow> string \<Rightarrow> transition_result \<Rightarrow> fallback_bundle
    \<Rightarrow> player_store \<Rightarrow> 'r \<Rightarrow> unit res \<times> 'r" where
  "execute_transition R cache res fb store r =
     (if tr_action res = ''show_fallback'' then show_fallback R fb r
      else if tr_action res = ''play_manifest'' then
        (case tr_manifest_id res of
           None \<Rightarrow> show_fallback R fb r
         | Some manifest_id \<Rightarrow>
        (case ps_get store manifest_id of
           None \<Rightarrow> show_fallback R fb r
         | Some manifest \<Rightarrow>
        (case jget manifest ''items'' of
           Some (JArr (it # its)) \<Rightarrow>
             (case play_args cache it of
                Inl e \<Rightarrow> (Inl e, r)
              | Inr (p, ty, d, l) \<Rightarrow>
                  (case rn_play_manifest_item R p ty d l r of
                     (Inr _, r') \<Rightarrow> (Inr (), r')
                   | (Inl e, r') \<Rightarrow>
                       if e = RendererError then show_fallback R fb r' else (Inl e, r')))
         | _ \<Rightarrow> show_fallback R fb r)))
      else if tr_action res = ''hold'' then (Inr (), r)
      else show_fallback R fb r)"

subsection \<open>The process\<close>

record 'r player =
  pl_handler :: command_handler
  pl_fallback :: fallback_bundle
  pl_renderer :: 'r
  pl_events :: event_publisher
  pl_prev_manifest_id :: "string option"
  pl_is_ready :: bool
  pl_callback_set :: bool
  pl_ws_backoff :: rat
  pl_mqtt_backoff :: rat

text \<open>What \<open>on_transition\<close> publishes once the renderer action has returned.\<close>

definition announce :: "transition_result \<Rightarrow> 'r player \<Rightarrow> 'r player" where
  "announce res pl =
     (let prev = pl_prev_manifest_id pl; ep = pl_events pl in
      case (if tr_action res = ''play_manifest'' then tr_manifest_id res else None) of
        Some m \<Rightarrow>
          if m = [] then pl
          else (let ep1 = (case prev of
                    Some p \<Rightarrow> if p \<noteq> m then manifest_deactivated p None ep else ep
                  | None \<Rightarrow> ep)
                in pl\<lparr>pl_events := manifest_activated m (tr_reason res) ep1,
                      pl_prev_manifest_id := Some m\<rparr>)
      | None \<Rightarrow>
          if tr_action res = ''show_fallback'' then
            (if prev = None then pl
             else pl\<lparr>pl_events := (if tr_new_state res = SAFE_MODE then safe_mode_entered ep
                                   else fallback_entered ep),
                     pl_prev_manifest_id := None\<rparr>)
          else if tr_action res = ''hold'' \<and> tr_new_state res = FROZEN then
            pl\<lparr>pl_events := ep_frozen ep\<rparr>
          else pl)"

definition on_transition :: "'r renderer \<Rightarrow> string \<Rightarrow> transition_result \<Rightarrow> 'r player
    \<Rightarrow> unit res \<times> 'r player" where
  "on_transition R cache res pl =
     (case execute_transition R cache res (pl_fallback pl) (ch_store (pl_handler pl)) (pl_renderer pl) of
        (Inl e, r') \<Rightarrow> (Inl e, pl\<lparr>pl_renderer := r'\<rparr>)
      | (Inr _, r') \<Rightarrow> (Inr (), announce res (pl\<lparr>pl_renderer := r'\<rparr>)))"

text \<open>One event of the command loop, with the callback it awaits.\<close>

definition player_ws :: "'r renderer \<Rightarrow> string \<Rightarrow> (json \<Rightarrow> string list) \<Rightarrow> iso_parser \<Rightarrow> ws_event
    \<Rightarrow> 'r player \<Rightarrow> unit res \<times> 'r player" where
  "player_ws R cache errs fromiso e pl =
     (case ch_loop_step errs fromiso e (pl_handler pl, pl_ws_backoff pl) of
        (res, (h', b')) \<Rightarrow>
          (let pl' = pl\<lparr>pl_handler := h', pl_ws_backoff := b'\<rparr> in
           case res of
             Inl err \<Rightarrow> (Inl err, pl')
           | Inr None \<Rightarrow> (Inr (), pl')
           | Inr (Some r) \<Rightarrow> on_transition R cache r pl'))"

text \<open>
  One round of \<open>_fallback_refresh_loop\<close>: the renderer is updated only when the state's
  value is one of the strings the source compares it with.
\<close>

definition refresh_round :: "'r renderer \<Rightarrow> fb_env \<Rightarrow> 'r player \<Rightarrow> unit res \<times> 'r player" where
  "refresh_round R env pl =
     (let (changed, fb') = fb_refresh env (pl_fallback pl);
          pl' = pl\<lparr>pl_fallback := fb'\<rparr>
      in if changed \<and> player_state_value (sm_state (ch_sm (pl_handler pl))) \<in> {''FALLBACK'', ''SAFE_MODE''}
         then (let (res, r') = show_fallback R fb' (pl_renderer pl) in (res, pl'\<lparr>pl_renderer := r'\<rparr>))
         else (Inr (), pl'))"

text \<open>One round of \<open>_manifest_reload_loop\<close>: every exception is caught and logged.\<close>

definition reload_round :: "(json \<Rightarrow> string list) \<Rightarrow> manifest_dir option \<Rightarrow> 'r player \<Rightarrow> 'r player" where
  "reload_round errs dir pl =
     pl\<lparr>pl_handler := (pl_handler pl)\<lparr>ch_store := snd (ps_reload errs dir (ch_store (pl_handler pl)))\<rparr>\<rparr>"

subsection \<open>Control endpoints (health.py)\<close>

definition valid_safe_mode_reasons :: "string list" where
  "valid_safe_mode_reasons = [''operator_manual'', ''supervisor_escalation'', ''boot_loop_protection'']"

text \<open>The reason of an engage request; a malformed body (\<open>None\<close>) or an unknown reason gives the default.\<close>

definition engage_reason :: "json option \<Rightarrow> string" where
  "engage_reason body =
     (case body of
        Some b \<Rightarrow> (case jstr_opt (jget b ''reason'') of
                    Some s \<Rightarrow> if s \<in> set valid_safe_mode_reasons then s else ''operator_manual''
                  | None \<Rightarrow> ''operator_manual'')
      | None \<Rightarrow> ''operator_manual'')"

text \<open>The endpoints answer with an HTTP status; an exception of the callback is a 500.\<close>

definition safe_mode_engage :: "'r renderer \<Rightarrow> string \<Rightarrow> rat \<Rightarrow> json option \<Rightarrow> 'r player \<Rightarrow> nat \<times> 'r player" where
  "safe_mode_engage R cache now body pl =
     (if \<not> pl_callback_set pl \<or> \<not> pl_is_ready pl then (503, pl)
      else (let (r, sm') = on_safe_mode now (Some (engage_reason body)) (ch_sm (pl_handler pl));
                (res, pl') = on_transition R cache r (pl\<lparr>pl_handler := (pl_handler pl)\<lparr>ch_sm := sm'\<rparr>\<rparr>)
            in (if is_inl res then 500 else 200, pl')))"

definition safe_mode_clear :: "'r renderer \<Rightarrow> string \<Rightarrow> 'r player \<Rightarrow> nat \<times> 'r player" where
  "safe_mode_clear R cache pl =
     (if \<not> pl_callback_set pl \<or> \<not> pl_is_ready pl then (503, pl)
      else (let (r, sm') = on_clear_safe_mode (ch_sm (pl_handler pl));
                (res, pl') = on_transition R cache r (pl\<lparr>pl_handler := (pl_handler pl)\<lparr>ch_sm := sm'\<rparr>\<rparr>)
            in (if is_inl res then 500 else 200, pl')))"

definition player_readyz :: "rat \<Rightarrow> 'r player \<Rightarrow> nat \<times> sm_status_dict option" where
  "player_readyz now pl =
     (if \<not> pl_is_ready pl then (503, None) else (200, Some (sm_status now (ch_sm (pl_handler pl)))))"

subsection \<open>The MQTT task\<close>

definition mqtt_next_backoff :: "rat \<Rightarrow> rat" where
  "mqtt_next_backoff b = min (b * 2) 60"

interpretation player_mqtt: reconnect 2 60 mqtt_next_backoff
  by unfold_locales (simp_all add: mqtt_next_backoff_def)

definition player_mqtt_up :: "'r player \<Rightarrow> 'r player" where
  "player_mqtt_up pl = pl\<lparr>pl_events := set_client (pl_events pl), pl_mqtt_backoff := 2\<rparr>"

definition player_mqtt_down :: "'r player \<Rightarrow> 'r player" where
  "player_mqtt_down pl =
     pl\<lparr>pl_events := clear_client (pl_events pl), pl_mqtt_backoff := mqtt_next_backoff (pl_mqtt_backoff pl)\<rparr>"

subsection \<open>Startup and runs\<close>

text \<open>
  \<open>run()\<close> up to the command loop: \<open>BootExit 1\<close> is the documented \<open>sys.exit(1)\<close>,
  \<open>BootCrash\<close> an exception nothing catches.
\<close>

datatype 'r boot = BootExit nat 'r | BootCrash py_error 'r | Booted "'r player"

definition player_boot :: "'r renderer \<Rightarrow> (json \<Rightarrow> string list) \<Rightarrow> fb_env \<Rightarrow> manifest_dir option
    \<Rightarrow> (nat \<Rightarrow> string \<times> string \<times> bool) \<Rightarrow> 'r \<Rightarrow> 'r boot" where
  "player_boot R errs env dir world r0 =
     (case fb_validate env init_fb of
        (Inl e, _) \<Rightarrow> if e = FallbackBundleMissingError then BootExit 1 r0 else BootCrash e r0
      | (Inr _, fb) \<Rightarrow>
     (case rn_startup R r0 of
        (Inl e, r1) \<Rightarrow> if e = RendererStartupError then BootExit 1 r1 else BootCrash e r1
      | (Inr _, r1) \<Rightarrow>
     (case show_fallback R fb r1 of
        (Inl e, r2) \<Rightarrow> BootCrash e r2
      | (Inr _, r2) \<Rightarrow>
     (case ps_load_from_disk errs dir [] of
        (Inl e, _) \<Rightarrow> BootCrash e r2
      | (Inr _, store) \<Rightarrow>
          Booted \<lparr>pl_handler = init_handler init_sm store True, pl_fallback = fb, pl_renderer = r2,
            pl_events = init_ep world, pl_prev_manifest_id = None, pl_is_ready = True,
            pl_callback_set = True, pl_ws_backoff = ws_initial_backoff, pl_mqtt_backoff = 2\<rparr>))))"

datatype player_input =
    PiWs ws_event
  | PiRefresh fb_env
  | PiReload "manifest_dir option"
  | PiEngage rat "json option"
  | PiClear
  | PiMqttUp
  | PiMqttDown

text \<open>An exception of the command loop ends the service; those of the other tasks do not.\<close>

fun player_step :: "'r renderer \<Rightarrow> string \<Rightarrow> (json \<Rightarrow> string list) \<Rightarrow> (json \<Rightarrow> string list) \<Rightarrow> iso_parser
    \<Rightarrow> player_input \<Rightarrow> 'r player \<Rightarrow> unit res \<times> 'r player" where
  "player_step R cache cerrs merrs fromiso (PiWs e) pl = player_ws R cache cerrs fromiso e pl"
| "player_step R cache cerrs merrs fromiso (PiRefresh env) pl = (Inr (), snd (refresh_round R env pl))"
| "player_step R cache cerrs merrs fromiso (PiReload dir) pl = (Inr (), reload_round merrs dir pl)"
| "player_step R cache cerrs merrs fromiso (PiEngage now body) pl =
     (Inr (), snd (safe_mode_engage R cache now body pl))"
| "player_step R cache cerrs merrs fromiso PiClear pl = (Inr (), snd (safe_mode_clear R cache pl))"
| "player_step R cache cerrs merrs fromiso PiMqttUp pl = (Inr (), player_mqtt_up pl)"
| "player_step R cache cerrs merrs fromiso PiMqttDown pl = (Inr (), player_mqtt_down pl)"

fun player_run :: "'r renderer \<Rightarrow> string \<Rightarrow> (json \<Rightarrow> string list) \<Rightarrow> (json \<Rightarrow> string list) \<Rightarrow> iso_parser
    \<Rightarrow> player_input list \<Rightarrow> 'r player \<Rightarrow> unit res \<times> 'r player" where
  "player_run R cache cerrs merrs fromiso [] pl = (Inr (), pl)"
| "player_run R cache cerrs merrs fromiso (i # inputs) pl =
     (case player_step R cache cerrs merrs fromiso i pl of
        (Inl e, pl') \<Rightarrow> (Inl e, pl')
      | (Inr _, pl') \<Rightarrow> player_run R cache cerrs merrs fromiso inputs pl')"

subsection \<open>Never blank\<close>

lemma announce_renderer [simp]:
  "pl_renderer (announce res pl) = pl_renderer pl"
  "pl_handler (announce res pl) = pl_handler pl"
  "pl_fallback (announce res pl) = pl_fallback pl"
  "pl_is_ready (announce res pl) = pl_is_ready pl"
  "pl_callback_set (announce res pl) = pl_callback_set pl"
  by (simp_all add: announce_def Let_def split: option.split)

context renderer_contract
begin

lemma show_fallback_screen [never_blank]:
  "screen r \<noteq> None \<Longrightarrow> screen (snd (show_fallback R fb r)) \<noteq> None"
  using show_keeps_screen [of r] by (simp add: show_fallback_def split: sum.split)

lemma execute_transition_screen [never_blank]:
  assumes "screen r \<noteq> None"
  shows "screen (snd (execute_transition R cache res fb store r)) \<noteq> None"
proof -
  note fbs = show_fallback_screen [of _ fb]
  have play: "screen (snd (case rn_play_manifest_item R p ty d l r of (Inr _, r') \<Rightarrow> (Inr (), r')
      | (Inl e, r') \<Rightarrow> if e = RendererError then show_fallback R fb r' else (Inl e, r'))) \<noteq> None" for p ty d l
    using play_keeps_screen [OF assms, of p ty d l] fbs
    by (cases "rn_play_manifest_item R p ty d l r") (auto split: sum.split)
  have item: "screen (snd (case play_args cache it of Inl e \<Rightarrow> (Inl e, r)
      | Inr (p, ty, d, l) \<Rightarrow> (case rn_play_manifest_item R p ty d l r of (Inr _, r') \<Rightarrow> (Inr (), r')
      | (Inl e, r') \<Rightarrow> if e = RendererError then show_fallback R fb r' else (Inl e, r')))) \<noteq> None" for it
    using play assms by (cases "play_args cache it") auto
  show ?thesis
    using fbs [OF assms] item assms
    by (simp add: execute_transition_def split: option.split json.split list.split)
qed

lemma on_transition_screen [never_blank]:
  "screen (pl_renderer pl) \<noteq> None \<Longrightarrow> screen (pl_renderer (snd (on_transition R cache res pl))) \<noteq> None"
  using execute_transition_screen [of "pl_renderer pl" cache res "pl_fallback pl" "ch_store (pl_handler pl)"]
  by (auto simp: on_transition_def split: prod.split sum.split)

lemma player_step_screen [never_blank]:
  assumes "screen (pl_renderer pl) \<noteq> None"
  shows "screen (pl_renderer (snd (player_step R cache cerrs merrs fromiso i pl))) \<noteq> None"
proof (cases i)
  case (PiWs e)
  then show ?thesis
    using assms on_transition_screen
    by (auto simp: player_ws_def Let_def split: prod.split sum.split option.split)
next
  case (PiRefresh env)
  then show ?thesis
    using assms show_fallback_screen
    by (auto simp: refresh_round_def Let_def split_beta)
next
  case (PiEngage now body)
  then show ?thesis
    using assms on_transition_screen
    by (auto simp: safe_mode_engage_def Let_def split_beta)
next
  case PiClear
  then show ?thesis
    using assms on_transition_screen
    by (auto simp: safe_mode_clear_def Let_def split_beta)
qed (use assms in \<open>simp_all add: reload_round_def player_mqtt_up_def player_mqtt_down_def\<close>)

lemma player_run_screen [never_blank]:
  "screen (pl_renderer pl) \<noteq> None \<Longrightarrow>
   screen (pl_renderer (snd (player_run R cache cerrs merrs fromiso inputs pl))) \<noteq> None"
proof (induction inputs arbitrary: pl)
  case Nil
  then show ?case by simp
next
  case (Cons i inputs)
  from player_step_screen [OF Cons.prems, of cache cerrs merrs fromiso i] Cons.IH show ?case
    by (auto split: prod.split sum.split)
qed

lemma boot_shows_fallback:
  assumes "player_boot R errs env dir world r0 = Booted pl"
  shows "\<exists>p. asset_path (pl_fallback pl) = Inr p \<and> screen (pl_renderer pl) = Some p"
  using assms show_ok
  by (auto simp: player_boot_def show_fallback_def split: prod.splits sum.splits if_splits)

end


definition demo_mpv :: mpv where
  "demo_mpv = \<lparr>mp_process = None, mp_found = True, mp_polls = [(10, False), (10.1, True)],
     mp_sends = [True, True, False], mp_received = [], mp_exit = Some 0\<rparr>"


text \<open>
  The refresh loop never updates the screen: it compares the state's value with
  upper-case strings no state has, so a changed fallback selection is stored but not
  shown, in FALLBACK and SAFE_MODE as well.
\<close>

theorem refresh_never_renders:
  "snd (refresh_round R env pl) = pl\<lparr>pl_fallback := snd (fb_refresh env (pl_fallback pl))\<rparr>"
proof -
  have "player_state_value st \<notin> {''FALLBACK'', ''SAFE_MODE''}" for st by (cases st) simp_all
  then show ?thesis by (simp add: refresh_round_def split_beta Let_def)
qed

subsection \<open>What is on the screen and what is announced\<close>

text \<open>The last display request of the stub: whether it was the fallback, and the path.\<close>

fun stub_item :: "stub_call \<Rightarrow> (bool \<times> string) option" where
  "stub_item (StubFallback p) = Some (True, p)"
| "stub_item (StubPlay p _ _ _) = Some (False, p)"
| "stub_item _ = None"

definition stub_shows :: "stub_log \<Rightarrow> (bool \<times> string) option" where
  "stub_shows r = latest stub_item r"

text \<open>A result fits the state machine before and after it.\<close>

definition coherent :: "transition_result \<Rightarrow> player_sm \<Rightarrow> player_sm \<Rightarrow> player_store \<Rightarrow> bool" where
  "coherent res s s' store \<longleftrightarrow>
     tr_action res = ''play_manifest'' \<and>
       (\<exists>m. tr_manifest_id res = Some m \<and> sm_active_manifest_id s' = Some m \<and> ps_get store m \<noteq> None) \<or>
     tr_action res = ''show_fallback'' \<and> sm_active_manifest_id s' = None \<or>
     tr_action res = ''hold'' \<and> sm_active_manifest_id s' = sm_active_manifest_id s"

lemma coherent_cases:
  assumes "coherent res s s' store"
  obtains (play) m where "tr_action res = ''play_manifest''" "tr_manifest_id res = Some m"
      "sm_active_manifest_id s' = Some m" "ps_get store m \<noteq> None"
    | (fallback) "tr_action res = ''show_fallback''" "sm_active_manifest_id s' = None"
    | (hold) "tr_action res = ''hold''" "sm_active_manifest_id s' = sm_active_manifest_id s"
proof -
  from assms [unfolded coherent_def] show thesis
    by (elim disjE conjE exE) ((rule that, assumption+)+)
qed

lemma coherent_step:
  assumes "sm_inv s" and "(res, s') = sm_step now e s"
    and "\<And>m d c why. e = EvActivate m d c why \<Longrightarrow> ps_get store m \<noteq> None"
  shows "coherent res s s' store"
proof -
  have s': "fst (sm_step now e s) = res" "snd (sm_step now e s) = s'"
    using assms(2) by (metis fst_conv, metis snd_conv)
  consider "tr_action res = ''play_manifest''" | "tr_action res = ''show_fallback''" | "tr_action res = ''hold''"
    using sm_action_cases [of now e s] s' by blast
  then show ?thesis
  proof cases
    case 1
    with sm_play_activates [of now e s] s' assms(3) show ?thesis by (auto simp: coherent_def)
  next
    case 2
    with sm_fallback_result [OF assms(1), of now e] s' show ?thesis by (auto simp: coherent_def)
  next
    case 3
    with sm_hold_result [of now e s] s' show ?thesis by (auto simp: coherent_def)
  qed
qed

lemma coherent_refusal: "sm_inv (ch_sm h) \<Longrightarrow> coherent (ch_refusal reason h) (ch_sm h) (ch_sm h) store"
  by (auto simp: coherent_def ch_refusal_def sm_inv_def)

lemma coherent_raw:
  assumes "sm_inv (ch_sm h)" and "handle_raw errs fromiso now wall raw h = (Inr (Some r), h')"
  shows "coherent r (ch_sm h) (ch_sm h') (ch_store h)"
  using assms(2)
proof (cases rule: handle_raw_cases)
  case (dispatched r' msg seq i ty)
  from dispatched(4) show ?thesis
  proof (cases rule: ch_dispatch_cases)
    case (refused reason)
    with dispatched(1) coherent_refusal [of "ch_record seq i h" reason "ch_store h"] assms(1)
    show ?thesis by simp
  next
    case (asked e)
    with dispatched(1) assms(1) show ?thesis
      by (intro coherent_step [of _ _ _ now e]) auto
  qed
qed simp_all

text \<open>The invariant of a player on the stub renderer.\<close>

definition store_shaped :: "player_store \<Rightarrow> bool" where
  "store_shaped st \<longleftrightarrow> (\<forall>i m. ps_get st i = Some m \<longrightarrow> manifest_shape m \<and> manifest_id_of m = Some i)"

definition shown_ok :: "player_sm \<Rightarrow> stub_log \<Rightarrow> bool" where
  "shown_ok s r \<longleftrightarrow> (\<exists>p. stub_shows r = Some (sm_active_manifest_id s = None, p))"

definition player_inv :: "stub_log player \<Rightarrow> bool" where
  "player_inv pl \<longleftrightarrow>
     handler_inv (pl_handler pl) \<and> store_shaped (ch_store (pl_handler pl)) \<and>
     fb_asset_path (pl_fallback pl) \<noteq> None \<and>
     shown_ok (ch_sm (pl_handler pl)) (pl_renderer pl) \<and>
     pl_prev_manifest_id pl = sm_active_manifest_id (ch_sm (pl_handler pl)) \<and>
     sm_active_manifest_id (ch_sm (pl_handler pl)) \<noteq> Some []"

lemma stub_show_fallback_ok:
  "fb_asset_path fb \<noteq> None \<Longrightarrow> \<exists>p r'. show_fallback stub_renderer fb r = (Inr (), r') \<and> stub_shows r' = Some (True, p)"
  by (auto simp: show_fallback_def asset_path_def stub_show_fallback_def stub_shows_def)

lemma play_args_shape:
  assumes "manifest_shape m"
  shows "\<exists>it its a. jget m ''items'' = Some (JArr (it # its)) \<and> play_args cache it = Inr a"
proof -
  from assms obtain its where its: "jget m ''items'' = Some (JArr its)" "its \<noteq> []" "list_all item_shape its"
    by (auto simp: manifest_shape_def split: option.splits json.splits)
  then obtain it its' where c: "its = it # its'" by (cases its) auto
  with its have "item_shape it" by simp
  then obtain a t dj d where "jget it ''asset_id'' = Some (JStr a)" "jget it ''asset_type'' = Some (JStr t)"
      "jget it ''duration_ms'' = Some dj" "jint dj = Some d"
    by (auto simp: item_shape_def jstr_opt_Some_iff split: option.splits)
  then have "play_args cache it = Inr (path_div cache a, t, d, field_set it ''loop'')"
    by (simp add: play_args_def jindex_jget)
  with its c show ?thesis by auto
qed

text \<open>Events replayed by a consumer: the manifest the events say is on the screen.\<close>

definition replay_event :: "json \<Rightarrow> string option \<Rightarrow> string option" where
  "replay_event ev active =
     (case jstr_opt (jget ev ''event_type'') of
        Some ty \<Rightarrow>
          if ty = ''manifest_activated'' then jstr_opt (jget ev ''manifest_id'')
          else if ty \<in> {''manifest_deactivated'', ''fallback_entered'', ''safe_mode_entered''} then None
          else active
      | None \<Rightarrow> active)"

definition replay :: "json list \<Rightarrow> string option" where
  "replay evs = fold replay_event evs None"

lemma replay_snoc: "replay (evs @ [ev]) = replay_event ev (replay evs)"
  by (simp add: replay_def)

definition connected :: "event_publisher \<Rightarrow> bool" where
  "connected ep \<longleftrightarrow> ep_client ep \<and> (\<forall>n. snd (snd (ep_world ep n)))"

lemma ep_publish_connected:
  "connected ep \<Longrightarrow> connected (ep_publish ty m d w ep) \<and>
   replay (ep_sent (ep_publish ty m d w ep)) =
     (if ty = ''manifest_activated'' then m
      else if ty \<in> {''manifest_deactivated'', ''fallback_entered'', ''safe_mode_entered''} then None
      else replay (ep_sent ep))"
  by (auto simp: ep_publish_def connected_def replay_snoc replay_event_def build_event_def opt_field_def
      split_beta Let_def split: option.split)

definition announced_ok :: "'r player \<Rightarrow> bool" where
  "announced_ok pl \<longleftrightarrow> connected (pl_events pl) \<and> replay (ep_sent (pl_events pl)) = pl_prev_manifest_id pl"

lemma announce_ok: "announced_ok pl \<Longrightarrow> announced_ok (announce res pl)"
  using ep_publish_connected [of "pl_events pl"] ep_publish_connected
  by (auto simp: announce_def announced_ok_def ep_defs Let_def split: option.split)

lemma announce_prev:
  assumes "coherent res s s' store" and "pl_prev_manifest_id pl = sm_active_manifest_id s"
    and "sm_active_manifest_id s' \<noteq> Some []"
  shows "pl_prev_manifest_id (announce res pl) = sm_active_manifest_id s'"
  using assms by (auto simp: coherent_def announce_def Let_def split: option.split)

lemma stub_execute:
  assumes "coherent res s s' store" and "store_shaped store" and "fb_asset_path fb \<noteq> None" and "shown_ok s r"
  shows "\<exists>r'. execute_transition stub_renderer cache res fb store r = (Inr (), r') \<and> shown_ok s' r'"
proof -
  from assms(1) show ?thesis
  proof (cases rule: coherent_cases)
    case (play m)
    then obtain man where man: "ps_get store m = Some man" "manifest_shape man"
      using assms(2) by (auto simp: store_shaped_def)
    from play_args_shape [OF man(2), of cache] obtain it its p ty d l where
      it: "jget man ''items'' = Some (JArr (it # its))" "play_args cache it = Inr (p, ty, d, l)"
      by auto
    show ?thesis
      by (auto simp: execute_transition_def play man it stub_play_manifest_item_def shown_ok_def stub_shows_def)
  next
    case fallback
    with stub_show_fallback_ok [OF assms(3), of r] show ?thesis
      by (auto simp: execute_transition_def shown_ok_def)
  next
    case hold
    with assms(4) show ?thesis by (auto simp: execute_transition_def shown_ok_def)
  qed
qed

lemma store_shaped_unnamed: "store_shaped store \<Longrightarrow> ps_get store [] = None"
  by (cases "ps_get store []") (auto simp: store_shaped_def manifest_shape_def)

lemma coherent_active_named:
  assumes "coherent res s s' store" and "store_shaped store" and "sm_active_manifest_id s \<noteq> Some []"
  shows "sm_active_manifest_id s' \<noteq> Some []"
  using assms(1)
proof (cases rule: coherent_cases)
  case (play m)
  with store_shaped_unnamed [OF assms(2)] show ?thesis by auto
qed (use assms(3) in simp_all)

lemma on_transition_inv [step_inv]:
  assumes "coherent res s (ch_sm (pl_handler pl)) (ch_store (pl_handler pl))"
    and "handler_inv (pl_handler pl)" "store_shaped (ch_store (pl_handler pl))"
    and "fb_asset_path (pl_fallback pl) \<noteq> None" "shown_ok s (pl_renderer pl)"
    and "pl_prev_manifest_id pl = sm_active_manifest_id s" "sm_active_manifest_id s \<noteq> Some []"
  shows "fst (on_transition stub_renderer cache res pl) = Inr () \<and>
    player_inv (snd (on_transition stub_renderer cache res pl)) \<and>
    (announced_ok pl \<longrightarrow> announced_ok (snd (on_transition stub_renderer cache res pl)))"
proof -
  obtain r' where r': "execute_transition stub_renderer cache res (pl_fallback pl) (ch_store (pl_handler pl))
      (pl_renderer pl) = (Inr (), r')" "shown_ok (ch_sm (pl_handler pl)) r'"
    using stub_execute [OF assms(1,3,4,5)] by blast
  have named: "sm_active_manifest_id (ch_sm (pl_handler pl)) \<noteq> Some []"
    by (rule coherent_active_named [OF assms(1,3,7)])
  have "pl_prev_manifest_id (announce res (pl\<lparr>pl_renderer := r'\<rparr>)) =
      sm_active_manifest_id (ch_sm (pl_handler pl))"
    by (rule announce_prev [OF assms(1)]) (use assms(6) named in simp_all)
  with r' assms(2-4) named announce_ok [of "pl\<lparr>pl_renderer := r'\<rparr>" res] show ?thesis
    by (simp add: on_transition_def player_inv_def announced_ok_def)
qed

lemma player_inv_coherent:
  "player_inv pl \<Longrightarrow> coherent res (ch_sm (pl_handler pl)) s' store \<Longrightarrow> sm_inv s' \<Longrightarrow>
   store = ch_store (pl_handler pl) \<Longrightarrow>
   fst (on_transition stub_renderer cache res (pl\<lparr>pl_handler := (pl_handler pl)\<lparr>ch_sm := s'\<rparr>\<rparr>)) = Inr () \<and>
   player_inv (snd (on_transition stub_renderer cache res (pl\<lparr>pl_handler := (pl_handler pl)\<lparr>ch_sm := s'\<rparr>\<rparr>))) \<and>
   (announced_ok pl \<longrightarrow>
     announced_ok (snd (on_transition stub_renderer cache res (pl\<lparr>pl_handler := (pl_handler pl)\<lparr>ch_sm := s'\<rparr>\<rparr>))))"
  using on_transition_inv [of res "ch_sm (pl_handler pl)" "pl\<lparr>pl_handler := (pl_handler pl)\<lparr>ch_sm := s'\<rparr>\<rparr>" cache]
  by (simp add: player_inv_def handler_inv_def announced_ok_def)

lemma reload_shaped:
  assumes "\<And>m. schema_ok merrs m \<Longrightarrow> manifest_shape m"
  shows "store_shaped (snd (ps_reload merrs dir st))"
proof (cases dir)
  case None
  then show ?thesis by (simp add: ps_reload_def ps_load_from_disk_def store_shaped_def ps_get_def)
next
  case (Some d)
  have "snd (ps_reload merrs (Some d) st) = preg.ingest_all merrs (readable (json_files d)) []"
    using ps_load_files_ingest [OF assms, of merrs "json_files d" 0 "[]"]
    by (simp add: ps_reload_def ps_load_from_disk_def)
  moreover have "ps_get [] i = None" for i by (simp add: ps_get_def)
  ultimately show ?thesis
    using assms preg.served_from_batch [of "[]" _ merrs "readable (json_files d)"] Some
    by (auto simp: store_shaped_def ps_accepts_def)
qed

text \<open>The inputs a display argument admits: the bundle always holds the built-in slate.\<close>

fun input_ok :: "player_input \<Rightarrow> bool" where
  "input_ok (PiRefresh env) = (case fe_bundle env of Some files \<Rightarrow> fb_has files builtin_name | None \<Rightarrow> False)"
| "input_ok _ = True"

lemma refresh_keeps_path:
  "fe_bundle env = Some files \<Longrightarrow> fb_has files builtin_name \<Longrightarrow> fb_asset_path fb \<noteq> None \<Longrightarrow>
   fb_asset_path (snd (fb_refresh env fb)) \<noteq> None"
  using fb_resolve_candidates [of env fb] fb_candidates_builtin [of env files]
  by (cases "fb_candidates env") (auto simp: fb_refresh_def fb_take_def fb_set_def Let_def)

lemma refresh_round_eq:
  "snd (refresh_round R env pl) = pl\<lparr>pl_fallback := snd (fb_refresh env (pl_fallback pl))\<rparr>"
proof -
  have "player_state_value st \<notin> {''FALLBACK'', ''SAFE_MODE''}" for st by (cases st) simp_all
  then show ?thesis by (simp add: refresh_round_def split_beta Let_def)
qed

lemma player_step_inv [step_inv]:
  assumes shape: "\<And>m. schema_ok merrs m \<Longrightarrow> manifest_shape m"
    and inv: "player_inv pl" and "input_ok i"
  shows "player_inv (snd (player_step stub_renderer cache cerrs merrs fromiso i pl)) \<and>
    (announced_ok pl \<and> i \<noteq> PiMqttDown \<longrightarrow>
      announced_ok (snd (player_step stub_renderer cache cerrs merrs fromiso i pl)))"
proof (cases i)
  case (PiWs e)
  show ?thesis
  proof (cases e)
    case (WsMessage now wall raw)
    obtain res h' where r: "handle_raw cerrs fromiso now wall raw (pl_handler pl) = (res, h')" by (rule prod.exhaust)
    have h': "handler_inv h'" "ch_store h' = ch_store (pl_handler pl)"
      using handler_inv_raw [of "pl_handler pl" cerrs fromiso now wall raw] inv r
        handle_raw_store [of cerrs fromiso now wall raw "pl_handler pl"]
      by (simp_all add: player_inv_def)
    show ?thesis
    proof (cases "\<exists>t. res = Inr (Some t)")
      case True
      then obtain t where t: "res = Inr (Some t)" by auto
      have "coherent t (ch_sm (pl_handler pl)) (ch_sm h') (ch_store h')"
        using coherent_raw [of "pl_handler pl" cerrs fromiso now wall raw t h'] inv r t h'
        by (simp add: player_inv_def handler_inv_def)
      from on_transition_inv [of t "ch_sm (pl_handler pl)" "pl\<lparr>pl_handler := h'\<rparr>" cache] this h' inv r t
      show ?thesis
        by (simp add: PiWs WsMessage player_ws_def player_inv_def announced_ok_def)
    next
      case False
      with r have "ch_sm h' = ch_sm (pl_handler pl)" by (cases rule: handle_raw_cases) auto
      with False h' inv r show ?thesis
        by (auto simp: PiWs WsMessage player_ws_def Let_def player_inv_def announced_ok_def split: sum.split option.split)
    qed
  next
    case (WsFailed now)
    obtain t s' where t: "on_connection_lost now (ch_sm (pl_handler pl)) = (t, s')" by (rule prod.exhaust)
    then have st: "(t, s') = sm_step now EvConnectionLost (ch_sm (pl_handler pl))" by simp
    have "sm_inv s'" using sm_inv_step [of "ch_sm (pl_handler pl)" now EvConnectionLost] inv t
      by (simp add: player_inv_def handler_inv_def)
    moreover have "coherent t (ch_sm (pl_handler pl)) s' (ch_store (pl_handler pl))"
      using st inv by (intro coherent_step [of _ _ _ now EvConnectionLost]) (auto simp: player_inv_def handler_inv_def)
    ultimately show ?thesis
      using on_transition_inv [of t "ch_sm (pl_handler pl)"
          "pl\<lparr>pl_handler := (pl_handler pl)\<lparr>ch_sm := s'\<rparr>, pl_ws_backoff := ws_next_backoff (pl_ws_backoff pl)\<rparr>" cache] inv t
      by (simp add: PiWs WsFailed player_ws_def player_inv_def handler_inv_def announced_ok_def)
  qed (use inv in \<open>simp_all add: PiWs player_ws_def player_inv_def handler_inv_def reset_session_def announced_ok_def\<close>)
next
  case (PiRefresh env)
  then show ?thesis
    using inv \<open>input_ok i\<close> refresh_keeps_path [of env]
    by (auto simp: refresh_round_eq player_inv_def announced_ok_def split: option.splits)
next
  case (PiReload dir)
  then show ?thesis
    using inv reload_shaped [OF shape, of merrs]
    by (simp add: reload_round_def player_inv_def handler_inv_def announced_ok_def)
next
  case (PiEngage now body)
  define e where "e = EvSafeMode (Some (engage_reason body))"
  obtain t s' where t: "on_safe_mode now (Some (engage_reason body)) (ch_sm (pl_handler pl)) = (t, s')" by (rule prod.exhaust)
  then have st: "(t, s') = sm_step now e (ch_sm (pl_handler pl))" by (simp add: e_def)
  have "sm_inv s'" using sm_inv_step [of "ch_sm (pl_handler pl)" now e] inv st
    by (metis handler_inv_def player_inv_def snd_conv)
  moreover have "coherent t (ch_sm (pl_handler pl)) s' (ch_store (pl_handler pl))"
    using st inv by (intro coherent_step [of _ _ _ now e]) (auto simp: player_inv_def handler_inv_def e_def)
  ultimately show ?thesis
    using player_inv_coherent [OF inv, of t s' _ cache] inv t
    by (simp add: PiEngage safe_mode_engage_def split_beta Let_def)
next
  case PiClear
  obtain t s' where t: "on_clear_safe_mode (ch_sm (pl_handler pl)) = (t, s')" by (rule prod.exhaust)
  then have st: "(t, s') = sm_step 0 EvClearSafeMode (ch_sm (pl_handler pl))" by simp
  have "sm_inv s'" using sm_inv_step [of "ch_sm (pl_handler pl)" 0 EvClearSafeMode] inv st
    by (metis handler_inv_def player_inv_def snd_conv)
  moreover have "coherent t (ch_sm (pl_handler pl)) s' (ch_store (pl_handler pl))"
    using st inv by (intro coherent_step [of _ _ _ 0 EvClearSafeMode]) (auto simp: player_inv_def handler_inv_def)
  ultimately show ?thesis
    using player_inv_coherent [OF inv, of t s' _ cache] inv t
    by (simp add: PiClear safe_mode_clear_def split_beta Let_def)
qed (use inv in \<open>simp_all add: player_mqtt_up_def player_mqtt_down_def player_inv_def announced_ok_def
    set_client_def connected_def\<close>)

lemma player_run_inv:
  assumes shape: "\<And>m. schema_ok merrs m \<Longrightarrow> manifest_shape m"
    and "player_inv pl" and "list_all input_ok inputs"
  shows "player_inv (snd (player_run stub_renderer cache cerrs merrs fromiso inputs pl)) \<and>
    (announced_ok pl \<and> PiMqttDown \<notin> set inputs \<longrightarrow>
      announced_ok (snd (player_run stub_renderer cache cerrs merrs fromiso inputs pl)))"
  using assms(2,3)
proof (induction inputs arbitrary: pl)
  case Nil
  then show ?case by simp
next
  case (Cons i inputs)
  then have "player_inv (snd (player_step stub_renderer cache cerrs merrs fromiso i pl))"
    "announced_ok pl \<and> i \<noteq> PiMqttDown \<longrightarrow>
      announced_ok (snd (player_step stub_renderer cache cerrs merrs fromiso i pl))"
    using player_step_inv [OF shape, of merrs pl i cache cerrs fromiso] by auto
  note step = this
  obtain res pl1 where p: "player_step stub_renderer cache cerrs merrs fromiso i pl = (res, pl1)" by (rule prod.exhaust)
  show ?case
  proof (cases res)
    case (Inl e)
    with step p show ?thesis by auto
  next
    case (Inr u)
    with step p Cons.IH [of pl1] Cons.prems(2) show ?thesis by auto
  qed
qed

lemma boot_inv:
  assumes shape: "\<And>m. schema_ok merrs m \<Longrightarrow> manifest_shape m"
    and "player_boot stub_renderer merrs env dir world r0 = Booted pl"
  shows "player_inv pl \<and> replay (ep_sent (pl_events pl)) = None \<and> pl_prev_manifest_id pl = None \<and>
    ep_world (pl_events pl) = world"
proof -
  obtain res1 fb where v: "fb_validate env init_fb = (res1, fb)" by (rule prod.exhaust)
  have r1: "res1 = Inr ()" using assms(2) v by (cases res1) (simp_all add: player_boot_def split: if_splits)
  have fb: "fb_asset_path fb \<noteq> None"
    using v r1 by (simp add: fb_validate_def split: prod.splits sum.splits if_splits)
  obtain p r2 where sf: "show_fallback stub_renderer fb (r0 @ [StubStartup]) = (Inr (), r2)"
      "stub_shows r2 = Some (True, p)"
    using stub_show_fallback_ok [OF fb] by blast
  obtain res3 store where l: "ps_load_from_disk merrs dir [] = (res3, store)" by (rule prod.exhaust)
  have pl: "pl = \<lparr>pl_handler = init_handler init_sm store True, pl_fallback = fb, pl_renderer = r2,
            pl_events = init_ep world, pl_prev_manifest_id = None, pl_is_ready = True,
            pl_callback_set = True, pl_ws_backoff = ws_initial_backoff, pl_mqtt_backoff = 2\<rparr>"
    using assms(2) by (cases res3) (simp_all add: player_boot_def v r1 stub_startup_def sf l)
  have "store_shaped store"
    using reload_shaped [OF shape, of merrs dir "[]"] l by (simp add: ps_reload_def)
  then show ?thesis
    using sm_inv_init fb sf(2)
    by (simp add: pl player_inv_def handler_inv_def init_handler_def shown_ok_def replay_def init_ep_def)
      (simp add: init_sm_def)
qed


definition demo_boot :: "stub_log player" where
  "demo_boot = (case player_boot stub_renderer (errs_of manifest_shape) demo_env
      (Some [(''m.json'', Some (demo_manifest ''m1''))]) (\<lambda>_. ([], [], True)) [] of Booted pl \<Rightarrow> pl)"

lemma demo_boot_booted:
  "player_boot stub_renderer (errs_of manifest_shape) demo_env
     (Some [(''m.json'', Some (demo_manifest ''m1''))]) (\<lambda>_. ([], [], True)) [] = Booted demo_boot"
proof -
  have "case player_boot stub_renderer (errs_of manifest_shape) demo_env
      (Some [(''m.json'', Some (demo_manifest ''m1''))]) (\<lambda>_. ([], [], True)) [] of Booted pl \<Rightarrow> True | _ \<Rightarrow> False"
    by code_simp
  then show ?thesis by (auto simp: demo_boot_def split: boot.splits)
qed




end
