(* ===== verification/Contracts.thy ===== *)
theory Contracts
  imports ObservationStore
begin

section \<open>The message contracts (contracts/)\<close>

text \<open>
  The JSON schemas of the interfaces as executable predicates on decoded values, one
  definition per schema object: observations (ICD-2), signals (ICD-3), commands (ICD-4),
  manifests (ICD-5) and player events (ICD-9). The services take the validator of the
  \<open>jsonschema\<close> package as a parameter; \<open>errs_of\<close> of these predicates instantiates it.
\<close>

subsection \<open>Schemas\<close>

text \<open>
  JSON Schema as \<open>jsonschema\<close> evaluates it: an object with required keys, typed properties
  and no others; integers include \<open>5.0\<close>, booleans are no numbers, \<open>format\<close> is not checked, and
  the \<open>$\<close> of a pattern also matches before a final newline.
\<close>

definition in_unit :: "rat \<Rightarrow> bool" where
  "in_unit x \<longleftrightarrow> 0 \<le> x \<and> x \<le> 1"

definition schema_object :: "string list \<Rightarrow> (string \<times> (json \<Rightarrow> bool)) list \<Rightarrow> json \<Rightarrow> bool" where
  "schema_object required props j =
     (case j of
        JObj kvs \<Rightarrow>
          list_all (\<lambda>k. k \<in> set (dict_keys kvs)) required \<and>
          list_all (\<lambda>(k, v). case map_of props k of None \<Rightarrow> False | Some p \<Rightarrow> p v) kvs
      | _ \<Rightarrow> False)"

definition str_where :: "(string \<Rightarrow> bool) \<Rightarrow> json \<Rightarrow> bool" where
  "str_where p j = (case j of JStr s \<Rightarrow> p s | _ \<Rightarrow> False)"

definition int_where :: "(int \<Rightarrow> bool) \<Rightarrow> json \<Rightarrow> bool" where
  "int_where p j = (case jint j of Some n \<Rightarrow> p n | None \<Rightarrow> False)"

definition num_where :: "(rat \<Rightarrow> bool) \<Rightarrow> json \<Rightarrow> bool" where
  "num_where p j = (case j of JInt n \<Rightarrow> p (of_int n) | JFloat x \<Rightarrow> p x | _ \<Rightarrow> False)"

definition bool_where :: "(bool \<Rightarrow> bool) \<Rightarrow> json \<Rightarrow> bool" where
  "bool_where p j = (case j of JBool b \<Rightarrow> p b | _ \<Rightarrow> False)"

definition name_char :: "char \<Rightarrow> bool" where
  "name_char c \<longleftrightarrow> CHR ''A'' \<le> c \<and> c \<le> CHR ''Z'' \<or> CHR ''a'' \<le> c \<and> c \<le> CHR ''z'' \<or>
     CHR ''0'' \<le> c \<and> c \<le> CHR ''9'' \<or> c \<in> set ''._:-''"

definition contract_name :: "string \<Rightarrow> bool" where
  "contract_name s =
     (1 \<le> length s \<and> length s \<le> 128 \<and>
      (let t = (if s \<noteq> [] \<and> last s = char_of (10::nat) then butlast s else s)
       in t \<noteq> [] \<and> list_all name_char t))"

definition contract_id :: "string \<Rightarrow> bool" where
  "contract_id s \<longleftrightarrow> 1 \<le> length s \<and> length s \<le> 128"

definition bins_schema :: "string list \<Rightarrow> json \<Rightarrow> bool" where
  "bins_schema names = schema_object [] (map (\<lambda>k. (k, num_where in_unit)) names)"

subsection \<open>Checking schemas\<close>

lemma map_of_const: "map_of (map (\<lambda>k. (k, c)) ks) k = (if k \<in> set ks then Some c else None)"
  by (induction ks) auto

lemma schema_object_JNull [simp]: "schema_object req props JNull = False"
  by (simp add: schema_object_def)

lemma where_simps [simp]:
  "str_where p (JStr s) = p s" "int_where q (JInt n) = q n" "num_where u (JFloat x) = u x"
  "bool_where b (JBool c) = b c" "int_where q JNull = False" "num_where u JNull = False" "bool_where b JNull = False"
  by (simp_all add: str_where_def int_where_def num_where_def bool_where_def)

lemma schema_object_get:
  "schema_object req props j \<Longrightarrow> jget j k = Some v \<Longrightarrow> \<exists>p. map_of props k = Some p \<and> p v"
  by (cases j) (fastforce simp: schema_object_def list_all_iff split: option.splits dest: map_of_SomeD)+

lemma schema_object_required:
  "schema_object req props j \<Longrightarrow> k \<in> set req \<Longrightarrow> \<exists>v. jget j k = Some v"
  by (cases j) (auto simp: schema_object_def list_all_iff dict_keys_def weak_map_of_SomeI)

lemma schema_object_field:
  assumes "schema_object req props j" "k \<in> set req" "map_of props k = Some p"
  shows "\<exists>v. jget j k = Some v \<and> p v"
  using schema_object_required [OF assms(1,2)] schema_object_get [OF assms(1)] assms(3) by fastforce

lemma num_where_jnum: "num_where p v \<Longrightarrow> jnum v = Some x \<Longrightarrow> p x"
  by (auto simp: num_where_def split: json.splits)

lemma int_where_jint: "int_where p v \<Longrightarrow> jint v = Some n \<Longrightarrow> p n"
  by (simp add: int_where_def)

subsection \<open>Observations (audience-state/cv-observation.schema.json)\<close>

definition demographics_schema :: "json \<Rightarrow> bool" where
  "demographics_schema = schema_object []
     [(''age_group'', bins_schema age_bins), (''gender'', bins_schema gender_bins),
      (''attire'', bins_schema attire_bins), (''dwell_estimate_ms'', int_where (\<lambda>n. 0 \<le> n)),
      (''suppressed'', bool_where (\<lambda>_. True))]"

definition counts_schema :: "json \<Rightarrow> bool" where
  "counts_schema = schema_object [''present'', ''confidence'']
     [(''present'', int_where (\<lambda>n. 0 \<le> n)), (''confidence'', num_where in_unit)]"

definition attention_schema :: "json \<Rightarrow> bool" where
  "attention_schema = schema_object [] [(''engaged'', num_where in_unit), (''ambient'', num_where in_unit)]"

definition quality_schema :: "json \<Rightarrow> bool" where
  "quality_schema = schema_object [''frames_processed'', ''frames_dropped'']
     [(''frames_processed'', int_where (\<lambda>n. 0 \<le> n)), (''frames_dropped'', int_where (\<lambda>n. 0 \<le> n)),
      (''pipeline_degraded'', bool_where (\<lambda>_. True))]"

definition privacy_schema :: "json \<Rightarrow> bool" where
  "privacy_schema = schema_object [''contains_images'', ''contains_frame_urls'', ''contains_face_embeddings'']
     [(''contains_images'', bool_where Not), (''contains_frame_urls'', bool_where Not),
      (''contains_face_embeddings'', bool_where Not)]"

definition cv_observation_contract :: "json \<Rightarrow> bool" where
  "cv_observation_contract = schema_object
     [''schema_version'', ''message_type'', ''message_id'', ''produced_at'', ''tenant_id'', ''site_id'',
      ''camera_id'', ''pipeline_id'', ''frame_seq'', ''window_ms'', ''counts'', ''quality'', ''privacy'']
     [(''schema_version'', str_where (\<lambda>s. s = ''1.0.0'')), (''message_type'', str_where (\<lambda>s. s = ''cv_observation'')),
      (''message_id'', str_where contract_id), (''produced_at'', str_where (\<lambda>_. True)),
      (''tenant_id'', str_where contract_name), (''site_id'', str_where contract_name),
      (''camera_id'', str_where contract_name), (''pipeline_id'', str_where contract_name),
      (''frame_seq'', int_where (\<lambda>n. 0 \<le> n)), (''window_ms'', int_where (\<lambda>n. 1 \<le> n \<and> n \<le> 60000)),
      (''counts'', counts_schema), (''demographics'', demographics_schema), (''attention'', attention_schema),
      (''quality'', quality_schema), (''privacy'', privacy_schema)]"

subsection \<open>Signals (decision-optimizer/audience-state-signal.schema.json)\<close>

definition presence_schema :: "json \<Rightarrow> bool" where
  "presence_schema = schema_object [''count'', ''confidence'']
     [(''count'', int_where (\<lambda>n. 0 \<le> n)), (''confidence'', num_where in_unit)]"

definition stability_schema :: "json \<Rightarrow> bool" where
  "stability_schema = schema_object [''state_stable'', ''freeze_decision'']
     [(''state_stable'', bool_where (\<lambda>_. True)), (''freeze_decision'', bool_where (\<lambda>_. True)),
      (''demographics_suppressed'', bool_where (\<lambda>_. True)), (''observations_in_window'', int_where (\<lambda>n. 0 \<le> n))]"

definition state_schema :: "json \<Rightarrow> bool" where
  "state_schema = schema_object [''presence'', ''stability'']
     [(''presence'', presence_schema), (''stability'', stability_schema),
      (''attention'', attention_schema), (''demographics'', demographics_schema)]"

definition source_quality_schema :: "json \<Rightarrow> bool" where
  "source_quality_schema = schema_object [''signal_age_ms'', ''pipeline_degraded'']
     [(''signal_age_ms'', int_where (\<lambda>n. 0 \<le> n)), (''pipeline_degraded'', bool_where (\<lambda>_. True)),
      (''observations_dropped'', int_where (\<lambda>n. 0 \<le> n))]"

definition signal_contract :: "json \<Rightarrow> bool" where
  "signal_contract = schema_object
     [''schema_version'', ''message_type'', ''message_id'', ''produced_at'', ''tenant_id'', ''site_id'',
      ''camera_id'', ''state'', ''source_quality'', ''privacy'']
     [(''schema_version'', str_where (\<lambda>s. s = ''1.0.0'')),
      (''message_type'', str_where (\<lambda>s. s = ''audience_state_signal'')),
      (''message_id'', str_where contract_id), (''produced_at'', str_where (\<lambda>_. True)),
      (''tenant_id'', str_where contract_name), (''site_id'', str_where contract_name),
      (''camera_id'', str_where contract_name), (''state'', state_schema),
      (''source_quality'', source_quality_schema), (''privacy'', privacy_schema)]"

subsection \<open>Commands (player/player-command.schema.json)\<close>

definition activate_schema :: "json \<Rightarrow> bool" where
  "activate_schema = schema_object [''manifest_id'', ''min_dwell_ms'']
     [(''manifest_id'', str_where contract_id), (''min_dwell_ms'', int_where (\<lambda>n. 0 \<le> n)),
      (''cooldown_ms'', int_where (\<lambda>n. 0 \<le> n)), (''rationale'', str_where (\<lambda>s. length s \<le> 500))]"

definition freeze_reasons :: "string list" where
  "freeze_reasons = [''cv_degraded'', ''decision_degraded'', ''thermal_protection'', ''operator_override'']"

definition safe_mode_reasons :: "string list" where
  "safe_mode_reasons = [''supervisor_escalation'', ''operator_manual'', ''boot_loop_protection'']"

definition reason_schema :: "string list \<Rightarrow> json \<Rightarrow> bool" where
  "reason_schema reasons = schema_object [] [(''reason'', str_where (\<lambda>s. s \<in> set reasons))]"

definition command_types :: "string list" where
  "command_types = [''activate_creative'', ''freeze'', ''safe_mode'', ''clear_safe_mode'']"

definition command_contract :: "json \<Rightarrow> bool" where
  "command_contract = schema_object
     [''schema_version'', ''command_id'', ''sequence_number'', ''produced_at'', ''command_type'']
     [(''schema_version'', str_where (\<lambda>s. s = ''1.0.0'')), (''command_id'', str_where contract_id),
      (''sequence_number'', int_where (\<lambda>n. 0 \<le> n)), (''produced_at'', str_where (\<lambda>_. True)),
      (''command_type'', str_where (\<lambda>s. s \<in> set command_types)),
      (''activate_creative'', activate_schema), (''freeze'', reason_schema freeze_reasons),
      (''safe_mode'', reason_schema safe_mode_reasons)]"

subsection \<open>Player events (player/player-event.schema.json)\<close>

definition null_or :: "(json \<Rightarrow> bool) \<Rightarrow> json \<Rightarrow> bool" where
  "null_or p j \<longleftrightarrow> j = JNull \<or> p j"

definition event_types :: "string list" where
  "event_types = [''manifest_activated'', ''manifest_deactivated'', ''frozen'', ''safe_mode_entered'',
     ''safe_mode_cleared'', ''fallback_entered'']"

definition player_event_contract :: "json \<Rightarrow> bool" where
  "player_event_contract = schema_object [''schema_version'', ''event_id'', ''produced_at'', ''event_type'']
     [(''schema_version'', str_where (\<lambda>s. s = ''1.0.0'')), (''event_id'', str_where contract_id),
      (''produced_at'', str_where (\<lambda>_. True)), (''event_type'', str_where (\<lambda>s. s \<in> set event_types)),
      (''manifest_id'', null_or (str_where (\<lambda>s. length s \<le> 128))),
      (''dwell_elapsed'', null_or (bool_where (\<lambda>_. True))),
      (''rule_rationale'', null_or (str_where (\<lambda>s. length s \<le> 128)))]"

subsection \<open>Manifests (creative/creative-manifest.schema.json)\<close>

definition arr_where :: "(json \<Rightarrow> bool) \<Rightarrow> json \<Rightarrow> bool" where
  "arr_where p j = (case j of JArr xs \<Rightarrow> xs \<noteq> [] \<and> list_all p xs | _ \<Rightarrow> False)"

definition item_schema :: "json \<Rightarrow> bool" where
  "item_schema = schema_object [''item_id'', ''asset_id'', ''asset_type'', ''duration_ms'']
     [(''item_id'', str_where contract_id), (''asset_id'', str_where contract_id),
      (''asset_type'', str_where (\<lambda>s. s \<in> set [''video'', ''image'', ''html''])),
      (''duration_ms'', int_where (\<lambda>n. 1000 \<le> n)), (''loop'', bool_where (\<lambda>_. True))]"

definition policy_schema :: "json \<Rightarrow> bool" where
  "policy_schema = schema_object []
     [(''min_dwell_ms'', int_where (\<lambda>n. 0 \<le> n)), (''cooldown_ms'', int_where (\<lambda>n. 0 \<le> n)),
      (''allow_interruption'', bool_where (\<lambda>_. True))]"

definition manifest_contract :: "json \<Rightarrow> bool" where
  "manifest_contract = schema_object
     [''schema_version'', ''manifest_id'', ''approved_at'', ''approved_by'', ''items'']
     [(''schema_version'', str_where (\<lambda>s. s = ''1.0.0'')), (''manifest_id'', str_where contract_id),
      (''approved_at'', str_where (\<lambda>_. True)), (''approved_by'', str_where contract_id),
      (''expires_at'', str_where (\<lambda>_. True)), (''items'', arr_where item_schema), (''policy'', policy_schema)]"

end
