(* ===== verification/PlayerService.thy ===== *)
theory PlayerService
  imports PlayerMain Contracts
begin

section \<open>The player process and what it publishes (main.py, event_publisher.py, play_event_publisher.py)\<close>

text \<open>
  The rest of the player's wiring: the two publishers as their consumers see them, the
  liveness route, the end of the process, and the messages of a run against the contracts of
  ICD-4, ICD-5 and ICD-9.
\<close>

subsection \<open>Publishers\<close>

text \<open>\<open>safe_mode_cleared\<close> is defined by the publisher and called from nowhere.\<close>

definition safe_mode_cleared :: "event_publisher \<Rightarrow> event_publisher" where
  "safe_mode_cleared ep = ep_publish ''safe_mode_cleared'' None None None ep"

definition ep_status :: "event_publisher \<Rightarrow> json" where
  "ep_status ep = JObj [(''connected'', JBool (ep_client ep)), (''published'', JInt (int (ep_published ep))),
     (''failed'', JInt (int (ep_failed ep)))]"

text \<open>The message of \<open>play_event_publisher.py\<close>.\<close>

definition play_event_json :: "string \<Rightarrow> play_event \<Rightarrow> json" where
  "play_event_json activated_at ev = JObj
     [(''manifest_id'', JStr (pe_manifest_id ev)), (''activated_at'', JStr activated_at),
      (''reason'', opt_json JStr (pe_reason ev)), (''prev_manifest_id'', opt_json JStr (pe_prev_manifest_id ev))]"

text \<open>
  \<open>_publish_task\<close>, one per scheduled event: the clock text it reads and whether connecting
  and publishing succeed (or the package is missing) are its argument. Every exception is
  caught.
\<close>

definition publish_task :: "string \<times> bool \<Rightarrow> play_event \<Rightarrow> json option" where
  "publish_task attempt ev =
     (let (activated_at, delivered) = attempt; payload = play_event_json activated_at ev
      in if delivered then Some payload else None)"

definition publish_tasks :: "(string \<times> bool) list \<Rightarrow> command_handler \<Rightarrow> json list" where
  "publish_tasks attempts h = List.map_filter (\<lambda>(a, ev). publish_task a ev) (zip attempts (ch_scheduled h))"

definition player_healthz :: "nat \<times> json" where
  "player_healthz = (200, JObj [(''status'', JStr ''ok'')])"

definition player_readyz_body :: "rat \<Rightarrow> 'r player \<Rightarrow> nat \<times> json" where
  "player_readyz_body now pl =
     (case player_readyz now pl of
        (code, None) \<Rightarrow>
          (code, JObj [(''status'', JStr ''not_ready''), (''reason'', JStr ''startup_in_progress'')])
      | (code, Some d) \<Rightarrow>
          (code, JObj [(''status'', JStr ''ok''), (''state'', JStr (st_state d)),
             (''active_manifest_id'', opt_json JStr (st_active_manifest_id d)),
             (''dwell_elapsed'', opt_json JBool (st_dwell_elapsed d)),
             (''freeze_reason'', opt_json JStr (st_freeze_reason d)),
             (''safe_mode_reason'', opt_json JStr (st_safe_mode_reason d))]))"

subsection \<open>The whole process\<close>

text \<open>
  The \<open>finally\<close> of \<open>run\<close>: the MQTT task drops its client when it is cancelled, the renderer
  is stopped. Before the command loop nothing is cleaned up: \<open>sys.exit\<close> and the exceptions of
  startup leave the renderer as it is.
\<close>

definition player_shutdown :: "'r renderer \<Rightarrow> 'r player \<Rightarrow> 'r player" where
  "player_shutdown R pl = pl\<lparr>pl_events := clear_client (pl_events pl), pl_renderer := rn_stop R (pl_renderer pl)\<rparr>"

datatype process_end = ProcessExit nat | ProcessRaised py_error | ProcessCancelled

definition player_process :: "'r renderer \<Rightarrow> string \<Rightarrow> (json \<Rightarrow> string list) \<Rightarrow> (json \<Rightarrow> string list) \<Rightarrow> iso_parser
    \<Rightarrow> fb_env \<Rightarrow> manifest_dir option \<Rightarrow> (nat \<Rightarrow> string \<times> string \<times> bool) \<Rightarrow> player_input list \<Rightarrow> 'r \<Rightarrow> process_end \<times> 'r" where
  "player_process R cache cerrs merrs fromiso env dir world inputs r0 =
     (case player_boot R merrs env dir world r0 of
        BootExit n r \<Rightarrow> (ProcessExit n, r)
      | BootCrash e r \<Rightarrow> (ProcessRaised e, r)
      | Booted pl \<Rightarrow>
          (let (res, pl') = player_run R cache cerrs merrs fromiso inputs pl; pl'' = player_shutdown R pl'
           in ((case res of Inl e \<Rightarrow> ProcessRaised e | Inr _ \<Rightarrow> ProcessCancelled), pl_renderer pl'')))"

subsection \<open>The contracts give the shapes the handlers rely on\<close>

lemma str_where_opt: "str_where p v \<Longrightarrow> \<exists>s. v = JStr s \<and> p s"
  by (auto simp: str_where_def split: json.splits)

lemma int_where_Some: "int_where p v \<Longrightarrow> \<exists>n. jint v = Some n \<and> p n"
  by (auto simp: int_where_def split: option.splits)

lemma schema_object_is_obj: "schema_object req props j \<Longrightarrow> is_obj j"
  by (cases j) (simp_all add: schema_object_def)

lemma schema_string:
  assumes "schema_object req props j" "k \<in> set req" "map_of props k = Some (str_where p)"
  shows "\<exists>s. jget j k = Some (JStr s) \<and> p s"
  using schema_object_field [OF assms] str_where_opt by blast

lemma schema_int:
  assumes "schema_object req props j" "k \<in> set req" "map_of props k = Some (int_where p)"
  shows "\<exists>v n. jget j k = Some v \<and> jint v = Some n \<and> p n"
  using schema_object_field [OF assms] int_where_Some by blast

lemma schema_optional:
  assumes "schema_object req props j" "map_of props k = Some p" "jget j k = Some v"
  shows "p v"
  using schema_object_get [OF assms(1,3)] assms(2) by auto

lemma activate_schema_fields:
  assumes "activate_schema p"
  shows "\<exists>s. jget p ''manifest_id'' = Some (JStr s) \<and> contract_id s"
    and "\<exists>v n. jget p ''min_dwell_ms'' = Some v \<and> jint v = Some n \<and> 0 \<le> n"
    and "jget p ''cooldown_ms'' = Some c \<Longrightarrow> int_where (\<lambda>n. 0 \<le> n) c"
    and "is_obj p"
  using assms unfolding activate_schema_def
  by (rule schema_string schema_int schema_optional schema_object_is_obj; simp)+

lemma command_contract_fields:
  assumes "command_contract m"
  shows "\<exists>s. jget m ''command_id'' = Some (JStr s) \<and> contract_id s"
    and "\<exists>v n. jget m ''sequence_number'' = Some v \<and> jint v = Some n \<and> 0 \<le> n"
    and "\<exists>s. jget m ''command_type'' = Some (JStr s) \<and> s \<in> set command_types"
    and "jget m ''activate_creative'' = Some a \<Longrightarrow> activate_schema a"
    and "jget m ''freeze'' = Some f \<Longrightarrow> reason_schema freeze_reasons f"
    and "jget m ''safe_mode'' = Some g \<Longrightarrow> reason_schema safe_mode_reasons g"
  using assms unfolding command_contract_def
  by (rule schema_string schema_int schema_optional; simp)+

lemma activate_shape_of_contract:
  assumes "activate_schema p"
  shows "is_obj p \<and> activate_shape p"
proof -
  have "is_jint (jget p ''cooldown_ms'')" if "jget p ''cooldown_ms'' \<noteq> None"
    using that activate_schema_fields(3) [OF assms] int_where_Some by (fastforce simp: is_jint_def)
  then show ?thesis
    using activate_schema_fields(1,2,4) [OF assms] by (fastforce simp: activate_shape_def is_jint_def)
qed

lemma reason_schema_obj: "reason_schema rs v \<Longrightarrow> is_obj v"
  unfolding reason_schema_def by (rule schema_object_is_obj)

text \<open>What ICD-4 admits has the shape \<open>handle_raw\<close> is analysed with.\<close>

lemma command_shape_of_contract:
  assumes "command_contract m"
  shows "command_shape m"
proof -
  note fields = command_contract_fields [OF assms]
  have "obj_field activate_shape m ''activate_creative''"
    using fields(4) activate_shape_of_contract by (auto simp: obj_field_def split: option.split)
  moreover have "obj_field (\<lambda>_. True) m ''freeze''" "obj_field (\<lambda>_. True) m ''safe_mode''"
    using fields(5,6) reason_schema_obj by (fastforce simp: obj_field_def split: option.split)+
  moreover obtain i t v n where "jget m ''command_id'' = Some (JStr i)" "jget m ''command_type'' = Some (JStr t)"
    "t \<in> set command_types" "jget m ''sequence_number'' = Some v" "jint v = Some n"
    using fields(1-3) by auto
  moreover from this have "t \<in> {''activate_creative'', ''freeze'', ''safe_mode'', ''clear_safe_mode''}"
    by (simp add: command_types_def)
  ultimately show ?thesis unfolding command_shape_def is_jint_def by simp
qed

lemma item_shape_of_contract:
  assumes "item_schema it"
  shows "item_shape it"
proof -
  note sch = assms [unfolded item_schema_def]
  have "\<exists>s. jget it ''asset_id'' = Some (JStr s) \<and> contract_id s"
    "\<exists>s. jget it ''asset_type'' = Some (JStr s) \<and> s \<in> set [''video'', ''image'', ''html'']"
    "\<exists>v n. jget it ''duration_ms'' = Some v \<and> jint v = Some n \<and> 1000 \<le> n"
    by (rule schema_string [OF sch] schema_int [OF sch]; simp)+
  then show ?thesis by (auto simp: item_shape_def)
qed

text \<open>What ICD-5 admits has the shape the stores and the renderer read.\<close>

lemma manifest_shape_of_contract:
  assumes "manifest_contract m"
  shows "manifest_shape m"
proof -
  note sch = assms [unfolded manifest_contract_def]
  have "\<exists>s. jget m ''manifest_id'' = Some (JStr s) \<and> contract_id s"
    "\<exists>s. jget m ''approved_at'' = Some (JStr s) \<and> True"
    "\<exists>s. jget m ''approved_by'' = Some (JStr s) \<and> contract_id s"
    by (rule schema_string [OF sch]; simp)+
  moreover have "jstr_opt (Some v) \<noteq> None" if v: "jget m ''expires_at'' = Some v" for v
  proof -
    have "str_where (\<lambda>_. True) v" by (rule schema_optional [OF sch _ v]) simp
    then show ?thesis by (auto dest: str_where_opt)
  qed
  moreover have "\<exists>v. jget m ''items'' = Some v \<and> arr_where item_schema v"
    by (rule schema_object_field [OF sch]) simp_all
  then have "\<exists>its. jget m ''items'' = Some (JArr its) \<and> its \<noteq> [] \<and> list_all item_shape its"
    using item_shape_of_contract by (fastforce simp: arr_where_def list_all_iff split: json.splits)
  ultimately show ?thesis
    using schema_object_is_obj [OF sch]
    by (auto simp: manifest_shape_def manifest_id_of_def contract_id_def split: option.split)
qed

subsection \<open>Published events\<close>

definition short_id :: "string option \<Rightarrow> bool" where
  "short_id v \<longleftrightarrow> (case v of None \<Rightarrow> True | Some m \<Rightarrow> length m \<le> 128)"

lemma short_id_simps [simp]: "short_id None" "short_id (Some m) \<longleftrightarrow> length m \<le> 128"
  by (simp_all add: short_id_def)

definition player_event_ok :: "json \<Rightarrow> bool" where
  "player_event_ok e \<longleftrightarrow> player_event_contract e \<and> jget e ''rule_rationale'' = None"

lemma built_event_ok:
  assumes "contract_id i" "ty \<in> set event_types" "short_id m"
  shows "player_event_ok (build_event i t ty m d None)"
  using assms
  by (cases m; cases d)
    (simp_all add: player_event_ok_def player_event_contract_def build_event_def opt_field_def schema_object_def
      dict_keys_def null_or_def)

text \<open>What the publisher has sent, the identifiers it still has to build, and the tracked manifest.\<close>

definition publisher_ok :: "event_publisher \<Rightarrow> bool" where
  "publisher_ok ep \<longleftrightarrow> list_all player_event_ok (ep_sent ep) \<and> (\<forall>n. contract_id (fst (ep_world ep n)))"

definition events_ok :: "'r player \<Rightarrow> bool" where
  "events_ok pl \<longleftrightarrow> publisher_ok (pl_events pl) \<and> short_id (pl_prev_manifest_id pl)"

lemma publisher_ok_publish:
  assumes "publisher_ok ep" "ty \<in> set event_types" "short_id m"
  shows "publisher_ok (ep_publish ty m d None ep)"
proof -
  obtain i t sends where w: "ep_world ep (ep_built ep) = (i, t, sends)" by (rule prod_cases3)
  with assms(1) have "contract_id i" unfolding publisher_ok_def by (metis fst_conv)
  from built_event_ok [OF this assms(2,3)] assms(1) w show ?thesis
    by (simp add: ep_publish_def publisher_ok_def Let_def)
qed

lemma publisher_ok_events:
  assumes "publisher_ok ep"
  shows "length m \<le> 128 \<Longrightarrow> publisher_ok (manifest_activated m None ep)"
    and "length m \<le> 128 \<Longrightarrow> publisher_ok (manifest_deactivated m d ep)"
    and "publisher_ok (ep_frozen ep)" "publisher_ok (safe_mode_entered ep)" "publisher_ok (fallback_entered ep)"
    and "publisher_ok (set_client ep)" "publisher_ok (clear_client ep)"
  using assms
  by (auto simp: ep_defs event_types_def set_client_def clear_client_def publisher_ok_def [of "ep\<lparr>ep_client := _\<rparr>"]
      publisher_ok_def [of ep] intro!: publisher_ok_publish)

text \<open>A result that starts a manifest names one of admissible length and carries no reason.\<close>

definition result_ok :: "transition_result \<Rightarrow> bool" where
  "result_ok r \<longleftrightarrow> (tr_action r = ''play_manifest'' \<longrightarrow>
     tr_reason r = None \<and> tr_manifest_id r \<noteq> None \<and> short_id (tr_manifest_id r))"

lemma announce_events_ok:
  assumes "events_ok pl" "result_ok r"
  shows "events_ok (announce r pl)"
  using assms publisher_ok_events
  by (auto simp: announce_def events_ok_def result_ok_def Let_def split: option.split)

lemma on_transition_events_ok:
  assumes "events_ok pl" "result_ok r"
  shows "events_ok (snd (on_transition R cache r pl))"
proof -
  have "events_ok (pl\<lparr>pl_renderer := r'\<rparr>)" for r' using assms(1) by (simp add: events_ok_def)
  then show ?thesis
    using announce_events_ok assms(2) by (auto simp: on_transition_def split: prod.split sum.split)
qed

lemma result_ok_step:
  assumes "\<And>m d c why. e = EvActivate m d c why \<Longrightarrow> length m \<le> 128"
  shows "result_ok (fst (sm_step now e s))"
  using assms by (cases e) (auto simp: result_ok_def sm_transition_defs split: option.split)

lemma result_ok_refusal: "result_ok (ch_refusal reason h)"
  by (simp add: result_ok_def ch_refusal_not_play)

lemma activate_payload_id:
  assumes "command_contract msg" "activate_payload msg = Inr (m, d, c, why)"
  shows "length m \<le> 128"
proof (cases "jget msg ''activate_creative''")
  case None
  with assms(2) show ?thesis by (simp add: activate_payload_def jget_or_empty_def)
next
  case (Some p)
  from command_contract_fields(4) [OF assms(1) Some] have sch: "activate_schema p" .
  then obtain s where s: "jget p ''manifest_id'' = Some (JStr s)" "contract_id s"
    using activate_schema_fields(1) by blast
  from s(1) have "truthy p" by (cases p) auto
  with assms(2) Some s show ?thesis
    by (auto simp: activate_payload_def jget_or_empty_def jindex_jget [OF s(1)] contract_id_def
        split: sum.splits option.splits)
qed

lemma result_ok_asked:
  assumes "on_activate_creative now m d c why s = (r, s')" "length m \<le> 128"
  shows "result_ok r"
  using result_ok_step [of "EvActivate m d c why" now s] assms by simp

lemma result_ok_activate:
  assumes "command_contract msg" "handle_activate_creative fromiso now wall msg h = (Inr r, h')"
  shows "result_ok r"
  using assms(2) activate_payload_id [OF assms(1)] result_ok_refusal result_ok_asked
  by (auto simp: handle_activate_creative_def Let_def split: sum.splits prod.splits option.splits)

lemma result_ok_dispatch:
  assumes "command_contract msg" "ch_dispatch fromiso now wall msg ty h = (Inr r, h')"
  shows "result_ok r"
proof (cases "ty = ''activate_creative''")
  case True
  with assms(2) have "handle_activate_creative fromiso now wall msg h = (Inr r, h')" by (simp add: ch_dispatch_def)
  with assms(1) show ?thesis by (rule result_ok_activate)
next
  case False
  have "result_ok (fst (sm_step now e (ch_sm h)))"
    if "e \<in> range EvFreeze \<union> range EvSafeMode \<union> {EvClearSafeMode}" for e
    using that by (intro result_ok_step) auto
  then have "result_ok (fst (on_freeze w (ch_sm h)))" "result_ok (fst (on_safe_mode now w (ch_sm h)))"
    "result_ok (fst (on_clear_safe_mode (ch_sm h)))" for w
    by (metis UnI1 UnI2 range_eqI sm_step.simps(2-4) singletonI)+
  with False assms(2) show ?thesis
    by (auto simp: ch_dispatch_def Let_def split: if_splits sum.splits prod.splits) (metis fst_conv)+
qed

lemma result_ok_handle_raw:
  assumes "handle_raw (errs_of command_contract) fromiso now wall raw h = (Inr (Some r), h')"
  shows "result_ok r"
  using assms
proof (cases rule: handle_raw_cases)
  case (dispatched r' msg seq i ty)
  then have "command_contract msg" by (auto simp: ch_admit_def split: if_splits)
  with dispatched result_ok_dispatch show ?thesis by fastforce
qed simp_all

lemma player_ws_events_ok:
  assumes "events_ok pl"
  shows "events_ok (snd (player_ws R cache (errs_of command_contract) fromiso e pl))"
proof -
  obtain res h' b' where step: "ch_loop_step (errs_of command_contract) fromiso e (pl_handler pl, pl_ws_backoff pl) = (res, (h', b'))"
    by (metis prod.exhaust)
  have "result_ok r" if "res = Inr (Some r)" for r
  proof (cases e)
    case (WsMessage now wall raw)
    with step that result_ok_handle_raw show ?thesis by (auto simp: Let_def split: prod.splits)
  next
    case (WsFailed now)
    with step that result_ok_step [of EvConnectionLost now "ch_sm (pl_handler pl)"] show ?thesis
      by (auto simp: Let_def split: prod.splits)
  qed (use step that in simp_all)
  moreover have "events_ok (pl\<lparr>pl_handler := h', pl_ws_backoff := b'\<rparr>)" using assms by (simp add: events_ok_def)
  ultimately show ?thesis
    using on_transition_events_ok by (auto simp: player_ws_def step Let_def split: sum.split option.split)
qed

lemma control_events_ok:
  assumes "events_ok pl" "result_ok r" "p = pl\<lparr>pl_handler := h\<rparr>"
  shows "events_ok (snd (on_transition R cache r p))"
  using assms by (intro on_transition_events_ok) (simp_all add: events_ok_def)

lemma player_step_events_ok [step_inv]:
  assumes "events_ok pl"
  shows "events_ok (snd (player_step R cache (errs_of command_contract) merrs fromiso i pl))"
proof (cases i)
  case (PiWs e)
  with player_ws_events_ok [OF assms] show ?thesis by simp
next
  case (PiRefresh env)
  with assms show ?thesis by (simp add: refresh_round_eq events_ok_def)
next
  case (PiReload dir)
  with assms show ?thesis by (simp add: reload_round_def events_ok_def)
next
  case (PiEngage now body)
  have "result_ok (fst (on_safe_mode now w s))" for w s
    using result_ok_step [of "EvSafeMode w" now s] by simp
  then have "events_ok (snd (on_transition R cache (fst (on_safe_mode now w s)) (pl\<lparr>pl_handler := h\<rparr>)))" for w s h
    by (rule control_events_ok [OF assms _ refl])
  with PiEngage assms show ?thesis by (simp add: safe_mode_engage_def split_beta Let_def)
next
  case PiClear
  have "result_ok (fst (on_clear_safe_mode s))" for s
    using result_ok_step [of EvClearSafeMode 0 s] by simp
  then have "events_ok (snd (on_transition R cache (fst (on_clear_safe_mode s)) (pl\<lparr>pl_handler := h\<rparr>)))" for s h
    by (rule control_events_ok [OF assms _ refl])
  with PiClear assms show ?thesis by (simp add: safe_mode_clear_def split_beta Let_def)
qed (use assms publisher_ok_events(6,7) in \<open>simp_all add: player_mqtt_up_def player_mqtt_down_def events_ok_def\<close>)

lemma player_run_events_ok:
  "events_ok pl \<Longrightarrow> events_ok (snd (player_run R cache (errs_of command_contract) merrs fromiso inputs pl))"
proof (induction inputs arbitrary: pl)
  case (Cons i inputs)
  from player_step_events_ok [OF Cons.prems, of R cache merrs fromiso i] Cons.IH show ?case
    by (auto split: prod.split sum.split)
qed simp

lemma boot_events_ok:
  assumes "player_boot R merrs env dir world r0 = Booted pl" "\<forall>n. contract_id (fst (world n))"
  shows "events_ok pl"
  using assms
  by (auto simp: player_boot_def events_ok_def publisher_ok_def init_ep_def split: prod.splits sum.splits if_splits)

text \<open>
  C9. Every event the player publishes satisfies the ICD-9 contract its consumer is written
  against, whatever renderer it drives and whatever commands (validated by ICD-4), failures,
  reloads, refreshes and control requests it receives; and no event carries the
  \<open>rule_rationale\<close> the contract reserves for activations: accepted activations have no
  \<open>reason\<close>.
\<close>

theorem events_conform:
  assumes "player_boot R merrs env dir world r0 = Booted pl" "\<forall>n. contract_id (fst (world n))"
  shows "list_all (\<lambda>e. player_event_contract e \<and> jget e ''rule_rationale'' = None)
    (ep_sent (pl_events (snd (player_run R cache (errs_of command_contract) merrs fromiso inputs pl))))"
  using player_run_events_ok [OF boot_events_ok [OF assms]]
  by (simp add: events_ok_def publisher_ok_def player_event_ok_def list_all_iff)

definition icd_manifest :: json where
  "icd_manifest = JObj [(''schema_version'', JStr ''1.0.0''), (''manifest_id'', JStr ''m1''),
     (''approved_at'', JStr ''t''), (''approved_by'', JStr ''bob''),
     (''items'', JArr [JObj [(''item_id'', JStr ''i1''), (''asset_id'', JStr ''a.mp4''),
       (''asset_type'', JStr ''video''), (''duration_ms'', JInt 5000)]])]"

definition icd_command :: "string \<Rightarrow> int \<Rightarrow> (string \<times> json) list \<Rightarrow> json" where
  "icd_command i seq payload = JObj ([(''schema_version'', JStr ''1.0.0''), (''command_id'', JStr i),
     (''sequence_number'', JInt seq), (''produced_at'', JStr ''t''), (''command_type'', JStr ''activate_creative'')] @ payload)"

definition icd_payload :: "(string \<times> json) list" where
  "icd_payload = [(''activate_creative'', JObj [(''manifest_id'', JStr ''m1''), (''min_dwell_ms'', JInt 0),
     (''rationale'', JStr ''r'')])]"

definition icd_boot :: "stub_log boot" where
  "icd_boot = player_boot stub_renderer (errs_of manifest_contract) demo_env (Some [(''m.json'', Some icd_manifest)])
     (\<lambda>n. (''e'', ''t'', True)) []"

theorem events_conform_witness:
  "case icd_boot of Booted pl \<Rightarrow>
     list_all (\<lambda>e. player_event_contract e \<and> jget e ''rule_rationale'' = None)
       (ep_sent (pl_events (snd (player_run stub_renderer ''/a'' (errs_of command_contract) (errs_of manifest_contract)
         no_iso [PiMqttUp, PiWs (WsMessage 1 1 (Decoded (icd_command ''c1'' 1 icd_payload)))] pl)))) \<and>
     length (ep_sent (pl_events (snd (player_run stub_renderer ''/a'' (errs_of command_contract) (errs_of manifest_contract)
         no_iso [PiMqttUp, PiWs (WsMessage 1 1 (Decoded (icd_command ''c1'' 1 icd_payload)))] pl)))) = 1
   | _ \<Rightarrow> False"
proof -
  have ids: "\<forall>n::nat. contract_id (fst (''e'', ''t'', True))" by (simp add: contract_id_def)
  have run: "case icd_boot of Booted pl \<Rightarrow>
     length (ep_sent (pl_events (snd (player_run stub_renderer ''/a'' (errs_of command_contract) (errs_of manifest_contract)
         no_iso [PiMqttUp, PiWs (WsMessage 1 1 (Decoded (icd_command ''c1'' 1 icd_payload)))] pl)))) = 1
   | _ \<Rightarrow> False"
    by code_simp
  then obtain pl where pl: "icd_boot = Booted pl" by (auto split: boot.splits)
  from events_conform [OF pl [unfolded icd_boot_def] ids] run show ?thesis unfolding pl boot.case by blast
qed

subsection \<open>How the process ends\<close>

lemma bare_command_conforms:
  assumes "contract_id i" "0 \<le> seq"
  shows "command_contract (icd_command i seq [])"
  using assms by (simp add: command_contract_def icd_command_def schema_object_def dict_keys_def command_types_def)

text \<open>
  C16. An activation without its payload object satisfies the ICD-4 contract, and a fresh one
  ends the player: the \<open>KeyError\<close> leaves the command loop, nothing after it is processed, the
  renderer is stopped and the process exits with the exception.
\<close>

theorem bare_activation_ends_player:
  assumes "player_boot R merrs env dir world r0 = Booted pl" "contract_id i" "0 \<le> seq"
  shows "command_contract (icd_command i seq []) \<and>
    player_process R cache (errs_of command_contract) merrs fromiso env dir world
      (PiWs (WsMessage now wall (Decoded (icd_command i seq []))) # inputs) r0 =
      (ProcessRaised (KeyError ''manifest_id''), rn_stop R (pl_renderer pl))"
proof -
  have conf: "command_contract (icd_command i seq [])" by (rule bare_command_conforms [OF assms(2,3)])
  have fresh: "ch_last_sequence (pl_handler pl) = - 1" "ch_seen_command_ids (pl_handler pl) = []"
    using assms(1) by (auto simp: player_boot_def init_handler_def split: prod.splits sum.splits if_splits)
  have admit: "ch_admit (errs_of command_contract) (icd_command i seq []) (pl_handler pl) =
      Inr (Some (seq, i, ''activate_creative''))"
    using conf fresh assms(3) by (simp add: ch_admit_def icd_command_def dict_keys_def)
  have no_payload: "activate_payload (icd_command i seq []) = Inl (KeyError ''manifest_id'')"
    by (simp add: activate_payload_def icd_command_def jget_or_empty_def)
  have "handle_raw (errs_of command_contract) fromiso now wall (Decoded (icd_command i seq [])) (pl_handler pl) =
      (Inl (KeyError ''manifest_id''), ch_record seq i (pl_handler pl))"
    using no_payload by (simp add: handle_raw_def admit ch_dispatch_def handle_activate_creative_def)
  then have "player_run R cache (errs_of command_contract) merrs fromiso
      (PiWs (WsMessage now wall (Decoded (icd_command i seq []))) # inputs) pl =
      (Inl (KeyError ''manifest_id''), pl\<lparr>pl_handler := ch_record seq i (pl_handler pl)\<rparr>)"
    by (simp add: player_ws_def)
  with conf assms(1) show ?thesis by (simp add: player_process_def player_shutdown_def del: player_run.simps)
qed

theorem bare_activation_ends_player_witness:
  "\<exists>pl. icd_boot = Booted pl \<and>
    player_process stub_renderer ''/a'' (errs_of command_contract) (errs_of manifest_contract) no_iso demo_env
      (Some [(''m.json'', Some icd_manifest)]) (\<lambda>n. (''e'', ''t'', True))
      [PiWs (WsMessage 1 1 (Decoded (icd_command ''c1'' 0 [])))] [] =
      (ProcessRaised (KeyError ''manifest_id''), rn_stop stub_renderer (pl_renderer pl))"
proof -
  have "case icd_boot of Booted pl \<Rightarrow> True | _ \<Rightarrow> False" by code_simp
  then obtain pl where pl: "icd_boot = Booted pl" by (auto split: boot.splits)
  have "contract_id ''c1''" by (simp add: contract_id_def)
  from bare_activation_ends_player [OF pl [unfolded icd_boot_def] this, of 0] pl show ?thesis by auto
qed

text \<open>
  A startup that times out, or whose first frame fails, leaves the mpv child running: the
  renderer is only stopped in the \<open>finally\<close> of the command loop.
\<close>

lemma failed_startup_leaves_mpv:
  assumes "fst (fb_validate env init_fb) = Inr ()" "mp_found r" "mp_polls r = []"
  shows "player_process mpv_renderer cache cerrs merrs fromiso env dir world inputs r =
    (ProcessExit 1, r\<lparr>mp_process := Some None\<rparr>)"
  using assms by (cases "fb_validate env init_fb") (simp add: player_process_def player_boot_def mpv_startup_def)

text \<open>
  With a working broker every scheduled play event is delivered once, in order: the messages of the publish tasks are the announced activations.
\<close>

lemma publish_tasks_all:
  assumes "list_all snd attempts" "length attempts = length (ch_scheduled h)"
  shows "publish_tasks attempts h = map (\<lambda>(a, ev). play_event_json (fst a) ev) (zip attempts (ch_scheduled h))"
proof -
  have "List.map_filter (\<lambda>(a, ev). publish_task a ev) (zip as evs) =
      map (\<lambda>(a, ev). play_event_json (fst a) ev) (zip as evs)"
    if "list_all snd as" "length as = length evs" for as evs
    using that(2,1)
    by (induction as evs rule: list_induct2) (auto simp: List.map_filter_def publish_task_def Let_def)
  then show ?thesis using assms by (simp add: publish_tasks_def)
qed

end
