(* ===== verification/Supervisor.thy ===== *)
theory Supervisor
  imports Prelude
begin

section \<open>Supervisor (services/supervisor/supervisor)\<close>

text \<open>
  Health probing, the restart ladder, the safe-mode relay and the storage check. HTTP calls
  and docker are the environment: a call answers with a status (\<open>None\<close> when it raises), a
  restart with success or failure.
\<close>

subsection \<open>Services (service_table.py)\<close>

datatype svc_priority = Critical | High | Medium

record managed_service =
  ms_name :: string
  ms_container_name :: string
  ms_priority :: svc_priority

definition build_service_table :: "managed_service list" where
  "build_service_table =
     [\<lparr>ms_name = ''player'', ms_container_name = ''player'', ms_priority = Critical\<rparr>,
      \<lparr>ms_name = ''decision-optimizer'', ms_container_name = ''decision-optimizer'', ms_priority = High\<rparr>,
      \<lparr>ms_name = ''audience-state'', ms_container_name = ''audience-state'', ms_priority = High\<rparr>,
      \<lparr>ms_name = ''creative'', ms_container_name = ''creative'', ms_priority = Medium\<rparr>,
      \<lparr>ms_name = ''dashboard-api'', ms_container_name = ''dashboard-api'', ms_priority = Medium\<rparr>]"

record service_state =
  ss_is_healthy :: bool
  ss_consecutive_failures :: nat
  ss_restart_count :: nat
  ss_restart_timestamps :: "rat list"
  ss_last_restart_at :: "rat option"
  ss_in_boot_loop :: bool
  ss_escalated :: bool

definition init_ss :: service_state where
  "init_ss = \<lparr>ss_is_healthy = True, ss_consecutive_failures = 0, ss_restart_count = 0,
     ss_restart_timestamps = [], ss_last_restart_at = None, ss_in_boot_loop = False, ss_escalated = False\<rparr>"

definition record_healthy :: "service_state \<Rightarrow> service_state" where
  "record_healthy s = s\<lparr>ss_is_healthy := True, ss_consecutive_failures := 0\<rparr>"

definition record_failure :: "service_state \<Rightarrow> service_state" where
  "record_failure s =
     s\<lparr>ss_is_healthy := False, ss_consecutive_failures := ss_consecutive_failures s + 1\<rparr>"

definition record_restart :: "rat \<Rightarrow> service_state \<Rightarrow> service_state" where
  "record_restart now s =
     s\<lparr>ss_restart_count := ss_restart_count s + 1,
       ss_restart_timestamps := ss_restart_timestamps s @ [now], ss_last_restart_at := Some now\<rparr>"

definition prune_timestamps :: "rat \<Rightarrow> rat \<Rightarrow> service_state \<Rightarrow> service_state" where
  "prune_timestamps window_s now s =
     s\<lparr>ss_restart_timestamps := filter (\<lambda>t. now - window_s \<le> t) (ss_restart_timestamps s)\<rparr>"

subsection \<open>Restart ladder (restart_manager.py)\<close>

datatype restart_decision = RESTARTED | BOOT_LOOP | ESCALATED | SKIPPED | DOCKER_FAILED

record restart_manager =
  rm_restart_threshold :: nat
  rm_fast_fail_window :: rat
  rm_boot_loop_threshold :: nat
  rm_failure_threshold :: nat
  rm_docker_enabled :: bool

definition default_rm :: restart_manager where
  "default_rm = \<lparr>rm_restart_threshold = 5, rm_fast_fail_window = 120, rm_boot_loop_threshold = 3,
     rm_failure_threshold = 2, rm_docker_enabled = True\<rparr>"

text \<open>\<open>_docker_restart\<close>: without docker every restart succeeds; \<open>docker_ok\<close> is the outcome of the command.\<close>

definition docker_restart :: "restart_manager \<Rightarrow> bool \<Rightarrow> bool" where
  "docker_restart rm docker_ok = (\<not> rm_docker_enabled rm \<or> docker_ok)"

definition rm_evaluate :: "restart_manager \<Rightarrow> rat \<Rightarrow> bool \<Rightarrow> service_state \<Rightarrow> restart_decision \<times> service_state" where
  "rm_evaluate rm now docker_ok s =
     (if ss_consecutive_failures s < rm_failure_threshold rm then (SKIPPED, s)
      else if ss_in_boot_loop s \<or> ss_escalated s then (SKIPPED, s)
      else let s1 = prune_timestamps (rm_fast_fail_window rm) now s in
        if rm_boot_loop_threshold rm \<le> length (ss_restart_timestamps s1)
        then (BOOT_LOOP, s1\<lparr>ss_in_boot_loop := True\<rparr>)
        else if rm_restart_threshold rm \<le> ss_restart_count s1
        then (ESCALATED, s1\<lparr>ss_escalated := True\<rparr>)
        else if docker_restart rm docker_ok then (RESTARTED, record_restart now s1)
        else (DOCKER_FAILED, s1))"

subsection \<open>Probe (health_probe.py)\<close>

definition probe_healthy :: "int option \<Rightarrow> bool" where
  "probe_healthy status = (case status of Some c \<Rightarrow> c < 500 | None \<Rightarrow> False)"

subsection \<open>Safe-mode relay (safe_mode_relay.py)\<close>

text \<open>\<open>sr_calls\<close> logs the requests sent to the player's control endpoint.\<close>

datatype relay_call = PostEngage json | DeleteClear

record safe_mode_relay =
  sr_engaged_by_dashboard :: bool
  sr_engaged_by_supervisor :: bool
  sr_calls :: "relay_call list"

definition init_relay :: safe_mode_relay where
  "init_relay = \<lparr>sr_engaged_by_dashboard = False, sr_engaged_by_supervisor = False, sr_calls = []\<rparr>"

definition post_engage :: "int option \<Rightarrow> json \<Rightarrow> safe_mode_relay \<Rightarrow> bool \<times> safe_mode_relay" where
  "post_engage status reason sr = (status = Some 200, sr\<lparr>sr_calls := sr_calls sr @ [PostEngage reason]\<rparr>)"

definition delete_clear :: "int option \<Rightarrow> safe_mode_relay \<Rightarrow> bool \<times> safe_mode_relay" where
  "delete_clear status sr = (status = Some 200, sr\<lparr>sr_calls := sr_calls sr @ [DeleteClear]\<rparr>)"

definition engage_safe_mode_supervisor :: "int option \<Rightarrow> string \<Rightarrow> safe_mode_relay \<Rightarrow> bool \<times> safe_mode_relay" where
  "engage_safe_mode_supervisor status reason sr =
     (let (ok, sr') = post_engage status (JStr reason) sr
      in (ok, if ok then sr'\<lparr>sr_engaged_by_supervisor := True\<rparr> else sr'))"

definition is_safe_mode_active :: "safe_mode_relay \<Rightarrow> bool" where
  "is_safe_mode_active sr = (sr_engaged_by_dashboard sr \<or> sr_engaged_by_supervisor sr)"

text \<open>\<open>_poll_dashboard\<close>: the decoded body of a 200 answer, \<open>None\<close> otherwise.\<close>

definition poll_dashboard :: "(int \<times> json) option \<Rightarrow> json option" where
  "poll_dashboard resp = (case resp of Some (status, body) \<Rightarrow> if status = 200 then Some body else None | None \<Rightarrow> None)"

text \<open>One guarded tick of \<open>run\<close>: a body that is no object makes \<open>intent.get\<close> raise, which is logged.\<close>

definition relay_tick :: "(int \<times> json) option \<Rightarrow> int option \<Rightarrow> safe_mode_relay \<Rightarrow> safe_mode_relay" where
  "relay_tick resp player_status sr =
     (case poll_dashboard resp of
        None \<Rightarrow> sr
      | Some intent \<Rightarrow>
          if \<not> is_obj intent then sr
          else
          (let wants = (case jget intent ''is_active'' of Some v \<Rightarrow> truthy v | None \<Rightarrow> False);
               reason = (case jget intent ''reason'' of
                           Some r \<Rightarrow> if truthy r then r else JStr ''operator_manual''
                         | None \<Rightarrow> JStr ''operator_manual'')
           in if wants \<and> \<not> sr_engaged_by_dashboard sr then
                (let (ok, sr') = post_engage player_status reason sr
                 in if ok then sr'\<lparr>sr_engaged_by_dashboard := True\<rparr> else sr')
              else if \<not> wants \<and> sr_engaged_by_dashboard sr then
                (let (ok, sr') = delete_clear player_status sr
                 in if ok then sr'\<lparr>sr_engaged_by_dashboard := False\<rparr> else sr')
              else sr))"

subsection \<open>Health loop (main.py)\<close>

text \<open>The environment of one round: per service the probe status and the docker outcome, and the player's answer.\<close>

record round_env =
  re_now :: rat
  re_status :: "string \<Rightarrow> int option"
  re_docker_ok :: "string \<Rightarrow> bool"
  re_engage_status :: "int option"

record supervisor =
  sv_states :: "(string \<times> service_state) list"
  sv_relay :: safe_mode_relay

definition init_sv :: "managed_service list \<Rightarrow> supervisor" where
  "init_sv svcs = \<lparr>sv_states = map (\<lambda>m. (ms_name m, init_ss)) svcs, sv_relay = init_relay\<rparr>"

definition sv_state :: "supervisor \<Rightarrow> string \<Rightarrow> service_state" where
  "sv_state sv n = (case map_of (sv_states sv) n of Some s \<Rightarrow> s | None \<Rightarrow> init_ss)"

definition check_service :: "restart_manager \<Rightarrow> round_env \<Rightarrow> managed_service \<Rightarrow> supervisor \<Rightarrow> supervisor" where
  "check_service rm env svc sv =
     (let n = ms_name svc; s = sv_state sv n in
      if probe_healthy (re_status env n)
      then sv\<lparr>sv_states := AList.update n (record_healthy s) (sv_states sv)\<rparr>
      else (let (decision, s') = rm_evaluate rm (re_now env) (re_docker_ok env n) (record_failure s);
                sv' = sv\<lparr>sv_states := AList.update n s' (sv_states sv)\<rparr>
            in if (decision = BOOT_LOOP \<or> decision = ESCALATED) \<and> ms_priority svc = Critical
               then sv'\<lparr>sv_relay := snd (engage_safe_mode_supervisor (re_engage_status env)
                          ''supervisor_escalation'' (sv_relay sv'))\<rparr>
               else sv'))"

definition health_round :: "restart_manager \<Rightarrow> managed_service list \<Rightarrow> round_env \<Rightarrow> supervisor \<Rightarrow> supervisor" where
  "health_round rm svcs env sv = fold (check_service rm env) svcs sv"

subsection \<open>Storage check (storage_monitor.py)\<close>

record storage_status =
  st_total_bytes :: int
  st_used_bytes :: int
  st_free_bytes :: int
  st_used_pct :: rat
  st_warn_pct :: rat
  st_critical_pct :: rat

definition st_is_warning :: "storage_status \<Rightarrow> bool" where
  "st_is_warning st = (st_warn_pct st \<le> st_used_pct st)"

definition st_is_critical :: "storage_status \<Rightarrow> bool" where
  "st_is_critical st = (st_critical_pct st \<le> st_used_pct st)"

definition check_storage :: "(int \<times> int \<times> int) option \<Rightarrow> rat \<Rightarrow> rat \<Rightarrow> storage_status" where
  "check_storage usage warn_pct critical_pct =
     (case usage of
        Some (bytes, used, free) \<Rightarrow>
          \<lparr>st_total_bytes = bytes, st_used_bytes = used, st_free_bytes = free,
           st_used_pct = of_int used / of_int bytes * 100, st_warn_pct = warn_pct, st_critical_pct = critical_pct\<rparr>
      | None \<Rightarrow>
          \<lparr>st_total_bytes = 0, st_used_bytes = 0, st_free_bytes = 0, st_used_pct = 0,
           st_warn_pct = warn_pct, st_critical_pct = critical_pct\<rparr>)"

text \<open>\<open>/readyz\<close> lists the services that are not healthy.\<close>

definition degraded_services :: "supervisor \<Rightarrow> string list" where
  "degraded_services sv = map fst (filter (\<lambda>(n, s). \<not> ss_is_healthy s) (sv_states sv))"

subsection \<open>Properties of the ladder\<close>

text \<open>One service under a sequence of probe results: (time, healthy, docker outcome).\<close>

definition ladder_step :: "restart_manager \<Rightarrow> rat \<times> bool \<times> bool \<Rightarrow> service_state \<Rightarrow> restart_decision option \<times> service_state" where
  "ladder_step rm p s =
     (case p of (now, healthy, docker_ok) \<Rightarrow>
        if healthy then (None, record_healthy s)
        else (let (d, s') = rm_evaluate rm now docker_ok (record_failure s) in (Some d, s')))"

text \<open>The restart times of a run.\<close>

fun ladder_restarts :: "restart_manager \<Rightarrow> (rat \<times> bool \<times> bool) list \<Rightarrow> service_state \<Rightarrow> rat list" where
  "ladder_restarts rm [] s = []"
| "ladder_restarts rm (p # ps) s =
     (let (d, s') = ladder_step rm p s
      in (if d = Some RESTARTED then [fst p] else []) @ ladder_restarts rm ps s')"

definition terminal :: "service_state \<Rightarrow> bool" where
  "terminal s \<longleftrightarrow> ss_in_boot_loop s \<or> ss_escalated s"

lemma ladder_step_cases:
  assumes "ladder_step rm p s = (d, s')"
  shows "if d = Some RESTARTED
    then \<not> terminal s \<and> \<not> terminal s' \<and> ss_restart_count s < rm_restart_threshold rm \<and>
      ss_restart_count s' = ss_restart_count s + 1 \<and>
      ss_restart_timestamps s' = filter (\<lambda>t. fst p - rm_fast_fail_window rm \<le> t) (ss_restart_timestamps s) @ [fst p] \<and>
      length (filter (\<lambda>t. fst p - rm_fast_fail_window rm \<le> t) (ss_restart_timestamps s)) < rm_boot_loop_threshold rm
    else ss_restart_count s' = ss_restart_count s \<and> (terminal s \<longrightarrow> terminal s') \<and>
      (ss_restart_timestamps s' = ss_restart_timestamps s \<or>
       ss_restart_timestamps s' = filter (\<lambda>t. fst p - rm_fast_fail_window rm \<le> t) (ss_restart_timestamps s))"
  using assms
  by (cases p)
    (auto simp: ladder_step_def rm_evaluate_def record_healthy_def record_failure_def record_restart_def
      prune_timestamps_def terminal_def Let_def not_le split: if_splits)

lemma ladder_step_count:
  "ladder_step rm p s = (d, s') \<Longrightarrow>
   ss_restart_count s' = ss_restart_count s + (if d = Some RESTARTED then 1 else 0)"
  using ladder_step_cases [of rm p s d s'] by (simp split: if_splits)

lemma ladder_terminal: "terminal s \<Longrightarrow> ladder_restarts rm ps s = []"
proof (induction ps arbitrary: s)
  case Nil
  then show ?case by simp
next
  case (Cons p ps)
  obtain d s' where d: "ladder_step rm p s = (d, s')" by (rule prod.exhaust)
  from ladder_step_cases [OF this] Cons.prems have "d \<noteq> Some RESTARTED" "terminal s'" by (auto split: if_splits)
  with d Cons.IH show ?case by simp
qed

lemma ladder_total:
  "ss_restart_count s \<le> rm_restart_threshold rm \<Longrightarrow>
   length (ladder_restarts rm ps s) + ss_restart_count s \<le> rm_restart_threshold rm"
proof (induction ps arbitrary: s)
  case Nil
  then show ?case by simp
next
  case (Cons p ps)
  obtain d s' where d: "ladder_step rm p s = (d, s')" by (rule prod.exhaust)
  show ?case
  proof (cases "d = Some RESTARTED")
    case True
    with ladder_step_cases [OF d] have "ss_restart_count s < rm_restart_threshold rm"
      "ss_restart_count s' = ss_restart_count s + 1" by simp_all
    with Cons.IH [of s'] True d show ?thesis by simp
  next
    case False
    with ladder_step_cases [OF d] have "ss_restart_count s' = ss_restart_count s" by simp
    with Cons.IH [of s'] Cons.prems False d show ?thesis by simp
  qed
qed

text \<open>Restarts in the window that ends at \<open>t\<close>: earlier ones the state remembers and those of the run.\<close>

definition in_window :: "rat \<Rightarrow> rat \<Rightarrow> rat list \<Rightarrow> rat list" where
  "in_window w t ts = filter (\<lambda>u. t - w \<le> u \<and> u \<le> t) ts"

lemma in_window_prune:
  assumes "\<forall>u \<in> set ts. u \<le> now" and "now \<le> t"
  shows "in_window w t (filter (\<lambda>u. now - w \<le> u) ts) = in_window w t ts"
  using assms by (auto simp: in_window_def intro!: filter_cong)

lemma ladder_restarts_in: "u \<in> set (ladder_restarts rm ps s) \<Longrightarrow> \<exists>p \<in> set ps. u = fst p"
  by (induction ps arbitrary: s) (auto simp: split_beta Let_def split: if_splits)

lemma in_window_length: "length (in_window w t (filter P ts)) \<le> length (in_window w t ts)"
proof -
  have "in_window w t (filter P ts) = filter P (in_window w t ts)"
    by (simp add: in_window_def conj_commute)
  then show ?thesis by simp
qed

lemma ladder_window:
  assumes "sorted (map fst ps)" and "\<forall>p \<in> set ps. \<forall>u \<in> set (ss_restart_timestamps s). u \<le> fst p"
    and "\<forall>t. length (in_window (rm_fast_fail_window rm) t (ss_restart_timestamps s)) \<le> rm_boot_loop_threshold rm"
  shows "length (in_window (rm_fast_fail_window rm) t (ss_restart_timestamps s @ ladder_restarts rm ps s))
    \<le> rm_boot_loop_threshold rm"
  using assms
proof (induction ps arbitrary: s)
  case Nil
  then show ?case by simp
next
  case (Cons p ps)
  let ?w = "rm_fast_fail_window rm"
  let ?keep = "filter (\<lambda>u. fst p - ?w \<le> u) (ss_restart_timestamps s)"
  obtain d s' where d: "ladder_step rm p s = (d, s')" by (rule prod.exhaust)
  have le: "\<forall>u \<in> set (ss_restart_timestamps s). u \<le> fst p" using Cons.prems(2) by simp
  have later: "\<forall>q \<in> set ps. fst p \<le> fst q" and srt: "sorted (map fst ps)" using Cons.prems(1) by auto
  show ?case
  proof (cases "fst p \<le> t")
    case False
    have "\<forall>u \<in> set (ladder_restarts rm (p # ps) s). fst p \<le> u"
      using ladder_restarts_in [of _ rm "p # ps" s] later by fastforce
    with False have "in_window ?w t (ladder_restarts rm (p # ps) s) = []"
      by (fastforce simp: in_window_def filter_empty_conv simp del: ladder_restarts.simps)
    with Cons.prems(3) show ?thesis by (simp add: in_window_def del: ladder_restarts.simps)
  next
    case True
    have split: "in_window ?w t (xs @ ys) = in_window ?w t xs @ in_window ?w t ys" for xs ys
      by (simp add: in_window_def)
    show ?thesis
    proof (cases "d = Some RESTARTED")
      case restarted: True
      with ladder_step_cases [OF d] have ts: "ss_restart_timestamps s' = ?keep @ [fst p]"
          "length ?keep < rm_boot_loop_threshold rm" by simp_all
      have "length (in_window ?w u (ss_restart_timestamps s')) \<le> length (ss_restart_timestamps s')" for u
        by (simp add: in_window_def)
      then have cap: "\<forall>u. length (in_window ?w u (ss_restart_timestamps s')) \<le> rm_boot_loop_threshold rm"
        using ts by (metis Suc_leI length_append_singleton order_trans)
      have "\<forall>q \<in> set ps. \<forall>u \<in> set (ss_restart_timestamps s'). u \<le> fst q"
        using ts(1) le later by fastforce
      from Cons.IH [OF srt this cap] show ?thesis
        using in_window_prune [OF le True, of ?w] restarted d ts(1) by (simp add: split)
    next
      case False
      then have r: "ladder_restarts rm (p # ps) s = ladder_restarts rm ps s'" using d by simp
      from False ladder_step_cases [OF d] have
        ts: "ss_restart_timestamps s' = ss_restart_timestamps s \<or> ss_restart_timestamps s' = ?keep" by simp
      then have cap: "\<forall>u. length (in_window ?w u (ss_restart_timestamps s')) \<le> rm_boot_loop_threshold rm"
        using Cons.prems(3) in_window_length [of ?w _ "\<lambda>u. fst p - ?w \<le> u" "ss_restart_timestamps s"]
        by (metis order_trans)
      have "\<forall>q \<in> set ps. \<forall>u \<in> set (ss_restart_timestamps s'). u \<le> fst q"
        using ts Cons.prems(2) by auto
      from Cons.IH [OF srt this cap] show ?thesis
        using in_window_prune [OF le True, of ?w] ts unfolding r by (auto simp: split)
    qed
  qed
qed

text \<open>
  C28. The restart ladder is bounded: whatever the probes and docker answer, a service is
  restarted at most \<open>restart_threshold\<close> times in all, and, at times that do not decrease,
  at most \<open>boot_loop_threshold\<close> times in any window of \<open>fast_fail_window\<close> seconds.
\<close>

theorem restarts_bounded:
  assumes "sorted (map fst ps)"
  shows "length (ladder_restarts rm ps init_ss) \<le> rm_restart_threshold rm \<and>
    length (in_window (rm_fast_fail_window rm) t (ladder_restarts rm ps init_ss)) \<le> rm_boot_loop_threshold rm"
  using ladder_total [of init_ss rm ps] ladder_window [OF assms, of init_ss rm t]
  by (simp add: init_ss_def in_window_def)

theorem restarts_bounded_witness:
  "length (ladder_restarts default_rm [(0, False, True), (10, False, True), (20, False, False),
     (30, False, True), (40, False, True), (50, False, True)] init_ss) \<le> 5"
proof -
  have "sorted (map fst [(0::rat, False, True), (10, False, True), (20, False, False),
     (30, False, True), (40, False, True), (50, False, True)])" by simp
  from restarts_bounded [OF this, of default_rm 50] show ?thesis
    by (simp add: default_rm_def del: ladder_restarts.simps)
qed

subsection \<open>Properties of the safe-mode path\<close>

text \<open>The engagement requests of the supervisor itself.\<close>

definition same_calls :: "supervisor \<Rightarrow> supervisor \<Rightarrow> bool" where
  "same_calls sv sv' \<longleftrightarrow> sv_relay sv' = sv_relay sv"

lemma rm_evaluate_terminal:
  "terminal s \<Longrightarrow> rm_evaluate rm now ok s = (SKIPPED, s)"
  by (auto simp: rm_evaluate_def terminal_def)

lemma terminal_records: "terminal (record_healthy s) = terminal s" "terminal (record_failure s) = terminal s"
  by (simp_all add: terminal_def record_healthy_def record_failure_def)

lemma sv_state_update [simp]:
  "sv_state (sv\<lparr>sv_states := AList.update n s (sv_states sv)\<rparr>) m = (if m = n then s else sv_state sv m)"
  by (simp add: sv_state_def dict_simps)

lemma sv_state_relay [simp]: "sv_state (sv\<lparr>sv_relay := r\<rparr>) m = sv_state sv m"
  by (simp add: sv_state_def)

text \<open>Every critical service of the table has reached a terminal state.\<close>

definition criticals_terminal :: "managed_service list \<Rightarrow> supervisor \<Rightarrow> bool" where
  "criticals_terminal svcs sv \<longleftrightarrow>
     (\<forall>svc \<in> set svcs. ms_priority svc = Critical \<longrightarrow> terminal (sv_state sv (ms_name svc)))"

lemma rm_evaluate_keeps_terminal: "terminal s \<Longrightarrow> terminal (snd (rm_evaluate rm now ok s))"
  by (simp add: rm_evaluate_terminal)

lemma check_service_terminal:
  assumes "criticals_terminal svcs sv" and "svc \<in> set svcs"
  shows "criticals_terminal svcs (check_service rm env svc sv) \<and> sv_relay (check_service rm env svc sv) = sv_relay sv"
proof (cases "ms_priority svc = Critical")
  case True
  with assms have t: "terminal (sv_state sv (ms_name svc))" by (simp add: criticals_terminal_def)
  then have "rm_evaluate rm (re_now env) (re_docker_ok env (ms_name svc)) (record_failure (sv_state sv (ms_name svc))) =
      (SKIPPED, record_failure (sv_state sv (ms_name svc)))"
    by (simp add: rm_evaluate_terminal terminal_records)
  with assms t show ?thesis
    by (simp add: check_service_def Let_def criticals_terminal_def terminal_records)
next
  case False
  define s where "s = sv_state sv (ms_name svc)"
  have keep: "terminal (snd (rm_evaluate rm (re_now env) (re_docker_ok env (ms_name svc)) (record_failure s)))"
    if "terminal s" using that by (simp add: rm_evaluate_keeps_terminal terminal_records)
  show ?thesis
    using assms(1) False keep
    by (auto simp: check_service_def Let_def criticals_terminal_def terminal_records split_beta s_def [symmetric])
qed

lemma health_round_terminal:
  "criticals_terminal svcs sv \<Longrightarrow>
   criticals_terminal svcs (health_round rm svcs env sv) \<and> sv_relay (health_round rm svcs env sv) = sv_relay sv"
proof -
  have "criticals_terminal svcs sv \<Longrightarrow> set done' \<subseteq> set svcs \<Longrightarrow>
      criticals_terminal svcs (fold (check_service rm env) done' sv) \<and>
      sv_relay (fold (check_service rm env) done' sv) = sv_relay sv" for done'
  proof (induction done' arbitrary: sv)
    case Nil
    then show ?case by simp
  next
    case (Cons svc done')
    with check_service_terminal [of svcs sv svc rm env] show ?case by simp
  qed
  then show "criticals_terminal svcs sv \<Longrightarrow> ?thesis" by (simp add: health_round_def)
qed

text \<open>
  The supervisor asks the player for safe mode at most once: when every critical
  service has reached boot-loop or escalation, no later round sends a request, so a request
  that failed at that moment is never repeated.
\<close>

theorem failed_engage_never_retried:
  assumes "criticals_terminal svcs sv"
  shows "sv_relay (fold (health_round rm svcs) envs sv) = sv_relay sv"
  using assms
proof (induction envs arbitrary: sv)
  case Nil
  then show ?case by simp
next
  case (Cons env envs)
  with health_round_terminal [OF Cons.prems, of rm env] show ?case by simp
qed

definition down_env :: "rat \<Rightarrow> round_env" where
  "down_env t = \<lparr>re_now = t, re_status = (\<lambda>n. if n = ''player'' then None else Some 200),
     re_docker_ok = (\<lambda>_. True), re_engage_status = None\<rparr>"

definition looping_sv :: supervisor where
  "looping_sv = fold (health_round default_rm build_service_table)
     [down_env 0, down_env 10, down_env 20, down_env 30, down_env 40] (init_sv build_service_table)"

theorem failed_engage_never_retried_witness:
  "sv_relay (fold (health_round default_rm build_service_table) [down_env 50, down_env 60] looping_sv) =
     \<lparr>sr_engaged_by_dashboard = False, sr_engaged_by_supervisor = False,
      sr_calls = [PostEngage (JStr ''supervisor_escalation'')]\<rparr>"
proof -
  have t: "terminal (sv_state looping_sv ''player'')" and r: "sv_relay looping_sv =
     \<lparr>sr_engaged_by_dashboard = False, sr_engaged_by_supervisor = False,
      sr_calls = [PostEngage (JStr ''supervisor_escalation'')]\<rparr>"
    by code_simp+
  have "criticals_terminal build_service_table looping_sv"
    using t by (simp add: criticals_terminal_def build_service_table_def)
  from failed_engage_never_retried [OF this, of default_rm "[down_env 50, down_env 60]"] r show ?thesis by simp
qed

end
