(* ===== verification/Gateway.thy ===== *)
theory Gateway
  imports SignalConsumer
begin

section \<open>Player gateway (services/decision-optimizer/decision_optimizer/player_gateway.py)\<close>

text \<open>
  The WebSocket server that broadcasts ICD-4 commands. Connections are numbers; \<open>alive\<close>
  says which sends of a broadcast succeed; \<open>gw_world\<close> gives the uuid and the timestamp of
  the n-th constructed command; \<open>gw_delivered\<close> is the log of (connection, message).
\<close>

record gateway =
  gw_connections :: "nat list"
  gw_sequence :: int
  gw_built :: nat
  gw_world :: "nat \<Rightarrow> string \<times> string"
  gw_delivered :: "(nat \<times> json) list"

definition init_gw :: "(nat \<Rightarrow> string \<times> string) \<Rightarrow> gateway" where
  "init_gw w = \<lparr>gw_connections = [], gw_sequence = 0, gw_built = 0, gw_world = w, gw_delivered = []\<rparr>"

definition player_ws_path :: string where
  "player_ws_path = ''/player/commands''"

text \<open>\<open>_handler\<close>: a connection on another path is closed; leaving discards it.\<close>

definition gw_connect :: "string \<Rightarrow> nat \<Rightarrow> gateway \<Rightarrow> gateway" where
  "gw_connect path c gw =
     (if path \<noteq> [] \<and> path \<noteq> player_ws_path then gw
      else if c \<in> set (gw_connections gw) then gw
      else gw\<lparr>gw_connections := gw_connections gw @ [c]\<rparr>)"

definition gw_disconnect :: "nat \<Rightarrow> gateway \<Rightarrow> gateway" where
  "gw_disconnect c gw = gw\<lparr>gw_connections := filter (\<lambda>x. x \<noteq> c) (gw_connections gw)\<rparr>"

definition command_msg :: "string \<Rightarrow> int \<Rightarrow> string \<Rightarrow> string \<Rightarrow> json option \<Rightarrow> json" where
  "command_msg command_id seq produced_at command_type payload =
     JObj ([(''schema_version'', JStr ''1.0.0''), (''command_id'', JStr command_id),
            (''sequence_number'', JInt seq), (''produced_at'', JStr produced_at),
            (''command_type'', JStr command_type)] @
           (case payload of None \<Rightarrow> [] | Some p \<Rightarrow> [(command_type, p)]))"

definition next_command :: "(json \<Rightarrow> string list) \<Rightarrow> string \<Rightarrow> json option \<Rightarrow> gateway
    \<Rightarrow> json res \<times> gateway" where
  "next_command errs command_type payload gw =
     (let seq = gw_sequence gw + 1;
          (command_id, produced_at) = gw_world gw (gw_built gw);
          msg = command_msg command_id seq produced_at command_type payload;
          gw' = gw\<lparr>gw_built := Suc (gw_built gw)\<rparr>
      in if errs msg \<noteq> [] then (Inl ValueError, gw'\<lparr>gw_sequence := seq - 1\<rparr>)
         else (Inr msg, gw'\<lparr>gw_sequence := seq\<rparr>))"

definition gw_broadcast :: "(json \<Rightarrow> string list) \<Rightarrow> (nat \<Rightarrow> bool) \<Rightarrow> string \<Rightarrow> json option \<Rightarrow> gateway
    \<Rightarrow> nat \<times> gateway" where
  "gw_broadcast errs alive command_type payload gw =
     (if gw_connections gw = [] then (0, gw)
      else (case next_command errs command_type payload gw of
              (Inl e, gw') \<Rightarrow> (0, gw')
            | (Inr msg, gw') \<Rightarrow>
                (let reached = filter alive (gw_connections gw)
                 in (length reached,
                     gw'\<lparr>gw_connections := reached,
                         gw_delivered := gw_delivered gw @ map (\<lambda>c. (c, msg)) reached\<rparr>))))"

definition activate_body :: "string \<Rightarrow> int \<Rightarrow> int \<Rightarrow> string option \<Rightarrow> json" where
  "activate_body m min_dwell_ms cooldown_ms rationale =
     JObj ([(''manifest_id'', JStr m), (''min_dwell_ms'', JInt min_dwell_ms)] @
           (if cooldown_ms = 0 then [] else [(''cooldown_ms'', JInt cooldown_ms)]) @
           (case rationale of
              Some r \<Rightarrow> if r = [] then [] else [(''rationale'', JStr r)]
            | None \<Rightarrow> []))"

definition reason_body :: "string option \<Rightarrow> json option" where
  "reason_body reason =
     (case reason of
        Some r \<Rightarrow> if r = [] then None else Some (JObj [(''reason'', JStr r)])
      | None \<Rightarrow> None)"

definition send_activate_creative :: "(json \<Rightarrow> string list) \<Rightarrow> (nat \<Rightarrow> bool) \<Rightarrow> string \<Rightarrow> int \<Rightarrow> int
    \<Rightarrow> string option \<Rightarrow> gateway \<Rightarrow> nat \<times> gateway" where
  "send_activate_creative errs alive m min_dwell_ms cooldown_ms rationale gw =
     gw_broadcast errs alive ''activate_creative'' (Some (activate_body m min_dwell_ms cooldown_ms rationale)) gw"

definition send_freeze :: "(json \<Rightarrow> string list) \<Rightarrow> (nat \<Rightarrow> bool) \<Rightarrow> string option \<Rightarrow> gateway \<Rightarrow> nat \<times> gateway" where
  "send_freeze errs alive reason gw = gw_broadcast errs alive ''freeze'' (reason_body reason) gw"

definition send_safe_mode :: "(json \<Rightarrow> string list) \<Rightarrow> (nat \<Rightarrow> bool) \<Rightarrow> string option \<Rightarrow> gateway \<Rightarrow> nat \<times> gateway" where
  "send_safe_mode errs alive reason gw = gw_broadcast errs alive ''safe_mode'' (reason_body reason) gw"

subsection \<open>Histories of the gateway\<close>

datatype gw_op =
    GwConnect string nat
  | GwDisconnect nat
  | GwActivate "nat \<Rightarrow> bool" string int int "string option"
  | GwFreeze "nat \<Rightarrow> bool" "string option"
  | GwSafeMode "nat \<Rightarrow> bool" "string option"

fun gw_step :: "(json \<Rightarrow> string list) \<Rightarrow> gw_op \<Rightarrow> gateway \<Rightarrow> gateway" where
  "gw_step errs (GwConnect path c) gw = gw_connect path c gw"
| "gw_step errs (GwDisconnect c) gw = gw_disconnect c gw"
| "gw_step errs (GwActivate alive m d c r) gw = snd (send_activate_creative errs alive m d c r gw)"
| "gw_step errs (GwFreeze alive r) gw = snd (send_freeze errs alive r gw)"
| "gw_step errs (GwSafeMode alive r) gw = snd (send_safe_mode errs alive r gw)"

text \<open>The messages one connection has received, in order.\<close>

definition received_by :: "nat \<Rightarrow> gateway \<Rightarrow> json list" where
  "received_by c gw = map snd (filter (\<lambda>(d, m). d = c) (gw_delivered gw))"

definition seq_of :: "json \<Rightarrow> int" where
  "seq_of m = (case jget m ''sequence_number'' of Some (JInt n) \<Rightarrow> n | _ \<Rightarrow> 0)"

text \<open>
  What holds of the gateway throughout: every delivered message is a validated command
  built earlier by one of the three senders, with a sequence number between 1 and the current one, its command
  identifier is the uuid of its construction, and each connection's sequence numbers and
  construction indices increase.
\<close>

definition gw_command :: "string \<Rightarrow> json option \<Rightarrow> bool" where
  "gw_command ty p \<longleftrightarrow>
     ty = ''activate_creative'' \<and> (\<exists>m d c r. p = Some (activate_body m d c r)) \<or>
     (ty = ''freeze'' \<or> ty = ''safe_mode'') \<and> (\<exists>r. p = reason_body r)"

lemma gw_command_intros [simp]:
  "gw_command ''activate_creative'' (Some (activate_body m d c r))" "gw_command ''freeze'' (reason_body r)"
  "gw_command ''safe_mode'' (reason_body r)"
  unfolding gw_command_def by blast+

definition built_as :: "gateway \<Rightarrow> json \<Rightarrow> nat \<Rightarrow> bool" where
  "built_as gw m n \<longleftrightarrow> n < gw_built gw \<and>
     (\<exists>seq t ty p. m = command_msg (fst (gw_world gw n)) seq t ty p \<and> gw_command ty p)"

definition gw_inv :: "(json \<Rightarrow> string list) \<Rightarrow> gateway \<Rightarrow> bool" where
  "gw_inv errs gw \<longleftrightarrow>
     0 \<le> gw_sequence gw \<and> distinct (gw_connections gw) \<and>
     (\<forall>(c, m) \<in> set (gw_delivered gw).
        errs m = [] \<and> 0 < seq_of m \<and> seq_of m \<le> gw_sequence gw \<and> (\<exists>n. built_as gw m n)) \<and>
     (\<forall>c. \<exists>ns. list_all2 (built_as gw) (received_by c gw) ns \<and> sorted_wrt (<) ns) \<and>
     (\<forall>c. sorted_wrt (<) (map seq_of (received_by c gw)))"

lemma gw_inv_init [step_inv]: "gw_inv errs (init_gw w)"
  by (auto simp: gw_inv_def init_gw_def received_by_def intro!: exI [of _ "[]"])

lemma seq_of_command [simp]: "seq_of (command_msg i seq t ty p) = seq"
  by (simp add: seq_of_def command_msg_def)

lemma command_id_of_command [simp]: "jget (command_msg i seq t ty p) ''command_id'' = Some (JStr i)"
  by (simp add: command_msg_def)

lemma built_as_mono:
  "built_as gw m n \<Longrightarrow> gw_world gw' = gw_world gw \<Longrightarrow> gw_built gw \<le> gw_built gw' \<Longrightarrow> built_as gw' m n"
  by (simp add: built_as_def)

lemma filter_conn: "distinct cs \<Longrightarrow> filter (\<lambda>(d, m). d = c) (map (\<lambda>c. (c, m)) cs) = (if c \<in> set cs then [(c, m)] else [])"
  by (induction cs) auto

lemma gw_inv_broadcast [step_inv]:
  assumes "gw_inv errs gw" and "gw_command ty p"
  shows "gw_inv errs (snd (gw_broadcast errs alive ty p gw))"
proof (cases "gw_connections gw = []")
  case True
  with assms show ?thesis by (simp add: gw_broadcast_def)
next
  case ne: False
  define i t where "i = fst (gw_world gw (gw_built gw))" and "t = snd (gw_world gw (gw_built gw))"
  define msg where "msg = command_msg i (gw_sequence gw + 1) t ty p"
  define reached where "reached = filter alive (gw_connections gw)"
  define gw1 where "gw1 = (if errs msg \<noteq> [] then gw\<lparr>gw_built := Suc (gw_built gw)\<rparr>
     else gw\<lparr>gw_built := Suc (gw_built gw), gw_sequence := gw_sequence gw + 1, gw_connections := reached,
        gw_delivered := gw_delivered gw @ map (\<lambda>c. (c, msg)) reached\<rparr>)"
  have eq: "snd (gw_broadcast errs alive ty p gw) = gw1"
    using ne by (simp add: gw_broadcast_def next_command_def gw1_def msg_def i_def t_def reached_def
        Let_def split_beta)
  have mono: "built_as gw m n \<Longrightarrow> built_as gw1 m n" for m n
    by (erule built_as_mono) (simp_all add: gw1_def)
  have inv: "0 \<le> gw_sequence gw" "distinct (gw_connections gw)"
      "\<And>c m. (c, m) \<in> set (gw_delivered gw) \<Longrightarrow>
         errs m = [] \<and> 0 < seq_of m \<and> seq_of m \<le> gw_sequence gw \<and> (\<exists>n. built_as gw m n)"
      "\<And>c. \<exists>ns. list_all2 (built_as gw) (received_by c gw) ns \<and> sorted_wrt (<) ns"
      "\<And>c. sorted_wrt (<) (map seq_of (received_by c gw))"
    using assms by (auto simp: gw_inv_def)
  show ?thesis
  proof (cases "errs msg = []")
    case False
    then have rec: "received_by c gw1 = received_by c gw" for c by (simp add: gw1_def received_by_def)
    have "\<exists>ns. list_all2 (built_as gw1) (received_by c gw1) ns \<and> sorted_wrt (<) ns" for c
      using inv(4) [of c] mono unfolding rec by (auto intro: list_all2_mono)
    with False inv mono rec show ?thesis
      unfolding eq by (fastforce simp: gw_inv_def gw1_def)
  next
    case True
    have msg_seq: "seq_of msg = gw_sequence gw + 1" by (simp add: msg_def)
    have msg_built: "built_as gw1 msg (gw_built gw)"
      using True assms(2) by (auto simp: built_as_def gw1_def msg_def i_def)
    have rec: "received_by c gw1 = received_by c gw @ (if c \<in> set reached then [msg] else [])" for c
      using True inv(2) by (simp add: gw1_def received_by_def filter_conn reached_def)
    have low: "seq_of m \<le> gw_sequence gw" if "m \<in> set (received_by c gw)" for c m
      using that inv(3) by (auto simp: received_by_def)
    have "\<exists>ns. list_all2 (built_as gw1) (received_by c gw1) ns \<and> sorted_wrt (<) ns" for c
    proof -
      obtain ns where ns: "list_all2 (built_as gw) (received_by c gw) ns" "sorted_wrt (<) ns"
        using inv(4) by blast
      have "\<forall>n \<in> set ns. n < gw_built gw"
        using ns(1) by (metis built_as_def in_set_conv_nth list_all2_conv_all_nth)
      with ns msg_built mono show ?thesis
        unfolding rec
        by (intro exI [of _ "ns @ (if c \<in> set reached then [gw_built gw] else [])"])
          (auto simp: sorted_wrt_append intro: list_all2_appendI list_all2_mono)
    qed
    moreover have "sorted_wrt (<) (map seq_of (received_by c gw1))" for c
      using inv(5) [of c] low [of _ c] msg_seq
      unfolding rec by (fastforce simp: sorted_wrt_append)
    moreover have "errs m = [] \<and> 0 < seq_of m \<and> seq_of m \<le> gw_sequence gw1 \<and> (\<exists>n. built_as gw1 m n)"
      if "(c, m) \<in> set (gw_delivered gw1)" for c m
    proof -
      from that True have "(c, m) \<in> set (gw_delivered gw) \<or> m = msg" by (auto simp: gw1_def)
      then show ?thesis
      proof
        assume "(c, m) \<in> set (gw_delivered gw)"
        with inv(3) mono True show ?thesis by (fastforce simp: gw1_def)
      next
        assume "m = msg"
        with True inv(1) msg_seq msg_built show ?thesis by (auto simp: gw1_def)
      qed
    qed
    moreover have "0 \<le> gw_sequence gw1" "distinct (gw_connections gw1)"
      using True inv(1,2) by (simp_all add: gw1_def reached_def)
    ultimately show ?thesis unfolding eq by (auto simp: gw_inv_def)
  qed
qed

lemma built_as_connections [simp]: "built_as (gw\<lparr>gw_connections := cs\<rparr>) = built_as gw"
  by (simp add: built_as_def fun_eq_iff)

lemma received_by_connections [simp]: "received_by c (gw\<lparr>gw_connections := cs\<rparr>) = received_by c gw"
  by (simp add: received_by_def)

lemma gw_inv_step [step_inv]: "gw_inv errs gw \<Longrightarrow> gw_inv errs (gw_step errs op gw)"
proof (cases op)
  case (GwConnect path c)
  assume "gw_inv errs gw"
  with GwConnect show ?thesis
    by (simp add: gw_connect_def gw_inv_def)
next
  case (GwDisconnect c)
  assume "gw_inv errs gw"
  with GwDisconnect show ?thesis
    by (simp add: gw_disconnect_def gw_inv_def)
qed (simp_all add: send_activate_creative_def send_freeze_def send_safe_mode_def gw_inv_broadcast)

lemma gw_inv_run [step_inv]: "gw_inv errs gw \<Longrightarrow> gw_inv errs (fold (gw_step errs) ops gw)"
  by (induction ops arbitrary: gw) (auto intro: gw_inv_step)

end
