(* ===== verification/DecisionLoop.thy ===== *)
theory DecisionLoop
  imports Gateway
begin

section \<open>Decision loop (services/decision-optimizer/decision_optimizer/decision_loop.py)\<close>

text \<open>
  One tick of the 1 Hz loop: freeze assessment, policy evaluation and the command to the
  players. The arguments of a tick are its clock reading, the UTC hour, the random draw
  and which sends succeed.
\<close>

record decision_loop =
  dl_policy :: policy_engine
  dl_current_manifest_id :: "string option"
  dl_player_frozen :: bool
  dl_tick_count :: nat
  dl_command_count :: nat
  dl_freeze_count :: nat

definition init_dl :: "policy_engine \<Rightarrow> decision_loop" where
  "init_dl p = \<lparr>dl_policy = p, dl_current_manifest_id = None, dl_player_frozen = False,
     dl_tick_count = 0, dl_command_count = 0, dl_freeze_count = 0\<rparr>"

definition reload_policy :: "policy_engine \<Rightarrow> decision_loop \<Rightarrow> decision_loop" where
  "reload_policy p dl = dl\<lparr>dl_policy := p\<rparr>"

definition stale_signal_threshold_ms :: int where
  "stale_signal_threshold_ms = 5000"

definition dl_freeze_reason :: "audience_signal option \<Rightarrow> int option \<Rightarrow> string option" where
  "dl_freeze_reason signal age_ms =
     (case signal of
        None \<Rightarrow> None
      | Some sg \<Rightarrow>
          if (case age_ms of Some a \<Rightarrow> stale_signal_threshold_ms < a | None \<Rightarrow> False)
          then Some ''decision_degraded''
          else if sg_pipeline_degraded sg then Some ''cv_degraded''
          else if sg_freeze_decision sg then Some ''operator_override''
          else None)"

subsection \<open>The rationale text\<close>

text \<open>The format \<open>.2f\<close>.\<close>

definition show_2f :: "rat \<Rightarrow> string" where
  "show_2f x =
     (let n = nat \<bar>py_round (x * 100)\<bar>
      in (if x < 0 then ''-'' else '''') @ show_nat (n div 100) @ ''.'' @
         [char_of (48 + (n mod 100) div 10), char_of (48 + n mod 10)])"

definition dl_rationale :: "bool \<Rightarrow> int \<Rightarrow> rat \<Rightarrow> string" where
  "dl_rationale was_frozen count confidence =
     (if was_frozen then ''unfreeze + '' else '''') @
     ''policy rule match; presence_count='' @ show_int count @ '' confidence='' @ show_2f confidence"

subsection \<open>One tick\<close>

record tick_args =
  ti_now :: rat
  ti_hour :: int
  ti_draw :: rat
  ti_alive :: "nat \<Rightarrow> bool"

definition dl_tick :: "(json \<Rightarrow> string list) \<Rightarrow> tick_args \<Rightarrow> signal_consumer \<Rightarrow> decision_loop \<times> gateway
    \<Rightarrow> unit res \<times> (decision_loop \<times> gateway)" where
  "dl_tick errs ti sc w =
     (let (dl0, gw) = w; dl = dl0\<lparr>dl_tick_count := dl_tick_count dl0 + 1\<rparr>;
          signal = latest_signal sc
      in case dl_freeze_reason signal (signal_age_ms (ti_now ti) sc) of
           Some reason \<Rightarrow>
             if dl_player_frozen dl then (Inr (), (dl, gw))
             else (let (sent, gw') = send_freeze errs (ti_alive ti) (Some reason) gw
                   in (Inr (), (dl\<lparr>dl_player_frozen := True, dl_freeze_count := dl_freeze_count dl + 1,
                                 dl_command_count := dl_command_count dl + sent\<rparr>, gw')))
         | None \<Rightarrow>
        (case signal of
           None \<Rightarrow> (Inr (), (dl, gw))
         | Some sg \<Rightarrow>
        (case evaluate (ti_hour ti) (ti_draw ti) (dl_policy dl) sg of
           Inl e \<Rightarrow> (Inl e, (dl, gw))
         | Inr None \<Rightarrow> (Inr (), (dl, gw))
         | Inr (Some candidate) \<Rightarrow>
             (let was_frozen = dl_player_frozen dl; dl1 = dl\<lparr>dl_player_frozen := False\<rparr>
              in if Some candidate \<noteq> dl_current_manifest_id dl1 \<or> was_frozen
                 then (case sg_presence sg of
                         None \<Rightarrow> (Inl (KeyError ''presence''), (dl1, gw))
                       | Some (count, confidence) \<Rightarrow>
                           (let (sent, gw') = send_activate_creative errs (ti_alive ti) candidate
                                  (pe_min_dwell_ms (dl_policy dl1)) (pe_cooldown_ms (dl_policy dl1))
                                  (Some (dl_rationale was_frozen count confidence)) gw
                            in (Inr (), (dl1\<lparr>dl_command_count := dl_command_count dl1 + sent,
                                          dl_current_manifest_id := Some candidate\<rparr>, gw'))))
                 else (Inr (), (dl1, gw))))))"

text \<open>\<open>run\<close> logs the exceptions of a tick and goes on.\<close>

fun dl_run :: "(json \<Rightarrow> string list) \<Rightarrow> (tick_args \<times> signal_consumer) list \<Rightarrow> decision_loop \<times> gateway
    \<Rightarrow> decision_loop \<times> gateway" where
  "dl_run errs [] w = w"
| "dl_run errs ((ti, sc) # ts) w = dl_run errs ts (snd (dl_tick errs ti sc w))"

record dl_status_dict =
  ds_current_manifest_id :: "string option"
  ds_player_frozen :: bool
  ds_tick_count :: nat
  ds_command_count :: nat
  ds_freeze_count :: nat
  ds_player_count :: nat

definition dl_status :: "decision_loop \<Rightarrow> gateway \<Rightarrow> dl_status_dict" where
  "dl_status dl gw =
     \<lparr>ds_current_manifest_id = dl_current_manifest_id dl, ds_player_frozen = dl_player_frozen dl,
      ds_tick_count = dl_tick_count dl, ds_command_count = dl_command_count dl,
      ds_freeze_count = dl_freeze_count dl, ds_player_count = length (gw_connections gw)\<rparr>"

text \<open>
  \<open>POST /api/v1/rules/reload\<close> (health.py): 400 for a missing or malformed file, 500 when
  the loader raises anything else, 200 with the new policy installed.
\<close>

definition rules_reload :: "policy_engine res \<Rightarrow> decision_loop \<Rightarrow> nat \<times> decision_loop" where
  "rules_reload loaded dl =
     (case loaded of
        Inl e \<Rightarrow> (if e = ValueError \<or> e = OSError then 400 else 500, dl)
      | Inr p \<Rightarrow> (200, reload_policy p dl))"

subsection \<open>Properties\<close>

definition freezing :: "tick_args \<Rightarrow> signal_consumer \<Rightarrow> bool" where
  "freezing ti sc \<longleftrightarrow> dl_freeze_reason (latest_signal sc) (signal_age_ms (ti_now ti) sc) \<noteq> None"

lemma dl_tick_frozen:
  "freezing ti sc \<Longrightarrow> dl_player_frozen dl \<Longrightarrow>
   dl_tick errs ti sc (dl, gw) = (Inr (), (dl\<lparr>dl_tick_count := dl_tick_count dl + 1\<rparr>, gw))"
  by (auto simp: dl_tick_def freezing_def)

lemma dl_run_frozen:
  "\<forall>(ti, sc) \<in> set ts. freezing ti sc \<Longrightarrow> dl_player_frozen dl \<Longrightarrow>
   dl_run errs ts (dl, gw) = (dl\<lparr>dl_tick_count := dl_tick_count dl + length ts\<rparr>, gw)"
proof (induction ts arbitrary: dl)
  case Nil
  then show ?case by simp
next
  case (Cons t ts)
  obtain ti sc where t: "t = (ti, sc)" by (cases t)
  from Cons.prems have "dl_tick errs ti sc (dl, gw) = (Inr (), (dl\<lparr>dl_tick_count := dl_tick_count dl + 1\<rparr>, gw))"
    by (intro dl_tick_frozen) (auto simp: t)
  with Cons show ?case by (simp add: t)
qed

lemma send_freeze_built:
  "gw_built (snd (send_freeze errs alive reason gw)) = gw_built gw + (if gw_connections gw = [] then 0 else 1)"
  by (simp add: send_freeze_def gw_broadcast_def next_command_def Let_def split_beta split: sum.split)


definition demo_sc :: signal_consumer where
  "demo_sc = init_sc\<lparr>sc_latest := Some (JObj [(''message_id'', JStr ''s1''),
     (''state'', JObj [(''presence'', JObj [(''count'', JInt 3), (''confidence'', JFloat 0.8)])]),
     (''source_quality'', JObj [(''pipeline_degraded'', JBool True)])]), sc_latest_received_at := Some 100\<rparr>"

definition demo_tick :: "rat \<Rightarrow> tick_args" where
  "demo_tick t = \<lparr>ti_now = t, ti_hour = 12, ti_draw = 0, ti_alive = (\<lambda>_. True)\<rparr>"


text \<open>A tick whose evaluation yields the manifest the loop believes to be current.\<close>

definition same_choice :: "policy_engine \<Rightarrow> string \<Rightarrow> tick_args \<Rightarrow> signal_consumer \<Rightarrow> bool" where
  "same_choice p m ti sc \<longleftrightarrow> \<not> freezing ti sc \<and>
     (\<exists>sg. latest_signal sc = Some sg \<and> evaluate (ti_hour ti) (ti_draw ti) p sg = Inr (Some m))"

lemma dl_tick_same:
  "same_choice (dl_policy dl) m ti sc \<Longrightarrow> dl_current_manifest_id dl = Some m \<Longrightarrow> \<not> dl_player_frozen dl \<Longrightarrow>
   dl_tick errs ti sc (dl, gw) = (Inr (), (dl\<lparr>dl_tick_count := dl_tick_count dl + 1\<rparr>, gw))"
  by (auto simp: same_choice_def freezing_def dl_tick_def Let_def)

lemma dl_run_same:
  "\<forall>(ti, sc) \<in> set ts. same_choice (dl_policy dl) m ti sc \<Longrightarrow> dl_current_manifest_id dl = Some m \<Longrightarrow>
   \<not> dl_player_frozen dl \<Longrightarrow>
   dl_run errs ts (dl, gw) = (dl\<lparr>dl_tick_count := dl_tick_count dl + length ts\<rparr>, gw)"
proof (induction ts arbitrary: dl)
  case Nil
  then show ?case by simp
next
  case (Cons t ts)
  obtain ti sc where t: "t = (ti, sc)" by (cases t)
  from Cons.prems have "dl_tick errs ti sc (dl, gw) = (Inr (), (dl\<lparr>dl_tick_count := dl_tick_count dl + 1\<rparr>, gw))"
    by (intro dl_tick_same [where m = m]) (auto simp: t)
  with Cons show ?case by (simp add: t)
qed

text \<open>
  A choice made while no player is connected is lost: the tick records the manifest
  as current although nothing was sent, and as long as evaluation keeps choosing it, no
  tick builds a command, also when players have connected meanwhile.
\<close>

theorem activation_lost_without_player:
  assumes "same_choice (dl_policy dl) m t1 s1" and "sg_presence (the (latest_signal s1)) \<noteq> None"
    and "gw_connections gw = []"
    and "dl_tick errs t1 s1 (dl, gw) = (res, (dl1, gw1))"
    and "\<forall>(ti, sc) \<in> set ts. same_choice (dl_policy dl) m ti sc"
  shows "gw1 = gw \<and> dl_current_manifest_id dl1 = Some m \<and>
    snd (dl_run errs ts (dl1, gw_connect player_ws_path c gw)) = gw_connect player_ws_path c gw"
proof -
  from assms(1,2) obtain sg n x where sg: "latest_signal s1 = Some sg" "sg_presence sg = Some (n, x)"
      "evaluate (ti_hour t1) (ti_draw t1) (dl_policy dl) sg = Inr (Some m)"
    by (auto simp: same_choice_def)
  from assms(1) have nf: "dl_freeze_reason (Some sg) (signal_age_ms (ti_now t1) s1) = None"
    by (simp add: same_choice_def freezing_def sg)
  have b: "send_activate_creative errs al m d cd r gw = (0, gw)" for al d cd r
    using assms(3) by (simp add: send_activate_creative_def gw_broadcast_def)
  have step: "gw1 = gw" "dl_current_manifest_id dl1 = Some m" "\<not> dl_player_frozen dl1"
      "dl_policy dl1 = dl_policy dl"
    using assms(4) by (auto simp: dl_tick_def sg nf b Let_def split: if_splits)
  have "dl_run errs ts (dl1, g) = (dl1\<lparr>dl_tick_count := dl_tick_count dl1 + length ts\<rparr>, g)" for g
    by (rule dl_run_same) (use step assms(5) in simp_all)
  with step show ?thesis by simp
qed

definition ok_sc :: signal_consumer where
  "ok_sc = init_sc\<lparr>sc_latest := Some (JObj [(''message_id'', JStr ''s1''),
     (''state'', JObj [(''presence'', JObj [(''count'', JInt 3), (''confidence'', JInt 1)])])]),
     sc_latest_received_at := Some 100\<rparr>"

definition one_rule :: policy_engine where
  "one_rule = make_engine [plain_rule ''attract'' 0 ''m1'' 1] 10000 5000"

lemma ok_sc_signal: "\<exists>sg. latest_signal ok_sc = Some sg \<and> sg_presence sg = Some (3, 1) \<and>
    sg_attention sg = None \<and> \<not> sg_pipeline_degraded sg \<and> \<not> sg_freeze_decision sg"
  by (simp add: latest_signal_def ok_sc_def init_sc_def signal_view_def jtrue_def)

lemma one_rule_choice: "same_choice one_rule ''m1'' (demo_tick 101) ok_sc"
proof -
  obtain sg where sg: "latest_signal ok_sc = Some sg" "sg_presence sg = Some (3, 1)"
    "sg_attention sg = None" "\<not> sg_pipeline_degraded sg" "\<not> sg_freeze_decision sg"
    using ok_sc_signal by auto
  have age: "signal_age_ms 101 ok_sc = Some 1000"
    by (simp add: signal_age_ms_def ok_sc_def init_sc_def py_int_def)
  have "evaluate 12 0 one_rule sg = Inr (Some ''m1'')"
    by (simp add: one_rule_def make_engine_def evaluate_def rule_matches_def sg plain_rule_def gte_def
        lte_def eqs_def attention_ok_def demographics_ok_def has_demographic_condition_def
        demographic_conditions_def)
  then show ?thesis
    by (auto simp: same_choice_def freezing_def dl_freeze_reason_def sg age demo_tick_def
        stale_signal_threshold_ms_def)
qed

theorem activation_lost_without_player_witness:
  "snd (dl_run (\<lambda>_. []) [(demo_tick 101, ok_sc), (demo_tick 101, ok_sc)]
     (fst (snd (dl_tick (\<lambda>_. []) (demo_tick 101) ok_sc (init_dl one_rule, init_gw (\<lambda>n. (show_nat n, ''t''))))),
      gw_connect player_ws_path 1 (init_gw (\<lambda>n. (show_nat n, ''t''))))) =
   gw_connect player_ws_path 1 (init_gw (\<lambda>n. (show_nat n, ''t'')))"
proof -
  let ?gw = "init_gw (\<lambda>n. (show_nat n, ''t''))"
  obtain res dl1 gw1 where r: "dl_tick (\<lambda>_. []) (demo_tick 101) ok_sc (init_dl one_rule, ?gw) = (res, (dl1, gw1))"
    by (metis prod.exhaust)
  have p: "dl_policy (init_dl one_rule) = one_rule" "gw_connections ?gw = []"
    by (simp_all add: init_dl_def init_gw_def)
  have "snd (dl_run (\<lambda>_. []) [(demo_tick 101, ok_sc), (demo_tick 101, ok_sc)] (dl1, gw_connect player_ws_path 1 ?gw)) =
      gw_connect player_ws_path 1 ?gw"
    using activation_lost_without_player [OF _ _ p(2) r, of "''m1''" "[(demo_tick 101, ok_sc), (demo_tick 101, ok_sc)]" 1]
      one_rule_choice ok_sc_signal by (auto simp: p(1) simp del: dl_run.simps)
  then show ?thesis by (simp only: r snd_conv fst_conv)
qed

end
