(* ===== verification/EndToEnd.thy ===== *)
theory EndToEnd
  imports DashboardApi Analytics Sinks FallbackApi PlayerService Supervisor DecisionLoop
begin

section \<open>Composition of the services\<close>

text \<open>
  What holds across component boundaries: from the dashboard's workflow over the shared
  manifest directory and rules file to the optimizer, the creative service and the player;
  from the gateway's socket to the player's command handler; from the dashboard's
  safe-mode route to the supervisor's relay; from the player's impressions to the table.
\<close>

subsection \<open>From approval to playback\<close>

text \<open>The documents of the enabled manifests, in the order of their files' names.\<close>

definition enabled_documents :: "dashboard \<Rightarrow> json list" where
  "enabled_documents db =
     map mr_manifest_json (sort_key (\<lambda>m. file_name (mr_manifest_id m))
       (filter (\<lambda>m. mr_status m = Enabled) (db_manifests db)))"

lemma published_in_order:
  assumes "list_all disk_works rs" "db = api_run h rs empty_dashboard"
  shows "readable (json_files (published db)) = enabled_documents db"
proof -
  define rows where "rows = sort_key (\<lambda>m. file_name (mr_manifest_id m)) (filter (\<lambda>m. mr_status m = Enabled) (db_manifests db))"
  define entry where "entry m = (file_name (mr_manifest_id m), Some (mr_manifest_json m))" for m :: manifest_row
  have files: "dict_ok (fs_manifests db)"
    using run_files_distinct [of h rs] by (simp add: assms(2) files_distinct_def)
  have rd: "rows_distinct db" using run_rows_distinct [of h rs] assms(2) by simp
  have inj: "inj_on (\<lambda>m. file_name (mr_manifest_id m)) (set (db_manifests db))"
    using rd by (auto simp: rows_distinct_def distinct_map inj_on_def file_name_def)
  have "distinct (map fst (map entry rows))"
    using rd inj by (auto simp: rows_def entry_def rows_distinct_def distinct_map o_def inj_on_def)
  moreover have "sorted (map fst (map entry rows))" by (simp add: rows_def entry_def o_def)
  moreover have "distinct (map fst (json_files (published db)))" "sorted (map fst (json_files (published db)))"
  proof -
    have "distinct (map fst (published db))" using files by (simp add: published_def dict_ok_def dict_keys_def o_def split_beta)
    then have "distinct (map fst (filter (\<lambda>(n, _). ends_with ''.json'' n) (published db)))" by (rule distinct_map_filter)
    then show "distinct (map fst (json_files (published db)))"
      by (simp add: json_files_def distinct_map)
    show "sorted (map fst (json_files (published db)))" by (simp add: json_files_def)
  qed
  moreover have "set (map entry rows) = set (json_files (published db))"
  proof -
    have disk: "(f, j) \<in> set (fs_manifests db) \<longleftrightarrow>
        (\<exists>m \<in> set (db_manifests db). f = file_name (mr_manifest_id m) \<and> mr_status m = Enabled \<and> mr_manifest_json m = j)" for f j
      using disk_mirrors_files [OF run_disk_mirrors [OF assms(1)], of h f j] files rd
      by (auto simp: assms(2) find_row_member simp flip: dict_ok_entry)
    have "set (json_files (published db)) = {(f, Some j) | f j. (f, j) \<in> set (fs_manifests db) \<and> ends_with ''.json'' f}"
      by (auto simp: set_json_files published_def)
    also have "\<dots> = set (map entry rows)"
      using file_name_json by (fastforce simp: rows_def entry_def disk)
    finally show ?thesis by simp
  qed
  moreover have "inj_on fst (set (map entry rows) \<union> set (json_files (published db)))"
    using calculation by (auto simp: distinct_map)
  ultimately have "map entry rows = json_files (published db)"
    by (intro map_sorted_distinct_set_unique [of fst]) simp_all
  moreover have "readable (map entry ms) = map mr_manifest_json ms" for ms
    by (induction ms) (simp_all add: readable_def entry_def List.map_filter_simps)
  ultimately show ?thesis by (metis enabled_documents_def rows_def)
qed

text \<open>
  C1. What the player can play: after any history of API requests with a working disk and a
  reload of the shared directory, the player finds under an identifier the last document, in the
  order of the files' names, that names this identifier and that the schema accepts, among
  the documents of the manifests that are enabled; so nothing that is not enabled is ever found. If every
  enabled document names itself as its row does (\<open>docs_named\<close>, which the API does not check), it
  finds a document exactly when the manifest of that identifier is enabled, the document is its
  document and the schema accepts it.
\<close>

theorem player_holds_enabled:
  assumes "list_all disk_works rs" "db = api_run h rs empty_dashboard"
    and "\<And>m. schema_ok errs m \<Longrightarrow> manifest_shape m"
  shows "ps_get (snd (ps_reload errs (Some (published db)) st)) i =
      find (\<lambda>j. schema_ok errs j \<and> manifest_id_of j = Some i) (rev (enabled_documents db)) \<and>
    (docs_named db \<longrightarrow>
       (ps_get (snd (ps_reload errs (Some (published db)) st)) i = Some j \<longleftrightarrow>
        (\<exists>m. find_row i db = Some m \<and> mr_status m = Enabled \<and> mr_manifest_json m = j \<and> schema_ok errs j)))"
  using find_published [OF assms(1,2), of "schema_ok errs" i j]
  by (simp only: ps_get_reloaded [OF assms(3)] flip: published_in_order [OF assms(1,2)]) simp

definition shown_requests :: "(rat \<times> api_request) list" where
  "shown_requests =
     [(1, ApiManifest True (ReqCreate ''u1''
          \<lparr>mi_manifest_id = ''m1'', mi_title = ''spring'', mi_schema_version = ''1.0.0'',
           mi_manifest_json = demo_manifest ''m1'', mi_audience_tags = [''general'']\<rparr>)),
      (2, ApiManifest True (ReqApprove ''m1'' ''alice'')), (3, ApiManifest True (ReqEnable ''m1''))]"

lemma shown_facts:
  "list_all disk_works shown_requests" "docs_named (api_run id shown_requests empty_dashboard)"
  "map_option (\<lambda>m. (mr_status m, mr_manifest_json m)) (find_row ''m1'' (api_run id shown_requests empty_dashboard)) =
     Some (Enabled, demo_manifest ''m1'')"
  by (simp add: shown_requests_def) code_simp+

theorem player_holds_enabled_witness:
  "ps_get (snd (ps_reload (errs_of manifest_shape) (Some (published (api_run id shown_requests empty_dashboard))) [])) ''m1''
     = Some (demo_manifest ''m1'') \<and>
   ps_get (snd (ps_reload (errs_of manifest_shape) (Some (published (api_run id shown_requests empty_dashboard))) [])) ''m1''
     = find (\<lambda>j. schema_ok (errs_of manifest_shape) j \<and> manifest_id_of j = Some ''m1'')
         (rev (enabled_documents (api_run id shown_requests empty_dashboard)))"
  using player_holds_enabled [OF shown_facts(1) refl, of "errs_of manifest_shape" id "[]" "''m1''" "demo_manifest ''m1''"]
    shown_facts(2,3) by auto

text \<open>
  The creative service, started on the shared directory, answers 200 for an identifier
  exactly when its manifest is enabled and the document is accepted (schema and approval
  fields in the document itself, which the dashboard never writes) and not yet expired.
\<close>

theorem creative_serves_enabled:
  assumes "list_all disk_works rs" "docs_named (api_run h rs empty_dashboard)"
    and "\<And>m. errs m = [] \<Longrightarrow> manifest_shape m"
  shows "get_manifest fromiso now (snd (cs_load_directory errs (Some (published (api_run h rs empty_dashboard))) init_cs)) i
      = Inr (200, j) \<longleftrightarrow>
    (\<exists>m. find_row i (api_run h rs empty_dashboard) = Some m \<and> mr_status m = Enabled \<and>
       mr_manifest_json m = j \<and> cs_accepts errs j) \<and> live fromiso now j"
  by (simp only: creative_served [OF assms(3)] find_published [OF assms(1) refl assms(2)])

theorem creative_serves_enabled_witness:
  "get_manifest (\<lambda>_. Inl []) 0 (snd (cs_load_directory (errs_of manifest_shape)
     (Some (published (api_run id shown_requests empty_dashboard))) init_cs)) ''m1'' = Inr (200, demo_manifest ''m1'')"
proof -
  have "cs_accepts (errs_of manifest_shape) (demo_manifest ''m1'')" "live (\<lambda>_. Inl []) 0 (demo_manifest ''m1'')"
    by (simp_all add: cs_accepts_def live_def approved_def) (simp_all add: demo_manifest_def field_set_def)
  then show ?thesis
    using creative_serves_enabled [OF shown_facts(1,2), of "errs_of manifest_shape" "\<lambda>_. Inl []" 0 "''m1''" "demo_manifest ''m1''"]
      shown_facts(3) by auto
qed

lemma synced_rules:
  "fs_rules (snd (sync_rules now True opt db)) =
     Some (rules_file_json (build_rules_file (map tagged (enabled_rows db)) 10000 5000))"
  by (simp add: sync_rules_def Let_def write_event_def split_beta)

text \<open>
  C4. Only approved content is decided: when the rules were synchronised after some history
  of API requests and at least one manifest is enabled, every decision of the optimizer that
  loads this file, on any signal with a presence block, at every hour and draw, is an
  enabled manifest whose approval by its approver is in the audit log.
\<close>

theorem decided_manifest_approved:
  assumes "db = api_run h rs empty_dashboard" "enabled_rows db \<noteq> []" "sg_presence sg \<noteq> None"
  shows "\<exists>eng mid m who. load_policy ip fp (fs_rules (snd (sync_rules now True opt db))) = Inr eng \<and>
    evaluate hour u eng sg = Inr (Some mid) \<and> find_row mid db = Some m \<and> mr_status m = Enabled \<and>
    mr_approved_by m = Some who \<and>
    list_ex (\<lambda>e. ae_event_type e = ''manifest.approved'' \<and> ae_entity_id e = mid \<and> ae_actor e = who) (db_audit db)"
proof -
  let ?ms = "map tagged (enabled_rows db)"
  from generated_answers [OF assms(3), of ?ms hour u 10000 5000] obtain mid where
    mid: "mid \<in> allowed_ids ?ms"
    "evaluate hour u (make_engine (map loaded (rf_rules (build_rules_file ?ms 10000 5000))) 10000 5000) sg = Inr (Some mid)"
    by blast
  from mid(1) assms(2) obtain m where m: "m \<in> set (enabled_rows db)" "mr_manifest_id m = mid"
    by (auto simp: allowed_ids_def tagged_def)
  then have row: "find_row mid db = Some m" "mr_status m = Enabled"
    using run_rows_distinct [of h rs] assms(1) by (auto simp: find_row_member enabled_rows_member)
  then obtain who where "mr_approved_by m = Some who"
    "list_ex (\<lambda>e. ae_event_type e = ''manifest.approved'' \<and> ae_entity_id e = mid \<and> ae_actor e = who) (db_audit db)"
    using run_approved [of h rs] assms(1) by (fastforce simp: approved_by_someone_def list_ex_iff)
  with row mid(2) load_built_file [of ip fp ?ms 10000 5000] show ?thesis
    unfolding synced_rules by blast
qed

theorem decided_manifest_approved_witness:
  "\<exists>eng mid m who. load_policy (\<lambda>_. None) (\<lambda>_. None)
       (fs_rules (snd (sync_rules 4 True (Inr (200, ''ok'')) (api_run id shown_requests empty_dashboard)))) = Inr eng \<and>
    evaluate 12 0 eng demo_signal = Inr (Some mid) \<and>
    find_row mid (api_run id shown_requests empty_dashboard) = Some m \<and> mr_approved_by m = Some who"
proof -
  have "map mr_manifest_id (enabled_rows (api_run id shown_requests empty_dashboard)) = [''m1'']" by code_simp
  then have "enabled_rows (api_run id shown_requests empty_dashboard) \<noteq> []" by auto
  moreover have "sg_presence demo_signal \<noteq> None" by (simp add: demo_signal_def)
  ultimately show ?thesis using decided_manifest_approved [OF refl] by blast
qed

subsection \<open>From the gateway to the player\<close>

lemma admit_built:
  assumes "errs m = []" "m = command_msg i seq t ty p" "i \<notin> set (dict_keys (ch_seen_command_ids h))"
    and "ch_last_sequence h < seq"
  shows "ch_admit errs m h = Inr (Some (seq, i, ty))"
  using assms by (simp add: ch_admit_def schema_ok_no_errors command_msg_def)

text \<open>A command of the gateway makes the handler raise only in the check of a stored manifest.\<close>

definition check_raises :: "iso_parser \<Rightarrow> rat \<Rightarrow> player_store \<Rightarrow> py_error \<Rightarrow> bool" where
  "check_raises fromiso wall store e \<longleftrightarrow>
     (\<exists>i man. ps_get store i = Some man \<and> ps_check_manifest fromiso wall man = Inl e)"

lemma built_payload:
  "activate_payload (command_msg i seq t ''activate_creative'' (Some (activate_body m d c r))) =
     Inr (m, d, c, if r = Some [] then None else r)"
  "ty = ''freeze'' \<or> ty = ''safe_mode'' \<Longrightarrow> \<exists>x. payload_reason (command_msg i seq t ty (reason_body r)) ty = Inr x"
  by (auto simp: activate_payload_def jget_or_empty_def command_msg_def activate_body_def jindex_jget payload_reason_def
      reason_body_def jget_attr_def split: option.splits)

lemma built_dispatch_raises:
  assumes "gw_command ty p" "ch_dispatch fromiso now wall (command_msg i seq t ty p) ty h = (Inl e, h')"
  shows "check_raises fromiso wall (ch_store h) e"
proof -
  from assms(1) consider (activate) m d c r where "ty = ''activate_creative''" "p = Some (activate_body m d c r)"
    | (reason) r where "ty = ''freeze'' \<or> ty = ''safe_mode''" "p = reason_body r"
    by (auto simp: gw_command_def)
  then show ?thesis
  proof cases
    case activate
    with assms(2) show ?thesis
      by (auto simp: ch_dispatch_def handle_activate_creative_def built_payload check_raises_def Let_def
          split: option.splits sum.splits prod.splits)
  next
    case reason
    from built_payload(2) [OF reason(1)] obtain x where "payload_reason (command_msg i seq t ty p) ty = Inr x"
      unfolding reason(2) by blast
    with assms(2) reason(1) show ?thesis by (auto simp: ch_dispatch_def split: prod.splits)
  qed
qed

text \<open>
  What can end a session over such commands: an error of the transition callback at one of the
  messages, or that check on a document of one of the stores the player had.
\<close>

fun received_payloads :: "session_event list \<Rightarrow> payload list" where
  "received_payloads [] = []"
| "received_payloads (Received now wall raw cb # es) = raw # received_payloads es"
| "received_payloads (Elsewhere sm store # es) = received_payloads es"

fun session_may_raise :: "iso_parser \<Rightarrow> session_event list \<Rightarrow> player_store \<Rightarrow> py_error \<Rightarrow> bool" where
  "session_may_raise fromiso [] store e = False"
| "session_may_raise fromiso (Received now wall raw cb # es) store e =
     (cb = Inl e \<or> check_raises fromiso wall store e \<or> session_may_raise fromiso es store e)"
| "session_may_raise fromiso (Elsewhere sm store' # es) store e = session_may_raise fromiso es store' e"

lemma admitted_session:
  assumes "inj (\<lambda>n. fst (gw_world gw n))"
  shows "list_all2 (built_as gw) xs ns \<Longrightarrow> sorted_wrt (<) ns \<Longrightarrow> sorted_wrt (<) (map seq_of xs) \<Longrightarrow>
    (\<And>m. m \<in> set xs \<Longrightarrow> errs m = [] \<and> ch_last_sequence h < seq_of m) \<Longrightarrow>
    (\<And>n. n \<in> set ns \<Longrightarrow> fst (gw_world gw n) \<notin> set (dict_keys (ch_seen_command_ids h))) \<Longrightarrow>
    received_payloads es = map Decoded xs \<Longrightarrow> ch_session errs fromiso es h = (ps, x) \<Longrightarrow>
    map fst ps = map seq_of (take (length ps) xs) \<and>
    (case x of None \<Rightarrow> length ps = length xs | Some e \<Rightarrow> session_may_raise fromiso es (ch_store h) e)"
proof (induction es arbitrary: xs ns h ps x)
  case Nil
  then show ?case by simp
next
  case (Cons e es)
  show ?case
  proof (cases e)
    case (Elsewhere sm store)
    let ?h = "h\<lparr>ch_sm := sm, ch_store := store\<rparr>"
    from Cons.IH [of xs ns ?h ps x] Cons.prems show ?thesis by (simp add: Elsewhere split: option.splits)
  next
    case (Received now wall raw cb)
    with Cons.prems(6) obtain m xs' where xs: "xs = m # xs'" "raw = Decoded m" "received_payloads es = map Decoded xs'"
      by (auto simp: Cons_eq_map_conv)
    from Cons.prems(1) xs(1) obtain n ns' where ns: "ns = n # ns'" "built_as gw m n" "list_all2 (built_as gw) xs' ns'"
      by (auto simp: list_all2_Cons1)
    from ns(2) obtain seq t ty p where m: "m = command_msg (fst (gw_world gw n)) seq t ty p" "gw_command ty p"
      by (auto simp: built_as_def)
    have adm: "ch_admit errs m h = Inr (Some (seq, fst (gw_world gw n), ty))"
    proof (rule admit_built [OF _ m(1)])
      show "errs m = []" using Cons.prems(4) xs(1) by simp
      show "fst (gw_world gw n) \<notin> set (dict_keys (ch_seen_command_ids h))" using Cons.prems(5) ns(1) by simp
      show "ch_last_sequence h < seq" using Cons.prems(4) [of m] xs(1) by (simp add: m(1))
    qed
    then have prog: "ch_progress errs raw h = Some (seq, fst (gw_world gw n))" by (simp add: ch_progress_def xs(2))
    obtain r h' where r: "handle_raw errs fromiso now wall raw h = (r, h')" by (rule prod.exhaust)
    have "h' = snd (handle_raw errs fromiso now wall raw h)" by (simp add: r)
    then have h': "ch_last_sequence h' = seq" "ch_store h' = ch_store h"
      "ch_seen_command_ids h' = cmd_hist.accept (fst (gw_world gw n)) (ch_seen_command_ids h)"
      using handle_raw_store by (simp_all add: handle_raw_history prog)
    show ?thesis
    proof (cases "received_error r cb")
      case None
      obtain qs y where rest: "ch_session errs fromiso es h' = (qs, y)" by (rule prod.exhaust)
      have "map fst qs = map seq_of (take (length qs) xs') \<and>
          (case y of None \<Rightarrow> length qs = length xs' | Some e \<Rightarrow> session_may_raise fromiso es (ch_store h') e)"
      proof (rule Cons.IH [OF ns(3) _ _ _ _ xs(3) rest])
        show "sorted_wrt (<) ns'" "sorted_wrt (<) (map seq_of xs')" using Cons.prems(2,3) by (simp_all add: ns(1) xs(1))
        show "errs m' = [] \<and> ch_last_sequence h' < seq_of m'" if "m' \<in> set xs'" for m'
          using that Cons.prems(3,4) by (simp add: h'(1) xs(1) m(1))
        show "fst (gw_world gw k) \<notin> set (dict_keys (ch_seen_command_ids h'))" if "k \<in> set ns'" for k
        proof -
          have "k \<noteq> n" using that Cons.prems(2) by (auto simp: ns(1))
          then have "fst (gw_world gw k) \<noteq> fst (gw_world gw n)" using assms by (auto dest: injD)
          moreover have "fst (gw_world gw k) \<notin> set (dict_keys (ch_seen_command_ids h))"
            using that Cons.prems(5) by (simp add: ns(1))
          ultimately show ?thesis using cmd_hist.accept_subset h'(3) by fastforce
        qed
      qed
      moreover have "ps = (seq, fst (gw_world gw n)) # qs" "x = y"
        using Cons.prems(7) r None rest prog by (simp_all add: Received)
      ultimately show ?thesis by (simp add: xs(1) m(1) Received h'(2) split: option.splits)
    next
      case (Some e')
      with Cons.prems(7) r prog have "ps = [(seq, fst (gw_world gw n))]" "x = Some e'" by (simp_all add: Received)
      moreover have "cb = Inl e' \<or> check_raises fromiso wall (ch_store h) e'"
      proof (cases "r = Inl e'")
        case True
        with r adm xs(2) obtain h'' where
          "ch_dispatch fromiso now wall m ty (ch_record seq (fst (gw_world gw n)) h) = (Inl e', h'')"
          by (auto simp: handle_raw_def split: sum.splits prod.splits)
        from built_dispatch_raises [OF m(2) this [unfolded m(1)]] show ?thesis by simp
      next
        case False
        with Some show ?thesis by (auto simp: received_error_def split: sum.splits option.splits)
      qed
      ultimately show ?thesis by (auto simp: xs(1) m(1) Received)
    qed
  qed
qed

text \<open>
  C10. The player takes no command of the gateway for a duplicate or for out of sequence:
  whatever the gateway has done (connections, broadcasts to several players, refused messages), a
  player that starts with this connection, validates with the same schema and receives what the
  connection was sent admits the messages in order, while the control server and the refresh loop
  change its state machine and its store in between: all of them, unless an exception ends its loop,
  then all up to the one that raised. The exception is one of the transition callback or of the expiry
  check of a stored manifest, never one the command itself causes.
\<close>

theorem gateway_commands_admitted:
  assumes "inj (\<lambda>n. fst (w n))"
    and "received_payloads es = map Decoded (received_by c (fold (gw_step errs) ops (init_gw w)))"
    and "ch_session errs fromiso es (reset_session (init_handler sm store pub)) = (ps, x)"
  shows "map fst ps = map seq_of (take (length ps) (received_by c (fold (gw_step errs) ops (init_gw w)))) \<and>
    (case x of
       None \<Rightarrow> length ps = length (received_by c (fold (gw_step errs) ops (init_gw w)))
     | Some e \<Rightarrow> session_may_raise fromiso es store e)"
proof -
  define gw where "gw = fold (gw_step errs) ops (init_gw w)"
  have inv: "gw_inv errs gw" unfolding gw_def by (rule gw_inv_run [OF gw_inv_init])
  have "gw_world gw = w"
  proof -
    have "gw_world (gw_step errs op g) = gw_world g" for op g
      by (cases op) (auto simp: gw_connect_def gw_disconnect_def send_activate_creative_def send_freeze_def
        send_safe_mode_def gw_broadcast_def next_command_def Let_def split: prod.split)
    then have "gw_world (fold (gw_step errs) ops g) = gw_world g" for g
      by (induction ops arbitrary: g) simp_all
    then show ?thesis by (simp add: gw_def init_gw_def)
  qed
  with assms(1) have inj: "inj (\<lambda>n. fst (gw_world gw n))" by simp
  have "\<exists>ns. list_all2 (built_as gw) (received_by c gw) ns \<and> sorted_wrt (<) ns"
    and srt: "sorted_wrt (<) (map seq_of (received_by c gw))"
    using inv unfolding gw_inv_def by blast+
  then obtain ns where ns: "list_all2 (built_as gw) (received_by c gw) ns" "sorted_wrt (<) ns" by blast
  have low: "errs m = [] \<and> ch_last_sequence (reset_session (init_handler sm store pub)) < seq_of m"
    if "m \<in> set (received_by c gw)" for m
    using that inv by (fastforce simp: gw_inv_def received_by_def reset_session_def)
  have st: "ch_store (reset_session (init_handler sm store pub)) = store"
    by (simp add: reset_session_def init_handler_def)
  from admitted_session [OF inj ns srt low _ assms(2,3) [folded gw_def]] show ?thesis
    unfolding st gw_def [symmetric] by (simp add: reset_session_def init_handler_def dict_keys_def)
qed

definition admitted_ops :: "gw_op list" where
  "admitted_ops = [GwConnect [] 0, GwConnect [] 1, GwActivate (\<lambda>_. True) ''m1'' 10000 0 None, GwFreeze (\<lambda>c. c = 0) None]"

definition admitted_payloads :: "json list" where
  "admitted_payloads = received_by 0 (fold (gw_step (\<lambda>_. [])) admitted_ops (init_gw (\<lambda>n. (replicate n CHR ''a'', ''t''))))"

theorem gateway_commands_admitted_witness:
  "let s = ch_session (\<lambda>_. []) (\<lambda>_. Inl [])
     (Elsewhere init_sm [] # map (\<lambda>m. Received 0 0 (Decoded m) (Inr ())) admitted_payloads)
     (reset_session (init_handler init_sm [] True))
   in snd s = None \<and> map fst (fst s) = map seq_of (take (length (fst s)) admitted_payloads)"
proof -
  have inj: "inj (\<lambda>n. fst (replicate n CHR ''a'', ''t''))"
    by (rule injI) (metis fst_conv length_replicate)
  have raws: "received_payloads (map (\<lambda>m. Received 0 0 (Decoded m) (Inr ())) ms) = map Decoded ms" for ms
    by (induction ms) simp_all
  obtain ps x where s: "ch_session (\<lambda>_. []) (\<lambda>_. Inl [])
     (Elsewhere init_sm [] # map (\<lambda>m. Received 0 0 (Decoded m) (Inr ())) admitted_payloads)
     (reset_session (init_handler init_sm [] True)) = (ps, x)" by (rule prod.exhaust)
  have "snd (ch_session (\<lambda>_. []) (\<lambda>_. Inl [])
     (Elsewhere init_sm [] # map (\<lambda>m. Received 0 0 (Decoded m) (Inr ())) admitted_payloads)
     (reset_session (init_handler init_sm [] True))) = None" by code_simp
  with gateway_commands_admitted [OF inj _ s, of 0 admitted_ops] s show ?thesis
    by (simp add: raws admitted_payloads_def)
qed

subsection \<open>From the dashboard's safe mode to the supervisor\<close>

text \<open>One tick of the relay: what the dashboard answers (if it does) and the player's status.\<close>

definition polled_tick :: "(rat \<Rightarrow> string) \<Rightarrow> rat \<times> dashboard option \<times> int option \<Rightarrow> safe_mode_relay \<Rightarrow> safe_mode_relay" where
  "polled_tick isoformat tick sr =
     (case tick of (now, db, player_status) \<Rightarrow>
        relay_tick (map_option (\<lambda>db. (200, safe_mode_json isoformat (fst (get_safe_mode now db)))) db) player_status sr)"

lemma polled_tick_idle: "\<not> sr_engaged_by_dashboard sr \<Longrightarrow> polled_tick isoformat tick sr = sr"
  by (cases tick) (auto simp: polled_tick_def relay_tick_def poll_dashboard_def safe_mode_json_def Let_def
      split: option.split)

text \<open>
  The operator's safe mode never reaches the player: the relay asks for the key
  \<open>is_active\<close>, the dashboard answers with the key \<open>active\<close>; so whatever the safe-mode row
  holds and however long the relay polls, it sends nothing to the player.
\<close>

theorem relay_ignores_dashboard:
  assumes "\<not> sr_engaged_by_dashboard sr"
  shows "fold (polled_tick isoformat) ticks sr = sr"
  using assms by (induction ticks) (simp_all add: polled_tick_idle)

theorem relay_ignores_dashboard_witness:
  "sr_calls (fold (polled_tick (\<lambda>_. []))
     [(1, Some (snd (engage_safe_mode 0 ''fire drill'' ''bob'' empty_dashboard)), Some 200)] init_relay) = []"
proof -
  have idle: "\<not> sr_engaged_by_dashboard init_relay" by (simp add: init_relay_def)
  show ?thesis unfolding relay_ignores_dashboard [OF idle] by (simp add: init_relay_def)
qed

subsection \<open>Impressions\<close>

definition non_empty :: "nat \<Rightarrow> string option \<Rightarrow> string option" where
  "non_empty n v = (case v of None \<Rightarrow> None | Some s \<Rightarrow> if s = [] then None else Some (take n s))"

text \<open>
  Every activation the player announces becomes one impression row with its manifest,
  reason and predecessor (cut to the width of their columns, empty ones NULL) and the
  attention of the newest snapshot of the last five seconds.
\<close>

theorem impression_persisted:
  assumes "fromiso (replace_z activated_at) = Inr (Aware t)"
  shows "play_message repr fromiso (True, now, Decoded (play_event_json activated_at ev)) db =
    (Inr (), db\<lparr>db_plays := db_plays db @
       [\<lparr>pw_manifest_id = take 128 (pe_manifest_id ev), pw_activated_at = t, pw_reason = non_empty 256 (pe_reason ev),
         pw_prev_manifest_id = non_empty 128 (pe_prev_manifest_id ev),
         pw_attention_at_trigger = lookup_attention_at_trigger t db, pw_received_at = now\<rparr>]\<rparr>)"
  using assms
  by (auto simp: play_message_def parse_play_event_def play_event_json_def iso_field_def drop_malformed_def
      opt_str_field_def opt_json_def py_str_def non_empty_def split: option.split)

theorem impression_persisted_witness:
  "map pw_manifest_id (db_plays (snd (play_message (\<lambda>_. []) (\<lambda>_. Inr (Aware 7)) (True, 8,
     Decoded (play_event_json ''t'' \<lparr>pe_manifest_id = ''m1'', pe_reason = None, pe_prev_manifest_id = None\<rparr>))
     empty_dashboard))) = [''m1'']"
  using impression_persisted [of "\<lambda>_. Inr (Aware 7)" "''t''" 7] by (simp add: empty_dashboard_def)

text \<open>
  The listing is complete: the pages of the manifest list, in page order and for every
  admissible page size, contain each row exactly once, the newest first.
\<close>

theorem manifest_pages_complete:
  assumes "case page_size of None \<Rightarrow> True | Some n \<Rightarrow> 0 \<le> n"
  shows "concat (map (\<lambda>p. page_rows (list_manifests None p page_size db))
      [1..pg_pages (snd (projr (list_manifests None 1 page_size db)))]) =
    sort_key (\<lambda>r. - mr_created_at r) (db_manifests db)"
proof -
  have "0 < effective_page_size page_size" by (rule effective_page_size_pos [OF assms])
  then show ?thesis
    using pages_partition [OF assms, of "sort_key (\<lambda>r. - mr_created_at r) (db_manifests db)"]
    by (simp add: all_pages_def list_manifests_def paginate_def Let_def)
qed

theorem manifest_pages_complete_witness:
  "concat (map (\<lambda>p. page_rows (list_manifests None p (Some 1) (api_run id shown_requests empty_dashboard)))
      [1..pg_pages (snd (projr (list_manifests None 1 (Some 1) (api_run id shown_requests empty_dashboard))))]) =
    sort_key (\<lambda>r. - mr_created_at r) (db_manifests (api_run id shown_requests empty_dashboard))"
  by (rule manifest_pages_complete) simp

end
