(* ===== verification/CvObservation.thy ===== *)
theory CvObservation
  imports AudienceState Contracts
begin

section \<open>Camera observations (services/input-cv/input_cv/observation, contracts/audience-state)\<close>

text \<open>
  The ICD-2 message of the camera service: the pydantic models of \<open>models.py\<close>, the builder
  of \<open>builder.py\<close> that turns a detection window into a message, the JSON it is dumped to,
  and the contract \<open>cv-observation.schema.json\<close> by which the audience-state service
  validates what it receives. The lax conversions of pydantic (third-party) are a parameter;
  a \<open>ValidationError\<close> is a \<open>ValueError\<close>, as pydantic defines it.
\<close>

subsection \<open>Field validation\<close>

record pydantic =
  co_float :: "json \<Rightarrow> rat option"
  co_int :: "json \<Rightarrow> int option"
  co_bool :: "json \<Rightarrow> bool option"

text \<open>An optional field: \<open>None\<close> stays, anything else is converted or refused.\<close>

definition optional_field :: "(json \<Rightarrow> 'a option) \<Rightarrow> json option \<Rightarrow> 'a option res" where
  "optional_field co v =
     (case v of
        None \<Rightarrow> Inr None
      | Some j \<Rightarrow> if j = JNull then Inr None
                  else (case co j of Some x \<Rightarrow> Inr (Some x) | None \<Rightarrow> Inl ValueError))"

text \<open>A field of type \<open>dict[str, float]\<close>.\<close>

definition co_bins :: "pydantic \<Rightarrow> json \<Rightarrow> (string \<times> rat) list option" where
  "co_bins py j =
     (case j of
        JObj kvs \<Rightarrow>
          if list_all (\<lambda>(k, v). co_float py v \<noteq> None) kvs
          then Some (map (\<lambda>(k, v). (k, the (co_float py v))) kvs) else None
      | _ \<Rightarrow> None)"

text \<open>A converted value restricted by \<open>ge\<close> and \<open>le\<close>.\<close>

definition restrict :: "('a \<Rightarrow> bool) \<Rightarrow> (json \<Rightarrow> 'a option) \<Rightarrow> json \<Rightarrow> 'a option" where
  "restrict p co j = (case co j of Some x \<Rightarrow> if p x then Some x else None | None \<Rightarrow> None)"

subsection \<open>The models\<close>

record observation_privacy =
  pv_contains_images :: bool
  pv_contains_frame_urls :: bool
  pv_contains_face_embeddings :: bool

definition assert_all_false :: "observation_privacy \<Rightarrow> observation_privacy res" where
  "assert_all_false p =
     (if pv_contains_images p \<or> pv_contains_frame_urls p \<or> pv_contains_face_embeddings p
      then Inl ValueError else Inr p)"

definition default_privacy :: observation_privacy where
  "default_privacy = \<lparr>pv_contains_images = False, pv_contains_frame_urls = False,
     pv_contains_face_embeddings = False\<rparr>"

record observation_counts =
  cn_present :: int
  cn_confidence :: rat

definition make_counts :: "int \<Rightarrow> rat \<Rightarrow> observation_counts res" where
  "make_counts present confidence =
     (if 0 \<le> present \<and> in_unit confidence
      then Inr \<lparr>cn_present = present, cn_confidence = confidence\<rparr> else Inl ValueError)"

record observation_attention =
  at_engaged :: "rat option"
  at_ambient :: "rat option"

definition make_attention :: "pydantic \<Rightarrow> json option \<Rightarrow> json option \<Rightarrow> observation_attention res" where
  "make_attention py engaged ambient =
     res_bind (optional_field (restrict in_unit (co_float py)) engaged) (\<lambda>e.
     res_bind (optional_field (restrict in_unit (co_float py)) ambient) (\<lambda>a.
     Inr \<lparr>at_engaged = e, at_ambient = a\<rparr>))"

record observation_demographics =
  odm_age_group :: "(string \<times> rat) list option"
  odm_gender :: "(string \<times> rat) list option"
  odm_attire :: "(string \<times> rat) list option"
  odm_dwell_estimate_ms :: "int option"
  odm_suppressed :: "bool option"

definition make_demographics :: "pydantic \<Rightarrow> (string \<Rightarrow> json option) \<Rightarrow> observation_demographics res" where
  "make_demographics py get =
     res_bind (optional_field (co_bins py) (get ''age_group'')) (\<lambda>age_group.
     res_bind (optional_field (co_bins py) (get ''gender'')) (\<lambda>gender.
     res_bind (optional_field (co_bins py) (get ''attire'')) (\<lambda>attire.
     res_bind (optional_field (restrict (\<lambda>n. 0 \<le> n) (co_int py)) (get ''dwell_estimate_ms'')) (\<lambda>dwell.
     res_bind (optional_field (co_bool py) (get ''suppressed'')) (\<lambda>supp.
     Inr \<lparr>odm_age_group = age_group, odm_gender = gender, odm_attire = attire,
          odm_dwell_estimate_ms = dwell, odm_suppressed = supp\<rparr>)))))"

record observation_context =
  cx_tenant_id :: string
  cx_site_id :: string
  cx_camera_id :: string
  cx_pipeline_id :: string

record observation_quality =
  ql_frames_processed :: int
  ql_frames_dropped :: int
  ql_pipeline_degraded :: "bool option"

record cv_observation =
  cv_message_id :: string
  cv_produced_at :: string
  cv_context :: observation_context
  cv_frame_seq :: int
  cv_window_ms :: int
  cv_counts :: observation_counts
  cv_demographics :: "observation_demographics option"
  cv_attention :: "observation_attention option"
  cv_quality :: observation_quality
  cv_privacy :: observation_privacy

definition context_ok :: "observation_context \<Rightarrow> bool" where
  "context_ok ctx \<longleftrightarrow> cx_tenant_id ctx \<noteq> [] \<and> cx_site_id ctx \<noteq> [] \<and> cx_camera_id ctx \<noteq> [] \<and> cx_pipeline_id ctx \<noteq> []"

text \<open>\<open>CvObservation(...)\<close>: the message id and the timestamp are what the factories return.\<close>

definition make_observation :: "string \<Rightarrow> string \<Rightarrow> observation_context \<Rightarrow> int \<Rightarrow> observation_counts
    \<Rightarrow> observation_demographics option \<Rightarrow> observation_attention option \<Rightarrow> observation_quality \<Rightarrow> cv_observation res" where
  "make_observation message_id produced_at ctx frame_seq counts demographics attention quality =
     res_bind (assert_all_false default_privacy) (\<lambda>privacy.
       if context_ok ctx \<and> 0 \<le> frame_seq
       then Inr \<lparr>cv_message_id = message_id, cv_produced_at = produced_at, cv_context = ctx,
              cv_frame_seq = frame_seq, cv_window_ms = 100, cv_counts = counts,
              cv_demographics = demographics, cv_attention = attention, cv_quality = quality,
              cv_privacy = privacy\<rparr>
       else Inl ValueError)"

subsection \<open>The builder\<close>

text \<open>The metadata of one detection window, a dictionary of decoded values.\<close>

type_synonym metadata = "(string \<times> json) list"

definition banned_metadata_keys :: "string list" where
  "banned_metadata_keys = [''frame'', ''image'', ''pixels'', ''pixel'', ''base64'', ''embedding'', ''embeddings'',
     ''face'', ''faces'', ''raw'', ''blob'', ''jpeg'', ''png'', ''thumbnail'', ''snapshot'', ''frame_url'', ''video'', ''clip'']"

definition check_banned_keys :: "metadata \<Rightarrow> unit res" where
  "check_banned_keys raw =
     (if list_ex (\<lambda>k. k \<in> set (dict_keys raw)) banned_metadata_keys then Inl PrivacyViolationError else Inr ())"

text \<open>What the builder takes from its libraries: \<open>int\<close> and \<open>float\<close> of a string, and pydantic.\<close>

record cv_lib =
  lib_int :: "string \<Rightarrow> rat option"
  lib_float :: "string \<Rightarrow> rat option"
  lib_pydantic :: pydantic

definition raw_get :: "metadata \<Rightarrow> string \<Rightarrow> json \<Rightarrow> json" where
  "raw_get raw k v = (case map_of raw k of Some j \<Rightarrow> j | None \<Rightarrow> v)"

definition build_demographics :: "pydantic \<Rightarrow> metadata \<Rightarrow> observation_demographics option res" where
  "build_demographics py raw =
     (case map_of raw ''demographics'' of
        None \<Rightarrow> Inr None
      | Some d \<Rightarrow> if \<not> is_obj d then Inl AttributeError
                  else res_bind (make_demographics py (jget d)) (\<lambda>x. Inr (Some x)))"

definition build_attention :: "pydantic \<Rightarrow> metadata \<Rightarrow> observation_attention option res" where
  "build_attention py raw =
     (case map_of raw ''attention'' of
        None \<Rightarrow> Inr None
      | Some a \<Rightarrow> if \<not> is_obj a then Inl AttributeError
                  else res_bind (make_attention py (jget a ''engaged'') (jget a ''ambient'')) (\<lambda>x. Inr (Some x)))"

definition build_quality :: "cv_lib \<Rightarrow> metadata \<Rightarrow> observation_quality res" where
  "build_quality lib raw =
     res_bind (py_int_of (lib_int lib) (raw_get raw ''frames_processed'' (JInt 1))) (\<lambda>processed.
     res_bind (py_int_of (lib_int lib) (raw_get raw ''frames_dropped'' (JInt 0))) (\<lambda>dropped.
     Inr \<lparr>ql_frames_processed = processed, ql_frames_dropped = dropped,
          ql_pipeline_degraded = map_option truthy (map_of raw ''pipeline_degraded'')\<rparr>))"

definition build_observation :: "cv_lib \<Rightarrow> string \<Rightarrow> string \<Rightarrow> metadata \<Rightarrow> observation_context \<Rightarrow> cv_observation res" where
  "build_observation lib message_id produced_at raw ctx =
     res_bind (check_banned_keys raw) (\<lambda>_.
     res_bind (py_int_of (lib_int lib) (raw_get raw ''person_count'' (JInt 0))) (\<lambda>present.
     res_bind (py_float (lib_float lib) (raw_get raw ''confidence_mean'' (JFloat 0))) (\<lambda>confidence.
     res_bind (make_counts present confidence) (\<lambda>counts.
     res_bind (build_quality lib raw) (\<lambda>quality.
     res_bind (build_demographics (lib_pydantic lib) raw) (\<lambda>demographics.
     res_bind (build_attention (lib_pydantic lib) raw) (\<lambda>attention.
     res_bind (py_int_of (lib_int lib) (raw_get raw ''frame_seq'' (JInt 0))) (\<lambda>frame_seq.
     make_observation message_id produced_at ctx frame_seq counts demographics attention quality))))))))"

subsection \<open>The message on the wire\<close>

text \<open>\<open>model_dump_json\<close> writes every field, \<open>None\<close> as \<open>null\<close>.\<close>

definition demographics_dump :: "observation_demographics \<Rightarrow> json" where
  "demographics_dump d = JObj
     [(''age_group'', opt_json num_obj (odm_age_group d)), (''gender'', opt_json num_obj (odm_gender d)),
      (''attire'', opt_json num_obj (odm_attire d)),
      (''dwell_estimate_ms'', opt_json JInt (odm_dwell_estimate_ms d)),
      (''suppressed'', opt_json JBool (odm_suppressed d))]"

definition attention_dump :: "observation_attention \<Rightarrow> json" where
  "attention_dump a = JObj [(''engaged'', opt_json JFloat (at_engaged a)), (''ambient'', opt_json JFloat (at_ambient a))]"

definition quality_dump :: "observation_quality \<Rightarrow> json" where
  "quality_dump q = JObj
     ([(''frames_processed'', JInt (ql_frames_processed q)), (''frames_dropped'', JInt (ql_frames_dropped q))] @
      (case ql_pipeline_degraded q of None \<Rightarrow> [] | Some b \<Rightarrow> [(''pipeline_degraded'', JBool b)]))"

definition privacy_dump :: "observation_privacy \<Rightarrow> json" where
  "privacy_dump p = JObj
     [(''contains_images'', JBool (pv_contains_images p)),
      (''contains_frame_urls'', JBool (pv_contains_frame_urls p)),
      (''contains_face_embeddings'', JBool (pv_contains_face_embeddings p))]"

definition observation_json :: "cv_observation \<Rightarrow> json" where
  "observation_json ob = JObj
     [(''schema_version'', JStr ''1.0.0''), (''message_type'', JStr ''cv_observation''),
      (''message_id'', JStr (cv_message_id ob)), (''produced_at'', JStr (cv_produced_at ob)),
      (''tenant_id'', JStr (cx_tenant_id (cv_context ob))), (''site_id'', JStr (cx_site_id (cv_context ob))),
      (''camera_id'', JStr (cx_camera_id (cv_context ob))), (''pipeline_id'', JStr (cx_pipeline_id (cv_context ob))),
      (''frame_seq'', JInt (cv_frame_seq ob)), (''window_ms'', JInt (cv_window_ms ob)),
      (''counts'', JObj [(''present'', JInt (cn_present (cv_counts ob))),
         (''confidence'', JFloat (cn_confidence (cv_counts ob)))]),
      (''demographics'', opt_json demographics_dump (cv_demographics ob)),
      (''attention'', opt_json attention_dump (cv_attention ob)),
      (''quality'', quality_dump (cv_quality ob)), (''privacy'', privacy_dump (cv_privacy ob))]"

subsection \<open>What the builder guarantees\<close>

definition attention_in_unit :: "observation_attention \<Rightarrow> bool" where
  "attention_in_unit a \<longleftrightarrow> pred_option in_unit (at_engaged a) \<and> pred_option in_unit (at_ambient a)"

definition observation_ok :: "cv_observation \<Rightarrow> bool" where
  "observation_ok ob \<longleftrightarrow>
     0 \<le> cv_frame_seq ob \<and> cv_window_ms ob = 100 \<and> context_ok (cv_context ob) \<and>
     0 \<le> cn_present (cv_counts ob) \<and> in_unit (cn_confidence (cv_counts ob)) \<and>
     pred_option (\<lambda>d. pred_option (\<lambda>n. 0 \<le> n) (odm_dwell_estimate_ms d)) (cv_demographics ob) \<and>
     pred_option attention_in_unit (cv_attention ob) \<and> cv_privacy ob = default_privacy"

lemma optional_field_restrict: "optional_field (restrict p co) v = Inr x \<Longrightarrow> pred_option p x"
  by (auto simp: optional_field_def restrict_def split: option.splits if_splits)

lemma make_attention_in_unit: "make_attention py e a = Inr b \<Longrightarrow> attention_in_unit b"
  by (auto simp: make_attention_def res_bind_Inr attention_in_unit_def dest!: optional_field_restrict)

lemma make_demographics_dwell:
  "make_demographics py get = Inr d \<Longrightarrow> pred_option (\<lambda>n. 0 \<le> n) (odm_dwell_estimate_ms d)"
  by (auto simp: make_demographics_def res_bind_Inr dest!: optional_field_restrict)

lemma build_demographics_dwell:
  "build_demographics py raw = Inr d \<Longrightarrow>
   pred_option (\<lambda>d. pred_option (\<lambda>n. 0 \<le> n) (odm_dwell_estimate_ms d)) d"
  by (auto simp: build_demographics_def res_bind_Inr dest: make_demographics_dwell split: option.splits if_splits)

lemma build_attention_in_unit: "build_attention py raw = Inr a \<Longrightarrow> pred_option attention_in_unit a"
  by (auto simp: build_attention_def res_bind_Inr dest: make_attention_in_unit split: option.splits if_splits)

lemma build_observation_ok:
  assumes "build_observation lib i t raw ctx = Inr ob"
  shows "observation_ok ob" "cv_message_id ob = i" "cv_context ob = ctx"
    "build_demographics (lib_pydantic lib) raw = Inr (cv_demographics ob)"
    "build_attention (lib_pydantic lib) raw = Inr (cv_attention ob)"
    "build_quality lib raw = Inr (cv_quality ob)"
    "check_banned_keys raw = Inr ()"
  using assms
  by (auto simp: build_observation_def res_bind_Inr make_counts_def make_observation_def assert_all_false_def
      default_privacy_def observation_ok_def dest: build_demographics_dwell build_attention_in_unit split: if_splits)

text \<open>Without the keys the message carries \<open>null\<close>.\<close>

lemma build_observation_absent:
  assumes "build_observation lib i t raw ctx = Inr ob"
  shows "map_of raw ''demographics'' = None \<Longrightarrow> cv_demographics ob = None"
    "map_of raw ''attention'' = None \<Longrightarrow> cv_attention ob = None"
  using build_observation_ok(4,5) [OF assms] by (simp_all add: build_demographics_def build_attention_def)

subsection \<open>Exactly the complete observations satisfy the contract\<close>

definition bins_within :: "string list \<Rightarrow> (string \<times> rat) list option \<Rightarrow> bool" where
  "bins_within names v =
     (case v of None \<Rightarrow> False | Some b \<Rightarrow> list_all (\<lambda>(k, x). k \<in> set names \<and> in_unit x) b)"

definition demographics_complete :: "observation_demographics \<Rightarrow> bool" where
  "demographics_complete d \<longleftrightarrow>
     bins_within age_bins (odm_age_group d) \<and> bins_within gender_bins (odm_gender d) \<and>
     bins_within attire_bins (odm_attire d) \<and> odm_dwell_estimate_ms d \<noteq> None \<and> odm_suppressed d \<noteq> None"

definition names_ok :: "observation_context \<Rightarrow> bool" where
  "names_ok ctx \<longleftrightarrow> contract_name (cx_tenant_id ctx) \<and> contract_name (cx_site_id ctx) \<and>
     contract_name (cx_camera_id ctx) \<and> contract_name (cx_pipeline_id ctx)"

definition complete :: "cv_observation \<Rightarrow> bool" where
  "complete ob \<longleftrightarrow>
     contract_id (cv_message_id ob) \<and> names_ok (cv_context ob) \<and>
     0 \<le> ql_frames_processed (cv_quality ob) \<and> 0 \<le> ql_frames_dropped (cv_quality ob) \<and>
     (case cv_demographics ob of None \<Rightarrow> False | Some d \<Rightarrow> demographics_complete d) \<and>
     (case cv_attention ob of None \<Rightarrow> False | Some a \<Rightarrow> at_engaged a \<noteq> None \<and> at_ambient a \<noteq> None)"

lemma bins_schema_num_obj: "bins_schema names (opt_json num_obj v) = bins_within names v"
proof (cases v)
  case None
  then show ?thesis by (simp add: bins_schema_def bins_within_def opt_json_def)
next
  case (Some b)
  have "list_all (\<lambda>(k, v). case if k \<in> set names then Some (num_where in_unit) else None of
            None \<Rightarrow> False | Some p \<Rightarrow> p v) (map (\<lambda>(k, v). (k, JFloat v)) b) =
        list_all (\<lambda>(k, x). k \<in> set names \<and> in_unit x) b"
    by (induction b) (auto split: if_splits)
  with Some show ?thesis
    by (simp add: bins_schema_def bins_within_def opt_json_def schema_object_def num_obj_def map_of_const)
qed

lemma opt_json_where:
  "int_where q (opt_json JInt v) = (case v of None \<Rightarrow> False | Some n \<Rightarrow> q n)"
  "num_where u (opt_json JFloat w) = (case w of None \<Rightarrow> False | Some x \<Rightarrow> u x)"
  "bool_where b (opt_json JBool z) = (case z of None \<Rightarrow> False | Some c \<Rightarrow> b c)"
  by (simp_all add: opt_json_def split: option.splits)

lemma demographics_schema_dump:
  "demographics_schema (opt_json demographics_dump v) =
     (case v of None \<Rightarrow> False | Some d \<Rightarrow> demographics_complete d)"
  if "pred_option (\<lambda>d. pred_option (\<lambda>n. 0 \<le> n) (odm_dwell_estimate_ms d)) v"
proof (cases v)
  case None
  then show ?thesis by (simp add: demographics_schema_def opt_json_def)
next
  case (Some d)
  with that show ?thesis
    by (simp add: demographics_schema_def demographics_dump_def schema_object_def opt_json_def [of demographics_dump]
        demographics_complete_def bins_schema_num_obj opt_json_where)
      (auto split: option.splits)
qed

lemma attention_schema_dump:
  "attention_schema (opt_json attention_dump v) =
     (case v of None \<Rightarrow> False | Some a \<Rightarrow> at_engaged a \<noteq> None \<and> at_ambient a \<noteq> None)"
  if "pred_option attention_in_unit v"
proof (cases v)
  case None
  then show ?thesis by (simp add: attention_schema_def opt_json_def)
next
  case (Some a)
  with that show ?thesis
    by (simp add: attention_schema_def attention_dump_def schema_object_def opt_json_def [of attention_dump]
        attention_in_unit_def opt_json_where)
      (auto split: option.splits)
qed

lemma quality_schema_dump:
  "quality_schema (quality_dump q) \<longleftrightarrow> 0 \<le> ql_frames_processed q \<and> 0 \<le> ql_frames_dropped q"
  by (simp add: quality_schema_def schema_object_def quality_dump_def dict_keys_def split: option.split)

lemma privacy_schema_dump [simp]: "privacy_schema (privacy_dump default_privacy)"
  by (simp add: privacy_schema_def schema_object_def privacy_dump_def default_privacy_def dict_keys_def)

lemma contract_iff_complete:
  assumes "observation_ok ob"
  shows "cv_observation_contract (observation_json ob) = complete ob"
  using assms
  by (simp add: cv_observation_contract_def observation_json_def schema_object_def [where j = "JObj _"]
      dict_keys_def complete_def names_ok_def observation_ok_def demographics_schema_dump attention_schema_dump
      quality_schema_dump)
    (auto simp: counts_schema_def schema_object_def dict_keys_def)

text \<open>
  The audience-state service accepts an observation of the camera service exactly when it
  is complete: it carries age, gender and attire distributions over the bins of the contract,
  a dwell estimate, a suppression flag and both attention values. Everything else is rejected
  by the contract, because \<open>model_dump_json\<close> writes absent blocks as \<open>null\<close>.
\<close>

theorem accepted_iff_complete:
  assumes "build_observation lib i t raw ctx = Inr ob" and "i \<notin> set (dict_keys (oc_seen_ids oc))"
  shows "fst (oc_process (errs_of cv_observation_contract) now (Decoded (observation_json ob)) oc) = Inr (complete ob)"
proof -
  have "jindex (observation_json ob) ''message_id'' = Inr (JStr i)"
    using build_observation_ok(2) [OF assms(1)] by (simp add: observation_json_def)
  then show ?thesis
    using contract_iff_complete [OF build_observation_ok(1) [OF assms(1)]] assms(2)
    by (simp add: oc_process_def)
qed

definition sample_pydantic :: pydantic where
  "sample_pydantic = \<lparr>co_float = jnum, co_int = jint, co_bool = (\<lambda>j. case j of JBool b \<Rightarrow> Some b | _ \<Rightarrow> None)\<rparr>"

definition sample_lib :: cv_lib where
  "sample_lib = \<lparr>lib_int = (\<lambda>_. None), lib_float = (\<lambda>_. None), lib_pydantic = sample_pydantic\<rparr>"

definition sample_context :: observation_context where
  "sample_context = \<lparr>cx_tenant_id = ''t'', cx_site_id = ''s'', cx_camera_id = ''cam'', cx_pipeline_id = ''p''\<rparr>"

definition sample_window :: obs_window where
  "sample_window = \<lparr>ow_window_ms = 5000, ow_min_stability = 3, ow_conf_threshold = 1/2, ow_observations = [],
     ow_total_added = 0\<rparr>"

definition sample_meta :: metadata where
  "sample_meta = [(''frame_seq'', JInt 7), (''person_count'', JInt 2), (''confidence_mean'', JFloat (9/10)),
     (''demographics'', JObj [(''age_group'', JObj [(''adult'', JFloat 1)]), (''gender'', JObj [(''male'', JFloat (1/2))]),
        (''attire'', JObj []), (''dwell_estimate_ms'', JInt 500), (''suppressed'', JBool False)]),
     (''attention'', JObj [(''engaged'', JFloat (3/4)), (''ambient'', JFloat (1/4))])]"

theorem accepted_iff_complete_witness:
  "\<exists>ob. build_observation sample_lib ''m'' ''t'' sample_meta sample_context = Inr ob \<and>
     fst (oc_process (errs_of cv_observation_contract) 0 (Decoded (observation_json ob)) (init_oc sample_window)) = Inr True"
proof -
  have "case build_observation sample_lib ''m'' ''t'' sample_meta sample_context of
      Inr ob \<Rightarrow> complete ob | Inl _ \<Rightarrow> False"
    by code_simp
  then obtain ob where ob: "build_observation sample_lib ''m'' ''t'' sample_meta sample_context = Inr ob" "complete ob"
    by (auto split: sum.splits)
  have "''m'' \<notin> set (dict_keys (oc_seen_ids (init_oc sample_window)))"
    by (simp add: init_oc_def dict_keys_def)
  from accepted_iff_complete [OF ob(1) this, of 0] ob show ?thesis by auto
qed

definition observed :: "cv_observation \<Rightarrow> observation" where
  "observed ob =
     \<lparr>ob_present = cn_present (cv_counts ob), ob_confidence = cn_confidence (cv_counts ob),
      ob_pipeline_degraded = (ql_pipeline_degraded (cv_quality ob) = Some True),
      ob_demographics = map_option (\<lambda>d.
        \<lparr>od_age_group = (case odm_age_group d of None \<Rightarrow> [] | Some b \<Rightarrow> b),
         od_gender = odm_gender d, od_attire = odm_attire d,
         od_dwell_estimate_ms = odm_dwell_estimate_ms d\<rparr>) (cv_demographics ob),
      ob_attention = map_option (\<lambda>a.
        (case at_engaged a of None \<Rightarrow> [] | Some x \<Rightarrow> [(''engaged'', x)]) @
        (case at_ambient a of None \<Rightarrow> [] | Some x \<Rightarrow> [(''ambient'', x)])) (cv_attention ob)\<rparr>"

lemma observation_json_fields:
  "jget (observation_json ob) ''demographics'' = Some (opt_json demographics_dump (cv_demographics ob))"
  "jget (observation_json ob) ''attention'' = Some (opt_json attention_dump (cv_attention ob))"
  "jpath (observation_json ob) [''quality'', k] = jget (quality_dump (cv_quality ob)) k"
  "jpath (observation_json ob) [''counts'', ''present''] = Some (JInt (cn_present (cv_counts ob)))"
  "jpath (observation_json ob) [''counts'', ''confidence''] = Some (JFloat (cn_confidence (cv_counts ob)))"
  by (simp_all add: observation_json_def split: option.split)

lemma demographics_dump_fields:
  "num_block (demographics_dump d) ''age_group'' = (case odm_age_group d of None \<Rightarrow> [] | Some b \<Rightarrow> b)"
  "opt_block (demographics_dump d) ''gender'' = odm_gender d"
  "opt_block (demographics_dump d) ''attire'' = odm_attire d"
  "(case jget (demographics_dump d) ''dwell_estimate_ms'' of Some j \<Rightarrow> jint j | None \<Rightarrow> None) = odm_dwell_estimate_ms d"
  "demographics_dump d \<noteq> JNull"
  by (auto simp: demographics_dump_def num_block_def opt_block_def opt_json_def num_obj_def map_filter_floats
      split: option.split)

lemma attention_block_dump:
  "opt_block (observation_json ob) ''attention'' = map_option (\<lambda>a.
     (case at_engaged a of None \<Rightarrow> [] | Some x \<Rightarrow> [(''engaged'', x)]) @
     (case at_ambient a of None \<Rightarrow> [] | Some x \<Rightarrow> [(''ambient'', x)])) (cv_attention ob)"
  by (auto simp: opt_block_def num_block_def observation_json_fields opt_json_def attention_dump_def
      List.map_filter_simps split: option.split)

lemma quality_flag_dump:
  "jtrue (jget (quality_dump q) ''pipeline_degraded'') = (ql_pipeline_degraded q = Some True)"
  by (auto simp: quality_dump_def jtrue_def split: option.split)

text \<open>
  Round trip over the broker: the observation that the window of the audience-state
  service keeps of a camera message has the counts, the confidence, the degradation flag, the
  distributions, the dwell estimate and the attention values the builder put into it.
\<close>

theorem observation_roundtrip: "obs_view (observation_json ob) = observed ob"
  unfolding obs_view_def observed_def observation_json_fields attention_block_dump quality_flag_dump
  by (simp add: opt_json_def demographics_dump_fields split: option.split)

text \<open>
  Only the top-level keys of a window are checked: a banned key inside a distribution reaches
  the message, as the name of a bin.
\<close>

lemma nested_banned_key_built:
  "case build_observation sample_lib ''m'' ''t''
     [(''demographics'', JObj [(''age_group'', JObj [(''embedding'', JFloat (1/2))])])] sample_context of
     Inl e \<Rightarrow> False
   | Inr ob \<Rightarrow> jpath (observation_json ob) [''demographics'', ''age_group'', ''embedding''] = Some (JFloat (1/2))"
  by code_simp

text \<open>A value outside a model's range is a \<open>ValueError\<close>, which the service loop does not catch.\<close>

lemma out_of_range_raises:
  "build_observation sample_lib ''m'' ''t'' [(''confidence_mean'', JFloat 2)] sample_context = Inl ValueError"
  by code_simp

end
