(* ===== verification/InputCv.thy ===== *)
theory InputCv
  imports CvObservation "HOL-Library.Sublist"
begin

section \<open>The camera service (services/input-cv/input_cv)\<close>

text \<open>
  Health tracking, reopen backoff, the two pipeline drivers, the two publishers and the
  supervision loop of \<open>main.py\<close>. The loop is written over the operations of a driver and of
  a publisher, as the code is; two locales state what it relies on and are interpreted on the
  drivers and publishers of the repository. GStreamer, the camera device, the MQTT client and
  the shutdown signal are the environment: each iteration of the loop gets an event.
\<close>

subsection \<open>Camera configuration\<close>

record camera_config =
  cc_camera_id :: string
  cc_device_path :: string
  cc_enabled :: bool
  cc_pixel_format :: string
  cc_width :: int
  cc_height :: int
  cc_fps :: int
  cc_startup_timeout_ms :: int
  cc_read_timeout_ms :: int
  cc_reopen :: "bool \<times> int \<times> int"
  cc_notes :: string

definition co_str :: "json \<Rightarrow> string option" where
  "co_str j = (case j of JStr s \<Rightarrow> Some s | _ \<Rightarrow> None)"

definition between :: "int \<Rightarrow> int \<Rightarrow> int \<Rightarrow> bool" where
  "between lo hi n \<longleftrightarrow> lo \<le> n \<and> n \<le> hi"

text \<open>A field of a model: a default of \<open>None\<close> makes it required.\<close>

definition model_field :: "json \<Rightarrow> string \<Rightarrow> 'a option \<Rightarrow> (json \<Rightarrow> 'a option) \<Rightarrow> 'a res" where
  "model_field raw k dflt co =
     (case (case jget raw k of None \<Rightarrow> dflt | Some j \<Rightarrow> co j) of None \<Rightarrow> Inl ValueError | Some x \<Rightarrow> Inr x)"

text \<open>\<open>extra="forbid"\<close>.\<close>

definition only_keys :: "string list \<Rightarrow> json \<Rightarrow> bool" where
  "only_keys names raw = (case raw of JObj kvs \<Rightarrow> list_all (\<lambda>k. k \<in> set names) (dict_keys kvs) | _ \<Rightarrow> False)"

definition reopen_config :: "pydantic \<Rightarrow> json \<Rightarrow> (bool \<times> int \<times> int) option" where
  "reopen_config py raw =
     (if \<not> only_keys [''enabled'', ''initial_backoff_ms'', ''max_backoff_ms''] raw then None
      else case res_bind (model_field raw ''enabled'' None (co_bool py)) (\<lambda>enabled.
           res_bind (model_field raw ''initial_backoff_ms'' (Some 500) (restrict (between 100 60000) (co_int py))) (\<lambda>initial.
           res_bind (model_field raw ''max_backoff_ms'' (Some 10000) (restrict (between 100 600000) (co_int py))) (\<lambda>cap.
           Inr (enabled, initial, cap)))) of Inl _ \<Rightarrow> None | Inr r \<Rightarrow> Some r)"

definition device_path_ok :: "string \<Rightarrow> bool" where
  "device_path_ok s \<longleftrightarrow> take 10 s = ''/dev/video'' \<and> drop 10 s \<noteq> [] \<and>
     list_all (\<lambda>c. CHR ''0'' \<le> c \<and> c \<le> CHR ''9'') (drop 10 s)"

definition camera_id_ok :: "string \<Rightarrow> bool" where
  "camera_id_ok s \<longleftrightarrow> 1 \<le> length s \<and> length s \<le> 128 \<and> list_all name_char s"

definition camera_config_of :: "pydantic \<Rightarrow> json \<Rightarrow> camera_config res" where
  "camera_config_of py raw =
     (if \<not> only_keys [''schema_version'', ''camera_id'', ''source_type'', ''device_path'', ''enabled'', ''pixel_format'',
         ''width'', ''height'', ''fps'', ''startup_timeout_ms'', ''read_timeout_ms'', ''reopen'', ''notes''] raw
      then Inl ValueError
      else
        res_bind (model_field raw ''schema_version'' None (restrict (\<lambda>s. s = ''1.1.0'') co_str)) (\<lambda>_.
        res_bind (model_field raw ''camera_id'' None (restrict camera_id_ok co_str)) (\<lambda>camera_id.
        res_bind (model_field raw ''source_type'' None (restrict (\<lambda>s. s = ''local_v4l2'') co_str)) (\<lambda>_.
        res_bind (model_field raw ''device_path'' None (restrict device_path_ok co_str)) (\<lambda>device_path.
        res_bind (model_field raw ''enabled'' None (co_bool py)) (\<lambda>enabled.
        res_bind (model_field raw ''pixel_format'' None
          (restrict (\<lambda>s. s \<in> set [''NV12'', ''YUYV'', ''MJPG'', ''RGB3'', ''BGR3'']) co_str)) (\<lambda>pixel_format.
        res_bind (model_field raw ''width'' None (restrict (between 320 7680) (co_int py))) (\<lambda>width.
        res_bind (model_field raw ''height'' None (restrict (between 240 4320) (co_int py))) (\<lambda>height.
        res_bind (model_field raw ''fps'' None (restrict (between 1 120) (co_int py))) (\<lambda>fps.
        res_bind (model_field raw ''startup_timeout_ms'' (Some 10000) (restrict (between 100 120000) (co_int py))) (\<lambda>startup.
        res_bind (model_field raw ''read_timeout_ms'' (Some 3000) (restrict (between 100 120000) (co_int py))) (\<lambda>rd.
        res_bind (model_field raw ''reopen'' (Some (True, 500, 10000)) (reopen_config py)) (\<lambda>reopen.
        res_bind (model_field raw ''notes'' (Some []) (restrict (\<lambda>s. length s \<le> 2000) co_str)) (\<lambda>notes.
        Inr \<lparr>cc_camera_id = camera_id, cc_device_path = device_path, cc_enabled = enabled,
             cc_pixel_format = pixel_format, cc_width = width, cc_height = height, cc_fps = fps,
             cc_startup_timeout_ms = startup, cc_read_timeout_ms = rd, cc_reopen = reopen,
             cc_notes = notes\<rparr>))))))))))))))"

text \<open>
  \<open>load_camera_config\<close>: the file is missing, no JSON, or a decoded value; then the schema of the
  contract (whose file may be missing) and the model have to accept it.
\<close>

definition load_camera_config :: "pydantic \<Rightarrow> bool \<Rightarrow> (json \<Rightarrow> string list) \<Rightarrow> json option option \<Rightarrow> camera_config res" where
  "load_camera_config py schema_exists errs file =
     (case file of
        None \<Rightarrow> Inl OSError
      | Some None \<Rightarrow> Inl ValueError
      | Some (Some raw) \<Rightarrow>
          if \<not> schema_exists then Inl OSError
          else if errs raw \<noteq> [] then Inl ValueError
          else camera_config_of py raw)"

lemma model_field_restrict:
  "model_field raw k dflt (restrict p co) = Inr x \<Longrightarrow> pred_option p dflt \<Longrightarrow> p x"
  by (auto simp: model_field_def restrict_def split: option.splits if_splits)

lemma reopen_config_between:
  "reopen_config py raw = Some (b, i, c) \<Longrightarrow> between 100 60000 i \<and> between 100 600000 c"
  by (auto simp: reopen_config_def res_bind_def dest!: model_field_restrict simp: between_def
      split: if_splits sum.splits)

lemma camera_config_reopen:
  assumes "load_camera_config py ex errs file = Inr cfg"
  shows "case cc_reopen cfg of (_, i, c) \<Rightarrow> between 100 60000 i \<and> between 100 600000 c"
proof -
  have "model_field raw ''reopen'' (Some (True, 500, 10000)) (reopen_config py) = Inr (b, i, c) \<Longrightarrow>
      between 100 60000 i \<and> between 100 600000 c" for raw b i c
    by (auto simp: model_field_def between_def dest: reopen_config_between split: option.splits)
  then show ?thesis
    using assms
    by (auto simp: load_camera_config_def camera_config_of_def res_bind_Inr split: option.splits if_splits)
qed

subsection \<open>Health tracker\<close>

datatype pipeline_state = STARTING | RUNNING | REOPENING | FAILED

fun pipeline_state_value :: "pipeline_state \<Rightarrow> string" where
  "pipeline_state_value STARTING = ''starting''"
| "pipeline_state_value RUNNING = ''running''"
| "pipeline_state_value REOPENING = ''reopening''"
| "pipeline_state_value FAILED = ''failed''"

record health_tracker =
  ht_camera_id :: string
  ht_pipeline_id :: string
  ht_device_present :: bool
  ht_last_frame_ts :: "rat option"
  ht_last_pipeline_start_ts :: "rat option"
  ht_reopen_count :: nat
  ht_pipeline_state :: pipeline_state

definition init_ht :: "string \<Rightarrow> string \<Rightarrow> health_tracker" where
  "init_ht camera_id pipeline_id =
     \<lparr>ht_camera_id = camera_id, ht_pipeline_id = pipeline_id, ht_device_present = False,
      ht_last_frame_ts = None, ht_last_pipeline_start_ts = None, ht_reopen_count = 0,
      ht_pipeline_state = STARTING\<rparr>"

definition mark_device_present :: "health_tracker \<Rightarrow> health_tracker" where
  "mark_device_present h = h\<lparr>ht_device_present := True\<rparr>"

definition mark_device_absent :: "health_tracker \<Rightarrow> health_tracker" where
  "mark_device_absent h = h\<lparr>ht_device_present := False\<rparr>"

definition mark_pipeline_running :: "rat \<Rightarrow> health_tracker \<Rightarrow> health_tracker" where
  "mark_pipeline_running now h = h\<lparr>ht_pipeline_state := RUNNING, ht_last_pipeline_start_ts := Some now\<rparr>"

definition mark_reopening :: "health_tracker \<Rightarrow> health_tracker" where
  "mark_reopening h = h\<lparr>ht_pipeline_state := REOPENING\<rparr>"

definition mark_failed :: "health_tracker \<Rightarrow> health_tracker" where
  "mark_failed h = h\<lparr>ht_pipeline_state := FAILED\<rparr>"

definition record_frame :: "rat \<Rightarrow> health_tracker \<Rightarrow> health_tracker" where
  "record_frame now h = h\<lparr>ht_last_frame_ts := Some now\<rparr>"

definition increment_reopen :: "health_tracker \<Rightarrow> health_tracker" where
  "increment_reopen h = h\<lparr>ht_reopen_count := ht_reopen_count h + 1, ht_pipeline_state := REOPENING\<rparr>"

definition ht_as_dict :: "(rat \<Rightarrow> string) \<Rightarrow> health_tracker \<Rightarrow> (string \<times> json) list" where
  "ht_as_dict isoformat h =
     [(''camera_id'', JStr (ht_camera_id h)), (''pipeline_id'', JStr (ht_pipeline_id h)),
      (''device_present'', JBool (ht_device_present h)),
      (''pipeline_state'', JStr (pipeline_state_value (ht_pipeline_state h))),
      (''last_frame_ts'', opt_json (\<lambda>t. JStr (isoformat t)) (ht_last_frame_ts h)),
      (''last_pipeline_start_ts'', opt_json (\<lambda>t. JStr (isoformat t)) (ht_last_pipeline_start_ts h)),
      (''reopen_count'', JInt (int (ht_reopen_count h)))]"

text \<open>\<open>/readyz\<close> of \<open>health/server.py\<close>.\<close>

definition camera_readyz :: "(rat \<Rightarrow> string) \<Rightarrow> bool \<Rightarrow> health_tracker \<Rightarrow> nat \<times> json" where
  "camera_readyz isoformat is_ready h =
     (if \<not> is_ready
      then (503, JObj [(''status'', JStr ''not_ready''), (''reason'', JStr ''startup_in_progress'')])
      else (200, JObj ((''status'', JStr ''ok'') # ht_as_dict isoformat h)))"

subsection \<open>Reopen backoff\<close>

definition next_backoff_seconds :: "nat \<Rightarrow> int \<Rightarrow> int \<Rightarrow> rat" where
  "next_backoff_seconds attempt initial_ms max_ms = of_int (min (initial_ms * 2 ^ attempt) max_ms) / 1000"

record reopen_loop =
  rl_initial_ms :: int
  rl_max_ms :: int
  rl_enabled :: bool
  rl_attempt :: nat

definition wait_and_record :: "reopen_loop \<times> health_tracker \<Rightarrow> rat \<times> reopen_loop \<times> health_tracker" where
  "wait_and_record w =
     (case w of (rl, h) \<Rightarrow>
        (next_backoff_seconds (rl_attempt rl) (rl_initial_ms rl) (rl_max_ms rl),
         rl\<lparr>rl_attempt := rl_attempt rl + 1\<rparr>, increment_reopen h))"

definition rl_reset :: "reopen_loop \<Rightarrow> reopen_loop" where
  "rl_reset rl = rl\<lparr>rl_attempt := 0\<rparr>"

text \<open>With an initial delay below the cap this is the reconnect backoff of the other services.\<close>

lemma backoff_is_reconnect:
  assumes "reconnect (of_int a / 1000) (of_int b / 1000) (\<lambda>d. min (d * 2) (of_int b / 1000))"
  shows "next_backoff_seconds n a b = ((\<lambda>d. min (d * 2) (of_int b / 1000)) ^^ n) (of_int a / 1000)"
  using reconnect.after_failures [OF assms, of n]
  by (simp add: next_backoff_seconds_def min_divide_distrib_right of_int_min)

definition default_initial_ms :: int where "default_initial_ms = 500"
definition default_max_ms :: int where "default_max_ms = 10000"

interpretation reopen: reconnect "of_int default_initial_ms / 1000" "of_int default_max_ms / 1000"
  "\<lambda>d. min (d * 2) (of_int default_max_ms / 1000)"
  by unfold_locales (simp_all add: default_initial_ms_def default_max_ms_def)

lemma backoff_bounds:
  assumes "0 < a" and "0 < b"
  shows "of_int (min a b) / 1000 \<le> next_backoff_seconds n a b" and "next_backoff_seconds n a b \<le> of_int b / 1000"
proof -
  have "a * 1 \<le> a * 2 ^ n" using assms(1) by (intro mult_left_mono) simp_all
  then have "min a b \<le> min (a * 2 ^ n) b" by simp
  then show "of_int (min a b) / 1000 \<le> next_backoff_seconds n a b"
    by (simp add: next_backoff_seconds_def divide_right_mono del: of_int_min)
  show "next_backoff_seconds n a b \<le> of_int b / 1000"
    by (simp add: next_backoff_seconds_def divide_right_mono)
qed

subsection \<open>Pipeline drivers\<close>

text \<open>The operations of \<open>PipelineDriver\<close>; \<open>'e\<close> is what the device does during one iteration.\<close>

record ('e, 'd) driver_ops =
  drv_open :: "'e \<Rightarrow> 'd \<Rightarrow> unit res \<times> 'd"
  drv_read :: "'e \<Rightarrow> 'd \<Rightarrow> metadata list res \<times> 'd"
  drv_close :: "'d \<Rightarrow> 'd"

text \<open>\<open>NullDriver\<close>.\<close>

record null_driver =
  nd_raise_on_open :: bool
  nd_fail_after_n_reads :: "nat option"
  nd_canned_metadata :: "metadata list"
  nd_read_count :: nat
  nd_opened :: bool
  nd_closed :: bool

definition null_driver_of :: "bool \<Rightarrow> nat option \<Rightarrow> metadata list option \<Rightarrow> null_driver" where
  "null_driver_of raise_on_open fail_after canned =
     \<lparr>nd_raise_on_open = raise_on_open, nd_fail_after_n_reads = fail_after,
      nd_canned_metadata = (case canned of
          Some (m # ms) \<Rightarrow> m # ms
        | _ \<Rightarrow> [[(''frame_seq'', JInt 0), (''person_count'', JInt 1), (''confidence_mean'', JFloat (85/100)),
               (''frames_processed'', JInt 10), (''frames_dropped'', JInt 0)]]),
      nd_read_count = 0, nd_opened = False, nd_closed = False\<rparr>"

definition null_open :: "null_driver \<Rightarrow> unit res \<times> null_driver" where
  "null_open d = (if nd_raise_on_open d then (Inl DeviceNotFoundError, d)
                  else (Inr (), d\<lparr>nd_opened := True, nd_read_count := 0\<rparr>))"

text \<open>\<open>entry.get("frame_seq", 0) + n\<close>.\<close>

definition plus_int :: "json \<Rightarrow> int \<Rightarrow> json res" where
  "plus_int j n =
     (case j of
        JInt i \<Rightarrow> Inr (JInt (i + n))
      | JFloat x \<Rightarrow> Inr (JFloat (x + of_int n))
      | JBool b \<Rightarrow> Inr (JInt ((if b then 1 else 0) + n))
      | _ \<Rightarrow> Inl TypeError)"

fun null_entries :: "int \<Rightarrow> metadata list \<Rightarrow> metadata list res" where
  "null_entries n [] = Inr []"
| "null_entries n (item # items) =
     res_bind (plus_int (raw_get item ''frame_seq'' (JInt 0)) n) (\<lambda>v.
     res_bind (null_entries n items) (\<lambda>rest. Inr (AList.update ''frame_seq'' v item # rest)))"

definition null_read :: "null_driver \<Rightarrow> metadata list res \<times> null_driver" where
  "null_read d =
     (if \<not> nd_opened d then (Inl RuntimeError, d)
      else if (case nd_fail_after_n_reads d of None \<Rightarrow> False | Some n \<Rightarrow> n \<le> nd_read_count d)
      then (Inl PipelineReadError, d)
      else (let d' = d\<lparr>nd_read_count := nd_read_count d + 1\<rparr>
            in (null_entries (int (nd_read_count d') - 1) (nd_canned_metadata d), d')))"

definition null_close :: "null_driver \<Rightarrow> null_driver" where
  "null_close d = d\<lparr>nd_opened := False, nd_closed := True\<rparr>"

definition null_ops :: "(unit, null_driver) driver_ops" where
  "null_ops = \<lparr>drv_open = (\<lambda>_. null_open), drv_read = (\<lambda>_. null_read), drv_close = null_close\<rparr>"

text \<open>
  \<open>DeepStreamDriver\<close>. A sample is the frame number of the batch and the detected objects with
  class and confidence, \<open>None\<close> when the extraction raises; the callback runs on the pipeline's
  own thread, between the calls of the loop.
\<close>

record deepstream_driver =
  ds_pipeline :: bool
  ds_latest_metadata :: "metadata list"

record device =
  dv_exists :: bool
  dv_readable :: bool
  dv_built :: bool
  dv_playing :: bool
  dv_samples :: "(int \<times> (int \<times> rat) list) option list"

definition init_ds :: deepstream_driver where
  "init_ds = \<lparr>ds_pipeline = False, ds_latest_metadata = []\<rparr>"

definition ds_open :: "device \<Rightarrow> deepstream_driver \<Rightarrow> unit res \<times> deepstream_driver" where
  "ds_open dev d =
     (if \<not> dv_exists dev then (Inl DeviceNotFoundError, d)
      else if \<not> dv_readable dev then (Inl DeviceNotFoundError, d)
      else if \<not> dv_built dev then (Inl RuntimeError, d)
      else if \<not> dv_playing dev then (Inl RuntimeError, d\<lparr>ds_pipeline := True\<rparr>)
      else (Inr (), d\<lparr>ds_pipeline := True\<rparr>))"

definition on_new_sample :: "(int \<times> (int \<times> rat) list) option \<Rightarrow> deepstream_driver \<Rightarrow> deepstream_driver" where
  "on_new_sample sample d =
     (case sample of
        None \<Rightarrow> d
      | Some (frame_number, objects) \<Rightarrow>
          (let persons = filter (\<lambda>(class_id, _). class_id = 0) objects; n = length persons in
           d\<lparr>ds_latest_metadata :=
             [[(''frame_seq'', JInt frame_number), (''person_count'', JInt (int n)),
               (''confidence_mean'', JFloat (if 0 < n then mean (map snd persons) else 0)),
               (''frames_processed'', JInt 1), (''frames_dropped'', JInt 0)]]\<rparr>))"

definition ds_read :: "device \<Rightarrow> deepstream_driver \<Rightarrow> metadata list res \<times> deepstream_driver" where
  "ds_read dev d =
     (let d' = fold on_new_sample (dv_samples dev) d
      in (if \<not> ds_pipeline d' then Inl PipelineReadError else Inr (ds_latest_metadata d'), d'))"

definition ds_close :: "deepstream_driver \<Rightarrow> deepstream_driver" where
  "ds_close d = d\<lparr>ds_pipeline := False\<rparr>"

definition ds_ops :: "(device, deepstream_driver) driver_ops" where
  "ds_ops = \<lparr>drv_open = ds_open, drv_read = ds_read, drv_close = ds_close\<rparr>"

text \<open>What the loop relies on: \<open>open\<close> opens, a missing device changes nothing, \<open>close\<close> releases.\<close>

locale pipeline_driver =
  fixes ops :: "('e, 'd) driver_ops" and is_open :: "'d \<Rightarrow> bool"
  assumes opened: "drv_open ops e d = (Inr (), d') \<Longrightarrow> is_open d'"
    and absent: "drv_open ops e d = (Inl DeviceNotFoundError, d') \<Longrightarrow> d' = d"
    and reading: "is_open (snd (drv_read ops e d)) = is_open d"
    and closed: "\<not> is_open (drv_close ops d)"

interpretation null_driver: pipeline_driver null_ops nd_opened
  by unfold_locales
    (auto simp: null_ops_def null_open_def null_read_def null_close_def Let_def split: if_splits)

lemma on_new_sample_pipeline [simp]: "ds_pipeline (fold on_new_sample xs d) = ds_pipeline d"
  by (induction xs arbitrary: d) (auto simp: on_new_sample_def Let_def split: option.splits)

interpretation deepstream: pipeline_driver ds_ops ds_pipeline
  by unfold_locales
    (auto simp: ds_ops_def ds_open_def ds_read_def ds_close_def Let_def split: if_splits)

text \<open>A source whose windows all satisfy \<open>good\<close>, as long as its state satisfies \<open>inv\<close>.\<close>

locale metadata_source =
  fixes ops :: "('e, 'd) driver_ops" and inv :: "'d \<Rightarrow> bool" and good :: "metadata \<Rightarrow> bool"
  assumes inv_open: "inv d \<Longrightarrow> inv (snd (drv_open ops e d))"
    and inv_read: "inv d \<Longrightarrow> inv (snd (drv_read ops e d))"
    and inv_close: "inv d \<Longrightarrow> inv (drv_close ops d)"
    and good_read: "inv d \<Longrightarrow> drv_read ops e d = (Inr ms, d') \<Longrightarrow> list_all good ms"

text \<open>The windows of \<open>DeepStreamDriver\<close> carry neither demographics nor attention.\<close>

definition counts_only :: "metadata \<Rightarrow> bool" where
  "counts_only raw \<longleftrightarrow> map_of raw ''demographics'' = None \<and> map_of raw ''attention'' = None"

definition ds_counts_only :: "deepstream_driver \<Rightarrow> bool" where
  "ds_counts_only d \<longleftrightarrow> list_all counts_only (ds_latest_metadata d)"

lemma on_new_sample_counts_only: "ds_counts_only d \<Longrightarrow> ds_counts_only (fold on_new_sample xs d)"
  by (induction xs arbitrary: d)
    (auto simp: on_new_sample_def ds_counts_only_def counts_only_def Let_def split: option.splits)

interpretation deepstream_counts: metadata_source ds_ops ds_counts_only counts_only
  by unfold_locales
    (auto simp: ds_ops_def ds_open_def ds_read_def ds_close_def Let_def on_new_sample_counts_only
      intro: on_new_sample_counts_only [unfolded ds_counts_only_def] simp del: list_all_iff
      simp: ds_counts_only_def split: if_splits)

interpretation any_source: metadata_source dops "\<lambda>_. True" "\<lambda>_. True" for dops
  by unfold_locales (simp_all add: list_all_iff)

subsection \<open>Publishers\<close>

text \<open>
  A publication comes with the verdict of the client library (\<open>rc = MQTT_ERR_SUCCESS\<close>): on
  failure \<open>MqttPublisher\<close> only logs, and the message is lost.
\<close>

record 'p publisher_ops =
  pub_connect :: "'p \<Rightarrow> 'p"
  pub_publish :: "bool \<Rightarrow> string \<Rightarrow> json \<Rightarrow> 'p \<Rightarrow> 'p"
  pub_disconnect :: "'p \<Rightarrow> 'p"

record publisher_state =
  pb_connected :: bool
  pb_messages :: "(string \<times> json) list"

definition init_pub :: publisher_state where
  "init_pub = \<lparr>pb_connected = False, pb_messages = []\<rparr>"

definition null_publish :: "bool \<Rightarrow> string \<Rightarrow> json \<Rightarrow> publisher_state \<Rightarrow> publisher_state" where
  "null_publish rc_ok topic payload p = p\<lparr>pb_messages := pb_messages p @ [(topic, payload)]\<rparr>"

definition mqtt_publish :: "bool \<Rightarrow> string \<Rightarrow> json \<Rightarrow> publisher_state \<Rightarrow> publisher_state" where
  "mqtt_publish rc_ok topic payload p =
     (if rc_ok then p\<lparr>pb_messages := pb_messages p @ [(topic, payload)]\<rparr> else p)"

definition set_connected :: "bool \<Rightarrow> publisher_state \<Rightarrow> publisher_state" where
  "set_connected b p = p\<lparr>pb_connected := b\<rparr>"

definition null_pub_ops :: "publisher_state publisher_ops" where
  "null_pub_ops = \<lparr>pub_connect = set_connected True, pub_publish = null_publish, pub_disconnect = set_connected False\<rparr>"

definition mqtt_pub_ops :: "publisher_state publisher_ops" where
  "mqtt_pub_ops = \<lparr>pub_connect = set_connected True, pub_publish = mqtt_publish, pub_disconnect = set_connected False\<rparr>"

locale observation_publisher =
  fixes pops :: "'p publisher_ops" and messages :: "'p \<Rightarrow> (string \<times> json) list"
  assumes published: "messages (pub_publish pops ok t m p) = messages p \<or>
      messages (pub_publish pops ok t m p) = messages p @ [(t, m)]"
    and connect_keeps: "messages (pub_connect pops p) = messages p"
    and disconnect_keeps: "messages (pub_disconnect pops p) = messages p"

interpretation null_publisher: observation_publisher null_pub_ops pb_messages
  by unfold_locales (simp_all add: null_pub_ops_def null_publish_def set_connected_def)

interpretation mqtt_publisher: observation_publisher mqtt_pub_ops pb_messages
  by unfold_locales (simp_all add: mqtt_pub_ops_def mqtt_publish_def set_connected_def)

subsection \<open>The supervision loop\<close>

text \<open>What \<open>run\<close> fixes before the loop: the libraries, the identity and the topic.\<close>

record deployment =
  dp_lib :: cv_lib
  dp_context :: observation_context
  dp_topic :: string

datatype camera_phase = Opening | Reading | Ended "unit res"

record ('d, 'p) camera_service =
  iv_phase :: camera_phase
  iv_driver :: 'd
  iv_publisher :: 'p
  iv_health :: health_tracker
  iv_reopen :: reopen_loop
  iv_delays :: "rat list"

text \<open>
  One iteration: the value of the shutdown flag when the loop tests it, the device, the clock,
  and for the n-th window the message id, the timestamp and the verdict of the MQTT client.
\<close>

record 'e camera_event =
  ev_shutdown :: bool
  ev_env :: 'e
  ev_now :: rat
  ev_stamp :: "nat \<Rightarrow> string \<times> string \<times> bool"

text \<open>The \<open>for raw_meta in metadata_list\<close> loop: a privacy violation is logged, other errors escape.\<close>

fun publish_windows :: "'p publisher_ops \<Rightarrow> deployment \<Rightarrow> (nat \<Rightarrow> string \<times> string \<times> bool) \<Rightarrow> nat \<Rightarrow> metadata list
    \<Rightarrow> 'p \<Rightarrow> unit res \<times> 'p" where
  "publish_windows pops dep stamp n [] p = (Inr (), p)"
| "publish_windows pops dep stamp n (raw # raws) p =
     (case stamp n of (message_id, produced_at, rc_ok) \<Rightarrow>
        case build_observation (dp_lib dep) message_id produced_at raw (dp_context dep) of
          Inr ob \<Rightarrow> publish_windows pops dep stamp (Suc n) raws
                      (pub_publish pops rc_ok (dp_topic dep) (observation_json ob) p)
        | Inl PrivacyViolationError \<Rightarrow> publish_windows pops dep stamp (Suc n) raws p
        | Inl e \<Rightarrow> (Inl e, p))"

text \<open>The \<open>finally\<close> block.\<close>

definition camera_stop :: "('e, 'd) driver_ops \<Rightarrow> 'p publisher_ops \<Rightarrow> unit res \<Rightarrow> ('d, 'p) camera_service
    \<Rightarrow> ('d, 'p) camera_service" where
  "camera_stop dops pops r s =
     s\<lparr>iv_phase := Ended r, iv_driver := drv_close dops (iv_driver s),
       iv_publisher := pub_disconnect pops (iv_publisher s)\<rparr>"

text \<open>\<open>reopen_loop.wait_and_record()\<close>, or the return when reopening is disabled.\<close>

definition camera_wait :: "('e, 'd) driver_ops \<Rightarrow> 'p publisher_ops \<Rightarrow> ('d, 'p) camera_service \<Rightarrow> ('d, 'p) camera_service" where
  "camera_wait dops pops s =
     (if \<not> rl_enabled (iv_reopen s) then camera_stop dops pops (Inr ()) s
      else case wait_and_record (iv_reopen s, iv_health s) of
        (delay, rl, h) \<Rightarrow> s\<lparr>iv_phase := Opening, iv_reopen := rl, iv_health := h, iv_delays := iv_delays s @ [delay]\<rparr>)"

definition open_step :: "('e, 'd) driver_ops \<Rightarrow> 'p publisher_ops \<Rightarrow> 'e camera_event \<Rightarrow> ('d, 'p) camera_service
    \<Rightarrow> ('d, 'p) camera_service" where
  "open_step dops pops ev s =
     (case drv_open dops (ev_env ev) (iv_driver s) of
        (Inr _, d) \<Rightarrow>
          s\<lparr>iv_phase := Reading, iv_driver := d, iv_reopen := rl_reset (iv_reopen s),
            iv_health := mark_pipeline_running (ev_now ev) (mark_device_present (iv_health s))\<rparr>
      | (Inl DeviceNotFoundError, d) \<Rightarrow>
          camera_wait dops pops (s\<lparr>iv_driver := d, iv_health := mark_device_absent (iv_health s)\<rparr>)
      | (Inl e, d) \<Rightarrow> camera_stop dops pops (Inl e) (s\<lparr>iv_driver := d\<rparr>))"

definition read_step :: "('e, 'd) driver_ops \<Rightarrow> 'p publisher_ops \<Rightarrow> deployment \<Rightarrow> 'e camera_event
    \<Rightarrow> ('d, 'p) camera_service \<Rightarrow> ('d, 'p) camera_service" where
  "read_step dops pops dep ev s =
     (case drv_read dops (ev_env ev) (iv_driver s) of
        (Inr metas, d) \<Rightarrow>
          (case publish_windows pops dep (ev_stamp ev) 0 metas (iv_publisher s) of (r, p) \<Rightarrow>
             let s' = s\<lparr>iv_driver := d, iv_publisher := p, iv_health := record_frame (ev_now ev) (iv_health s)\<rparr>
             in case r of Inr _ \<Rightarrow> s' | Inl e \<Rightarrow> camera_stop dops pops (Inl e) s')
      | (Inl PipelineReadError, d) \<Rightarrow>
          camera_wait dops pops (s\<lparr>iv_driver := drv_close dops d, iv_health := mark_device_absent (iv_health s)\<rparr>)
      | (Inl e, d) \<Rightarrow> camera_stop dops pops (Inl e) (s\<lparr>iv_driver := d\<rparr>))"

definition camera_step :: "('e, 'd) driver_ops \<Rightarrow> 'p publisher_ops \<Rightarrow> deployment \<Rightarrow> 'e camera_event
    \<Rightarrow> ('d, 'p) camera_service \<Rightarrow> ('d, 'p) camera_service" where
  "camera_step dops pops dep ev s =
     (case iv_phase s of
        Ended r \<Rightarrow> s
      | Opening \<Rightarrow> if ev_shutdown ev then camera_stop dops pops (Inr ()) s else open_step dops pops ev s
      | Reading \<Rightarrow> if ev_shutdown ev then camera_stop dops pops (Inr ()) s else read_step dops pops dep ev s)"

definition camera_run :: "('e, 'd) driver_ops \<Rightarrow> 'p publisher_ops \<Rightarrow> deployment \<Rightarrow> 'e camera_event list
    \<Rightarrow> ('d, 'p) camera_service \<Rightarrow> ('d, 'p) camera_service" where
  "camera_run dops pops dep evs s = fold (camera_step dops pops dep) evs s"

subsection \<open>Start-up\<close>

datatype pipeline_backend = NullBackend | DeepStreamBackend

definition environ_get :: "(string \<Rightarrow> string option) \<Rightarrow> string \<Rightarrow> string \<Rightarrow> string" where
  "environ_get env k v = (case env k of Some s \<Rightarrow> s | None \<Rightarrow> v)"

definition build_pipeline_driver :: "(string \<Rightarrow> string option) \<Rightarrow> bool \<Rightarrow> pipeline_backend res" where
  "build_pipeline_driver env importable =
     (if ascii_lower (environ_get env ''INPUT_CV_PIPELINE_BACKEND'' ''deepstream'') = ''null'' then Inr NullBackend
      else if importable then Inr DeepStreamBackend else Inl RuntimeError)"

definition environ_int :: "(string \<Rightarrow> int option) \<Rightarrow> (string \<Rightarrow> string option) \<Rightarrow> string \<Rightarrow> string \<Rightarrow> int res" where
  "environ_int parse_int env k v = (case parse_int (environ_get env k v) of Some n \<Rightarrow> Inr n | None \<Rightarrow> Inl ValueError)"

definition environ_index :: "(string \<Rightarrow> string option) \<Rightarrow> string \<Rightarrow> string res" where
  "environ_index env k = (case env k of Some s \<Rightarrow> Inr s | None \<Rightarrow> Inl (KeyError k))"

text \<open>\<open>run\<close> up to the loop: nothing (a disabled camera), or the deployment and the first state.\<close>

definition camera_boot :: "cv_lib \<Rightarrow> (string \<Rightarrow> int option) \<Rightarrow> (string \<Rightarrow> string option) \<Rightarrow> 'd res \<Rightarrow> 'p publisher_ops
    \<Rightarrow> 'p \<Rightarrow> bool \<Rightarrow> camera_config res \<Rightarrow> (deployment \<times> ('d, 'p) camera_service) option res" where
  "camera_boot lib parse_int env driver pops pub connect_ok config =
     res_bind config (\<lambda>cfg.
     if \<not> cc_enabled cfg then Inr None
     else
       res_bind (environ_index env ''TENANT_ID'') (\<lambda>tenant_id.
       res_bind (environ_index env ''SITE_ID'') (\<lambda>site_id.
       let pipeline_id = environ_get env ''PIPELINE_ID'' ''pipeline-01'';
           ctx = \<lparr>cx_tenant_id = tenant_id, cx_site_id = site_id, cx_camera_id = cc_camera_id cfg,
                  cx_pipeline_id = pipeline_id\<rparr>;
           topic = ''cv/v1/observations/'' @ tenant_id @ ''/'' @ site_id @ ''/'' @ cc_camera_id cfg in
       res_bind (environ_int parse_int env ''INPUT_CV_HEALTH_PORT'' ''8006'') (\<lambda>_.
       res_bind driver (\<lambda>d.
       res_bind (environ_int parse_int env ''MQTT_PORT'' ''1883'') (\<lambda>_.
       if \<not> connect_ok then Inl OSError
       else Inr (Some
         (\<lparr>dp_lib = lib, dp_context = ctx, dp_topic = topic\<rparr>,
          \<lparr>iv_phase = Opening, iv_driver = d, iv_publisher = pub_connect pops pub,
           iv_health = init_ht (cc_camera_id cfg) pipeline_id,
           iv_reopen = (case cc_reopen cfg of (enabled, initial, cap) \<Rightarrow>
             \<lparr>rl_initial_ms = initial, rl_max_ms = cap, rl_enabled = enabled, rl_attempt = 0\<rparr>),
           iv_delays = []\<rparr>))))))))"

subsection \<open>The loop keeps the device, the health and the backoff consistent\<close>

definition delay_ok :: "reopen_loop \<Rightarrow> rat \<Rightarrow> bool" where
  "delay_ok rl d \<longleftrightarrow> of_int (min (rl_initial_ms rl) (rl_max_ms rl)) / 1000 \<le> d \<and> d \<le> of_int (rl_max_ms rl) / 1000"

definition camera_inv :: "('d \<Rightarrow> bool) \<Rightarrow> ('d, 'p) camera_service \<Rightarrow> bool" where
  "camera_inv is_open s \<longleftrightarrow>
     (case iv_phase s of
        Opening \<Rightarrow> \<not> is_open (iv_driver s) \<and> \<not> ht_device_present (iv_health s) \<and>
          ht_pipeline_state (iv_health s) = (if iv_delays s = [] then STARTING else REOPENING)
      | Reading \<Rightarrow> is_open (iv_driver s) \<and> ht_device_present (iv_health s) \<and>
          ht_pipeline_state (iv_health s) = RUNNING \<and> rl_attempt (iv_reopen s) = 0
      | Ended r \<Rightarrow> \<not> is_open (iv_driver s)) \<and>
     ht_reopen_count (iv_health s) = length (iv_delays s) \<and>
     0 < rl_initial_ms (iv_reopen s) \<and> 0 < rl_max_ms (iv_reopen s) \<and>
     list_all (delay_ok (iv_reopen s)) (iv_delays s)"

named_theorems health_defs \<open>the mutators of the health tracker\<close>

declare mark_device_present_def [health_defs] mark_device_absent_def [health_defs]
  mark_pipeline_running_def [health_defs] record_frame_def [health_defs] increment_reopen_def [health_defs]

lemma delay_ok_frame [simp]:
  "delay_ok (rl\<lparr>rl_attempt := n\<rparr>) = delay_ok rl"
  by (rule ext) (simp add: delay_ok_def)

lemma next_delay_ok:
  "0 < rl_initial_ms rl \<Longrightarrow> 0 < rl_max_ms rl \<Longrightarrow>
   delay_ok rl (next_backoff_seconds n (rl_initial_ms rl) (rl_max_ms rl))"
  using backoff_bounds by (simp add: delay_ok_def)

context pipeline_driver
begin

text \<open>Before waiting the device is closed and absent; the counters are those of the phase before.\<close>

lemma inv_wait:
  assumes "\<not> is_open (iv_driver s)" and "\<not> ht_device_present (iv_health s)"
    and "ht_reopen_count (iv_health s) = length (iv_delays s)"
    and "0 < rl_initial_ms (iv_reopen s)" and "0 < rl_max_ms (iv_reopen s)"
    and "list_all (delay_ok (iv_reopen s)) (iv_delays s)"
  shows "camera_inv is_open (camera_wait ops pops s)"
  using assms next_delay_ok
  by (simp add: camera_wait_def camera_stop_def camera_inv_def wait_and_record_def health_defs closed)

lemma inv_stop:
  "camera_inv is_open s \<Longrightarrow> camera_inv is_open (camera_stop ops pops r (s\<lparr>iv_driver := d\<rparr>))"
  by (simp add: camera_inv_def camera_stop_def closed)

lemma inv_open_step:
  assumes "camera_inv is_open s" and "iv_phase s = Opening"
  shows "camera_inv is_open (open_step ops pops ev s)"
proof -
  obtain r d where o: "drv_open ops (ev_env ev) (iv_driver s) = (r, d)" by (cases "drv_open ops (ev_env ev) (iv_driver s)")
  show ?thesis
  proof (cases r)
    case (Inr u)
    with o opened [of "ev_env ev" "iv_driver s" d] assms show ?thesis
      by (simp add: open_step_def camera_inv_def rl_reset_def health_defs)
  next
    case (Inl e)
    show ?thesis
    proof (cases "e = DeviceNotFoundError")
      case True
      with o Inl absent have d: "d = iv_driver s" by simp
      have "open_step ops pops ev s = camera_wait ops pops (s\<lparr>iv_health := mark_device_absent (iv_health s)\<rparr>)"
        using True o Inl d by (simp add: open_step_def)
      moreover have "camera_inv is_open \<dots>"
        using assms by (intro inv_wait) (simp_all add: camera_inv_def health_defs)
      ultimately show ?thesis by simp
    next
      case False
      with o Inl inv_stop [OF assms(1)] show ?thesis
        by (cases e) (simp_all add: open_step_def)
    qed
  qed
qed

lemma inv_read_step:
  assumes "camera_inv is_open s" and "iv_phase s = Reading"
  shows "camera_inv is_open (read_step ops pops dep ev s)"
proof -
  obtain r d where o: "drv_read ops (ev_env ev) (iv_driver s) = (r, d)" by (cases "drv_read ops (ev_env ev) (iv_driver s)")
  have d: "is_open d" using reading [of "ev_env ev" "iv_driver s"] o assms by (simp add: camera_inv_def)
  show ?thesis
  proof (cases r)
    case (Inr metas)
    obtain q p where "publish_windows pops dep (ev_stamp ev) 0 metas (iv_publisher s) = (q, p)"
      by (cases "publish_windows pops dep (ev_stamp ev) 0 metas (iv_publisher s)")
    with o Inr assms d show ?thesis
      by (cases q) (simp_all add: read_step_def camera_inv_def camera_stop_def health_defs Let_def closed)
  next
    case (Inl e)
    show ?thesis
    proof (cases "e = PipelineReadError")
      case True
      have "read_step ops pops dep ev s =
          camera_wait ops pops (s\<lparr>iv_driver := drv_close ops d, iv_health := mark_device_absent (iv_health s)\<rparr>)"
        using True o Inl by (simp add: read_step_def)
      moreover have "camera_inv is_open \<dots>"
        using assms closed by (intro inv_wait) (simp_all add: camera_inv_def health_defs)
      ultimately show ?thesis by simp
    next
      case False
      with o Inl inv_stop [OF assms(1)] show ?thesis
        by (cases e) (simp_all add: read_step_def)
    qed
  qed
qed

lemma inv_run: "camera_inv is_open s \<Longrightarrow> camera_inv is_open (camera_run ops pops dep evs s)"
proof (induction evs arbitrary: s)
  case (Cons ev evs)
  have "camera_inv is_open (camera_step ops pops dep ev s)"
    using Cons.prems inv_open_step inv_read_step inv_stop [of s _ _ "iv_driver s"]
    by (auto simp: camera_step_def split: camera_phase.split)
  with Cons.IH show ?case by (simp add: camera_run_def)
qed (simp add: camera_run_def)

end

subsection \<open>What reaches the broker\<close>

locale camera_pipe = metadata_source ops inv good + observation_publisher pops messages
  for ops :: "('e, 'd) driver_ops" and inv :: "'d \<Rightarrow> bool" and good :: "metadata \<Rightarrow> bool"
    and pops :: "'p publisher_ops" and messages :: "'p \<Rightarrow> (string \<times> json) list"
begin

definition sends_only :: "deployment \<Rightarrow> (string \<times> json \<Rightarrow> bool) \<Rightarrow> bool" where
  "sends_only dep Q \<longleftrightarrow>
     (\<forall>i t raw ob. good raw \<longrightarrow> build_observation (dp_lib dep) i t raw (dp_context dep) = Inr ob \<longrightarrow>
        Q (dp_topic dep, observation_json ob))"

lemma windows_messages:
  assumes "sends_only dep Q" and "list_all good raws" and "list_all Q (messages p)"
  shows "list_all Q (messages (snd (publish_windows pops dep stamp n raws p)))"
  using assms(2,3)
proof (induction raws arbitrary: n p)
  case (Cons raw raws)
  obtain i t ok where st: "stamp n = (i, t, ok)" by (cases "stamp n")
  show ?case
  proof (cases "build_observation (dp_lib dep) i t raw (dp_context dep)")
    case (Inl e)
    with Cons st show ?thesis by (cases e) auto
  next
    case (Inr ob)
    with assms(1) Cons.prems have "Q (dp_topic dep, observation_json ob)" by (auto simp: sends_only_def)
    with published [of ok "dp_topic dep" "observation_json ob" p] Cons.prems
    have "list_all Q (messages (pub_publish pops ok (dp_topic dep) (observation_json ob) p))" by auto
    with Inr Cons st show ?thesis by simp
  qed
qed simp

definition pipe_inv :: "(string \<times> json \<Rightarrow> bool) \<Rightarrow> ('d, 'p) camera_service \<Rightarrow> bool" where
  "pipe_inv Q s \<longleftrightarrow> inv (iv_driver s) \<and> list_all Q (messages (iv_publisher s))"

lemma pipe_stop: "pipe_inv Q s \<Longrightarrow> pipe_inv Q (camera_stop ops pops r s)"
  by (simp add: pipe_inv_def camera_stop_def inv_close disconnect_keeps)

lemma pipe_wait: "pipe_inv Q s \<Longrightarrow> pipe_inv Q (camera_wait ops pops s)"
  using pipe_stop [of Q s] by (simp add: camera_wait_def wait_and_record_def pipe_inv_def)

lemma pipe_open:
  assumes "pipe_inv Q s"
  shows "pipe_inv Q (open_step ops pops ev s)"
proof -
  obtain r d where o: "drv_open ops (ev_env ev) (iv_driver s) = (r, d)" by (cases "drv_open ops (ev_env ev) (iv_driver s)")
  then have i: "pipe_inv Q (s\<lparr>iv_driver := d\<rparr>)"
    using assms inv_open [of "iv_driver s" "ev_env ev"] by (simp add: pipe_inv_def)
  show ?thesis
  proof (cases r)
    case (Inl e)
    have "pipe_inv Q (s\<lparr>iv_driver := d, iv_health := h\<rparr>)" for h using i by (simp add: pipe_inv_def)
    with Inl o pipe_wait pipe_stop [OF i] show ?thesis by (cases e) (simp_all add: open_step_def)
  next
    case (Inr u)
    with o i show ?thesis by (simp add: open_step_def pipe_inv_def)
  qed
qed

lemma pipe_read:
  assumes "sends_only dep Q" and "pipe_inv Q s"
  shows "pipe_inv Q (read_step ops pops dep ev s)"
proof -
  obtain r d where o: "drv_read ops (ev_env ev) (iv_driver s) = (r, d)" by (cases "drv_read ops (ev_env ev) (iv_driver s)")
  then have i: "pipe_inv Q (s\<lparr>iv_driver := d\<rparr>)"
    using assms inv_read [of "iv_driver s" "ev_env ev"] by (simp add: pipe_inv_def)
  show ?thesis
  proof (cases r)
    case (Inl e)
    have "pipe_inv Q (s\<lparr>iv_driver := drv_close ops d, iv_health := h\<rparr>)" for h
      using i inv_close by (simp add: pipe_inv_def)
    with Inl o pipe_wait pipe_stop [OF i] show ?thesis by (cases e) (simp_all add: read_step_def)
  next
    case (Inr metas)
    obtain q p where w: "publish_windows pops dep (ev_stamp ev) 0 metas (iv_publisher s) = (q, p)"
      by (cases "publish_windows pops dep (ev_stamp ev) 0 metas (iv_publisher s)")
    have "list_all good metas" using good_read assms(2) o Inr by (auto simp: pipe_inv_def)
    with windows_messages [OF assms(1), of metas "iv_publisher s" "ev_stamp ev" 0] w assms(2)
    have j: "pipe_inv Q (s\<lparr>iv_driver := d, iv_publisher := p, iv_health := h\<rparr>)" for h
      using i by (simp add: pipe_inv_def)
    show ?thesis
      using o Inr w j pipe_stop [OF j] by (cases q) (simp_all add: read_step_def Let_def)
  qed
qed

lemma pipe_run:
  "sends_only dep Q \<Longrightarrow> pipe_inv Q s \<Longrightarrow> pipe_inv Q (camera_run ops pops dep evs s)"
proof (induction evs arbitrary: s)
  case (Cons ev evs)
  have "pipe_inv Q (camera_step ops pops dep ev s)"
    using Cons.prems pipe_stop pipe_open pipe_read by (auto simp: camera_step_def split: camera_phase.split)
  with Cons show ?case by (simp add: camera_run_def)
qed (simp add: camera_run_def)

lemma messages_run:
  assumes "sends_only dep Q" and "inv (iv_driver s)" and "messages (iv_publisher s) = []"
  shows "list_all Q (messages (iv_publisher (camera_run ops pops dep evs s)))"
  using pipe_run [OF assms(1), of s evs] assms(2,3) by (simp add: pipe_inv_def)

end

interpretation deepstream_mqtt: camera_pipe ds_ops ds_counts_only counts_only mqtt_pub_ops pb_messages ..

interpretation any_mqtt: camera_pipe dops "\<lambda>_. True" "\<lambda>_. True" mqtt_pub_ops pb_messages for dops ..

interpretation null_null: camera_pipe null_ops "\<lambda>_. True" "\<lambda>_. True" null_pub_ops pb_messages ..

lemma camera_boot_state:
  assumes "camera_boot lib parse_int env driver pops pub ok config = Inr (Some (dep, s))"
  shows "iv_phase s = Opening" "driver = Inr (iv_driver s)" "iv_publisher s = pub_connect pops pub"
    "iv_delays s = []" "ht_reopen_count (iv_health s) = 0" "ht_pipeline_state (iv_health s) = STARTING"
    "\<not> ht_device_present (iv_health s)" "dp_lib dep = lib"
    "\<exists>cfg. config = Inr cfg \<and> (case cc_reopen cfg of (_, i, c) \<Rightarrow>
       rl_initial_ms (iv_reopen s) = i \<and> rl_max_ms (iv_reopen s) = c)"
  using assms by (auto simp: camera_boot_def res_bind_Inr Let_def init_ht_def split: if_splits prod.splits)

subsection \<open>The windows a message can come from\<close>

text \<open>The windows the driver hands to the loop during a run, in order.\<close>

definition windows_read :: "('e, 'd) driver_ops \<Rightarrow> 'e camera_event \<Rightarrow> ('d, 'p) camera_service \<Rightarrow> metadata list" where
  "windows_read dops ev s =
     (if iv_phase s = Reading \<and> \<not> ev_shutdown ev
      then (case fst (drv_read dops (ev_env ev) (iv_driver s)) of Inr metas \<Rightarrow> metas | Inl e \<Rightarrow> [])
      else [])"

fun camera_reads :: "('e, 'd) driver_ops \<Rightarrow> 'p publisher_ops \<Rightarrow> deployment \<Rightarrow> 'e camera_event list
    \<Rightarrow> ('d, 'p) camera_service \<Rightarrow> metadata list" where
  "camera_reads dops pops dep [] s = []"
| "camera_reads dops pops dep (ev # evs) s =
     windows_read dops ev s @ camera_reads dops pops dep evs (camera_step dops pops dep ev s)"

definition without_banned :: "metadata \<Rightarrow> bool" where
  "without_banned raw \<longleftrightarrow> list_all (\<lambda>k. k \<notin> set (dict_keys raw)) banned_metadata_keys"

definition sent_for :: "deployment \<Rightarrow> metadata \<Rightarrow> string \<times> json \<Rightarrow> bool" where
  "sent_for dep raw tm \<longleftrightarrow>
     (\<exists>i t ob. build_observation (dp_lib dep) i t raw (dp_context dep) = Inr ob \<and>
        tm = (dp_topic dep, observation_json ob))"

text \<open>\<open>ms\<close> are messages for some of the windows \<open>raws\<close> without a banned key, at most one each, in order.\<close>

definition sent_in_order :: "deployment \<Rightarrow> metadata list \<Rightarrow> (string \<times> json) list \<Rightarrow> bool" where
  "sent_in_order dep raws ms \<longleftrightarrow>
     (\<exists>rs. subseq rs (filter without_banned raws) \<and> list_all2 (sent_for dep) rs ms)"

lemma sent_in_order_Nil [simp]: "sent_in_order dep raws []"
  by (auto simp: sent_in_order_def intro: exI [of _ "[]"])

lemma sent_in_order_append:
  assumes "sent_in_order dep raws ms" "sent_in_order dep raws' ms'"
  shows "sent_in_order dep (raws @ raws') (ms @ ms')"
proof -
  obtain rs rs' where "subseq rs (filter without_banned raws)" "list_all2 (sent_for dep) rs ms"
    "subseq rs' (filter without_banned raws')" "list_all2 (sent_for dep) rs' ms'"
    using assms by (auto simp: sent_in_order_def)
  then have "subseq (rs @ rs') (filter without_banned (raws @ raws'))" "list_all2 (sent_for dep) (rs @ rs') (ms @ ms')"
    by (auto intro: list_emb_append_mono list_all2_appendI)
  then show ?thesis unfolding sent_in_order_def by blast
qed

lemma sent_in_order_one:
  assumes "build_observation (dp_lib dep) i t raw (dp_context dep) = Inr ob"
  shows "sent_in_order dep [raw] [(dp_topic dep, observation_json ob)]"
proof -
  have "check_banned_keys raw = Inr ()" using build_observation_ok(7) [OF assms] .
  then have "without_banned raw"
    by (simp add: check_banned_keys_def without_banned_def list_all_iff list_ex_iff split: if_splits)
  moreover have "sent_for dep raw (dp_topic dep, observation_json ob)" using assms unfolding sent_for_def by blast
  ultimately show ?thesis
    by (auto simp: sent_in_order_def intro!: exI [of _ "[raw]"])
qed

context observation_publisher
begin

lemma windows_in_order:
  "\<exists>ms. messages (snd (publish_windows pops dep stamp n raws p)) = messages p @ ms \<and> sent_in_order dep raws ms"
proof (induction raws arbitrary: n p)
  case Nil
  show ?case by simp
next
  case (Cons raw raws)
  obtain i t ok where st: "stamp n = (i, t, ok)" by (cases "stamp n")
  show ?case
  proof (cases "build_observation (dp_lib dep) i t raw (dp_context dep)")
    case (Inl e)
    obtain ms where ms: "messages (snd (publish_windows pops dep stamp (Suc n) raws p)) = messages p @ ms"
      "sent_in_order dep raws ms" using Cons.IH by blast
    have "sent_in_order dep (raw # raws) ms" using sent_in_order_append [OF _ ms(2), of "[raw]" "[]"] by simp
    with Inl st ms(1) show ?thesis by (cases e) auto
  next
    case (Inr ob)
    let ?m = "(dp_topic dep, observation_json ob)"
    let ?p = "pub_publish pops ok (fst ?m) (snd ?m) p"
    obtain ms where ms: "messages (snd (publish_windows pops dep stamp (Suc n) raws ?p)) = messages ?p @ ms"
      "sent_in_order dep raws ms" using Cons.IH by blast
    obtain ns where ns: "messages ?p = messages p @ ns" "sent_in_order dep [raw] ns"
      using published [of ok "fst ?m" "snd ?m" p] sent_in_order_one [OF Inr] by (metis append_Nil2 prod.collapse sent_in_order_Nil)
    have "sent_in_order dep (raw # raws) (ns @ ms)" using sent_in_order_append [OF ns(2) ms(2)] by simp
    with Inr st ms(1) ns(1) show ?thesis by (auto intro!: exI [of _ "ns @ ms"])
  qed
qed

lemma step_in_order:
  "\<exists>ms. messages (iv_publisher (camera_step dops pops dep ev s)) = messages (iv_publisher s) @ ms \<and>
     sent_in_order dep (windows_read dops ev s) ms"
proof -
  have stop: "messages (iv_publisher (camera_stop dops pops r w)) = messages (iv_publisher w)" for r w
    by (simp add: camera_stop_def disconnect_keeps)
  have wait: "messages (iv_publisher (camera_wait dops pops w)) = messages (iv_publisher w)" for w
    by (simp add: camera_wait_def stop wait_and_record_def)
  have open_keeps: "messages (iv_publisher (open_step dops pops ev s)) = messages (iv_publisher s)"
    by (auto simp: open_step_def stop wait split: prod.split sum.split py_error.split)
  have read: "\<exists>ms. messages (iv_publisher (read_step dops pops dep ev s)) = messages (iv_publisher s) @ ms \<and>
      sent_in_order dep (case fst (drv_read dops (ev_env ev) (iv_driver s)) of Inr metas \<Rightarrow> metas | Inl e \<Rightarrow> []) ms"
  proof -
    obtain r d where o: "drv_read dops (ev_env ev) (iv_driver s) = (r, d)" by (cases "drv_read dops (ev_env ev) (iv_driver s)")
    show ?thesis
    proof (cases r)
      case (Inl e)
      with o stop wait show ?thesis by (cases e) (auto simp: read_step_def intro: exI [of _ "[]"])
    next
      case (Inr metas)
      obtain q p where w: "publish_windows pops dep (ev_stamp ev) 0 metas (iv_publisher s) = (q, p)"
        by (cases "publish_windows pops dep (ev_stamp ev) 0 metas (iv_publisher s)")
      have "messages (iv_publisher (read_step dops pops dep ev s)) = messages p"
        using o Inr w by (cases q) (simp_all add: read_step_def Let_def stop)
      with windows_in_order [of dep "ev_stamp ev" 0 metas "iv_publisher s"] w o Inr show ?thesis by simp
    qed
  qed
  show ?thesis
    using read open_keeps stop by (auto simp: camera_step_def windows_read_def split: camera_phase.split)
qed

lemma run_in_order:
  "\<exists>ms. messages (iv_publisher (camera_run dops pops dep evs s)) = messages (iv_publisher s) @ ms \<and>
     sent_in_order dep (camera_reads dops pops dep evs s) ms"
proof (induction evs arbitrary: s)
  case Nil
  show ?case by (simp add: camera_run_def)
next
  case (Cons ev evs)
  let ?s = "camera_step dops pops dep ev s"
  obtain ms where ms: "messages (iv_publisher ?s) = messages (iv_publisher s) @ ms"
    "sent_in_order dep (windows_read dops ev s) ms" using step_in_order by blast
  obtain ns where ns: "messages (iv_publisher (camera_run dops pops dep evs ?s)) = messages (iv_publisher ?s) @ ns"
    "sent_in_order dep (camera_reads dops pops dep evs ?s) ns" using Cons.IH by blast
  have "camera_run dops pops dep (ev # evs) s = camera_run dops pops dep evs ?s" by (simp add: camera_run_def)
  with ms(1) ns(1) sent_in_order_append [OF ms(2) ns(2)] show ?case by auto
qed

end

subsection \<open>Privacy of the published messages\<close>

text \<open>A number, a truth value or \<open>null\<close>; the values of a distribution; a block or \<open>null\<close>.\<close>

fun scalar :: "json \<Rightarrow> bool" where
  "scalar (JStr s) = False"
| "scalar (JArr xs) = False"
| "scalar (JObj d) = False"
| "scalar _ = True"

definition distribution :: "json \<Rightarrow> bool" where
  "distribution j = (case j of JNull \<Rightarrow> True | JObj d \<Rightarrow> list_all (\<lambda>(k, v). scalar v) d | _ \<Rightarrow> False)"

definition block_of :: "string list \<Rightarrow> (string \<times> (json \<Rightarrow> bool)) list \<Rightarrow> json \<Rightarrow> bool" where
  "block_of scalars props j \<longleftrightarrow> j = JNull \<or> schema_object [] (map (\<lambda>k. (k, scalar)) scalars @ props) j"

text \<open>
  What a message may consist of: the named fields and no other, at every level; the texts are the
  identity of the deployment, the message identifier and the timestamp; every other value is a
  number, a truth value or \<open>null\<close>. Only the names of the bins of the three distributions are not fixed.
\<close>

definition observation_private :: "observation_context \<Rightarrow> json \<Rightarrow> bool" where
  "observation_private ctx m \<longleftrightarrow>
     schema_object [''privacy'']
       [(''schema_version'', \<lambda>v. v = JStr ''1.0.0''), (''message_type'', \<lambda>v. v = JStr ''cv_observation''),
        (''message_id'', str_where (\<lambda>_. True)), (''produced_at'', str_where (\<lambda>_. True)),
        (''tenant_id'', \<lambda>v. v = JStr (cx_tenant_id ctx)), (''site_id'', \<lambda>v. v = JStr (cx_site_id ctx)),
        (''camera_id'', \<lambda>v. v = JStr (cx_camera_id ctx)), (''pipeline_id'', \<lambda>v. v = JStr (cx_pipeline_id ctx)),
        (''frame_seq'', scalar), (''window_ms'', scalar), (''counts'', block_of [''present'', ''confidence''] []),
        (''demographics'', block_of [''dwell_estimate_ms'', ''suppressed'']
           [(''age_group'', distribution), (''gender'', distribution), (''attire'', distribution)]),
        (''attention'', block_of [''engaged'', ''ambient''] []),
        (''quality'', block_of [''frames_processed'', ''frames_dropped'', ''pipeline_degraded''] []),
        (''privacy'', \<lambda>v. v = JObj [(''contains_images'', JBool False), (''contains_frame_urls'', JBool False),
           (''contains_face_embeddings'', JBool False)])] m"

lemma distribution_num_obj [simp]: "distribution (opt_json num_obj v)"
  by (auto simp: distribution_def opt_json_def num_obj_def list_all_iff split: option.split)

lemma scalar_opt [simp]:
  "scalar (opt_json JInt n)" "scalar (opt_json JFloat x)" "scalar (opt_json JBool b)"
  by (simp_all add: opt_json_def split: option.split)

lemma block_of_dump [simp]:
  "block_of [''dwell_estimate_ms'', ''suppressed'']
     [(''age_group'', distribution), (''gender'', distribution), (''attire'', distribution)] (opt_json demographics_dump v)"
  "block_of [''engaged'', ''ambient''] [] (opt_json attention_dump w)"
  "block_of [''frames_processed'', ''frames_dropped'', ''pipeline_degraded''] [] (quality_dump q)"
  by (simp_all add: block_of_def schema_object_def opt_json_def [of demographics_dump] opt_json_def [of attention_dump]
      demographics_dump_def attention_dump_def quality_dump_def split: option.split)

lemma built_private:
  assumes "build_observation lib i t raw ctx = Inr ob"
  shows "observation_private ctx (observation_json ob)"
proof -
  have "cv_context ob = ctx" "cv_privacy ob = default_privacy"
    using build_observation_ok [OF assms] by (simp_all add: observation_ok_def)
  then show ?thesis
    by (simp add: observation_private_def observation_json_def schema_object_def [of "[''privacy'']"] dict_keys_def str_where_def
        privacy_dump_def default_privacy_def block_of_def [of "[''present'', ''confidence'']"])
      (simp add: schema_object_def)
qed


definition sample_env :: "string \<Rightarrow> string option" where
  "sample_env k = map_of [(''TENANT_ID'', ''t''), (''SITE_ID'', ''s'')] k"

definition sample_port :: "string \<Rightarrow> int option" where
  "sample_port _ = Some 8006"

definition sample_config :: "camera_config res" where
  "sample_config = load_camera_config sample_pydantic True (\<lambda>_. [])
     (Some (Some (JObj [(''schema_version'', JStr ''1.1.0''), (''camera_id'', JStr ''cam''),
        (''source_type'', JStr ''local_v4l2''), (''device_path'', JStr ''/dev/video0''), (''enabled'', JBool True),
        (''pixel_format'', JStr ''NV12''), (''width'', JInt 1920), (''height'', JInt 1080), (''fps'', JInt 30)])))"

definition sample_dep :: deployment where
  "sample_dep = \<lparr>dp_lib = sample_lib,
     dp_context = \<lparr>cx_tenant_id = ''t'', cx_site_id = ''s'', cx_camera_id = ''cam'', cx_pipeline_id = ''pipeline-01''\<rparr>,
     dp_topic = ''cv/v1/observations/t/s/cam''\<rparr>"

definition sample_start :: "'d \<Rightarrow> ('d, publisher_state) camera_service" where
  "sample_start d =
     \<lparr>iv_phase = Opening, iv_driver = d, iv_publisher = \<lparr>pb_connected = True, pb_messages = []\<rparr>,
      iv_health = init_ht ''cam'' ''pipeline-01'',
      iv_reopen = \<lparr>rl_initial_ms = 500, rl_max_ms = 10000, rl_enabled = True, rl_attempt = 0\<rparr>, iv_delays = []\<rparr>"

lemma sample_boot:
  "camera_boot sample_lib sample_port sample_env (Inr d) mqtt_pub_ops init_pub True sample_config =
     Inr (Some (sample_dep, sample_start d))"
proof -
  have c: "sample_config = Inr \<lparr>cc_camera_id = ''cam'', cc_device_path = ''/dev/video0'', cc_enabled = True,
     cc_pixel_format = ''NV12'', cc_width = 1920, cc_height = 1080, cc_fps = 30, cc_startup_timeout_ms = 10000,
     cc_read_timeout_ms = 3000, cc_reopen = (True, 500, 10000), cc_notes = []\<rparr>"
    by code_simp
  show ?thesis
    by (simp add: c camera_boot_def environ_index_def environ_get_def environ_int_def sample_env_def sample_port_def
        sample_dep_def sample_start_def mqtt_pub_ops_def set_connected_def init_pub_def Let_def)
qed

definition sample_device :: "int \<Rightarrow> device" where
  "sample_device n = \<lparr>dv_exists = True, dv_readable = True, dv_built = True, dv_playing = True,
     dv_samples = (if n = 0 then [] else [Some (n, [(0, 9/10), (2, 1/2)])])\<rparr>"

definition sample_event :: "int \<Rightarrow> device camera_event" where
  "sample_event n = \<lparr>ev_shutdown = False, ev_env = sample_device n, ev_now = of_int n,
     ev_stamp = (\<lambda>_. (''id-'' @ show_int n, ''t'', True))\<rparr>"

definition sample_run :: "int list \<Rightarrow> (deepstream_driver, publisher_state) camera_service" where
  "sample_run ns = camera_run ds_ops mqtt_pub_ops sample_dep (map sample_event ns) (sample_start init_ds)"


subsection \<open>The messages of the DeepStream pipeline\<close>

lemma incomplete_rejected:
  assumes "build_observation lib i t raw ctx = Inr ob" and "counts_only raw"
  shows "oc_process (errs_of cv_observation_contract) now (Decoded (observation_json ob)) oc =
    (Inr False, oc\<lparr>oc_total_rejected := oc_total_rejected oc + 1\<rparr>)"
proof -
  have "\<not> complete ob"
    using build_observation_absent(1) [OF assms(1)] assms(2) by (simp add: counts_only_def complete_def)
  then show ?thesis
    using contract_iff_complete [OF build_observation_ok(1) [OF assms(1)]] by (simp add: oc_process_def)
qed

text \<open>
  C23. End to end over both services: whatever the camera sees, every message the camera
  service publishes with the DeepStream driver is rejected by the consumer of the
  audience-state service. The driver reports counts only, \<open>model_dump_json\<close> writes the absent
  demographics and attention blocks as \<open>null\<close>, and the contract admits objects there.
\<close>

theorem deepstream_observations_rejected:
  assumes "camera_boot lib parse_int env (Inr init_ds) mqtt_pub_ops init_pub ok config = Inr (Some (dep, s))"
  shows "list_all (\<lambda>(t, m). oc_process (errs_of cv_observation_contract) now (Decoded m) oc =
      (Inr False, oc\<lparr>oc_total_rejected := oc_total_rejected oc + 1\<rparr>))
    (pb_messages (iv_publisher (camera_run ds_ops mqtt_pub_ops dep evs s)))"
proof (rule deepstream_mqtt.messages_run)
  show "deepstream_mqtt.sends_only dep (\<lambda>(t, m). oc_process (errs_of cv_observation_contract) now (Decoded m) oc =
      (Inr False, oc\<lparr>oc_total_rejected := oc_total_rejected oc + 1\<rparr>))"
    by (auto simp: deepstream_mqtt.sends_only_def incomplete_rejected)
  show "ds_counts_only (iv_driver s)"
    using camera_boot_state(2) [OF assms] by (auto simp: ds_counts_only_def init_ds_def dest: sym)
  show "pb_messages (iv_publisher s) = []"
    using camera_boot_state(3) [OF assms] mqtt_publisher.connect_keeps by (simp add: init_pub_def)
qed

theorem deepstream_observations_rejected_witness:
  "length (pb_messages (iv_publisher (sample_run [1, 2, 3]))) = 2 \<and>
   list_all (\<lambda>(t, m). oc_process (errs_of cv_observation_contract) 0 (Decoded m) (init_oc sample_window) =
      (Inr False, (init_oc sample_window)\<lparr>oc_total_rejected := oc_total_rejected (init_oc sample_window) + 1\<rparr>))
    (pb_messages (iv_publisher (sample_run [1, 2, 3])))"
proof
  show "length (pb_messages (iv_publisher (sample_run [1, 2, 3]))) = 2" by code_simp
qed (use deepstream_observations_rejected [OF sample_boot, of 0 "init_oc sample_window" "map sample_event [1, 2, 3]"]
     in \<open>simp add: sample_run_def\<close>)

text \<open>
  From start-up, with a validated configuration, the supervision loop of the camera
  service keeps device, health and backoff consistent: while it reads, the pipeline is open and
  reported present and running with a fresh backoff; while it tries to open, the device is
  closed and reported absent and reopening; whenever it ends, by shutdown, an error or because
  reopening is disabled, the device is released. The reported reopen count is the number of
  waits, and every wait is between the initial and the maximal backoff.
\<close>

theorem camera_service_inv:
  assumes "camera_boot lib parse_int env (Inr init_ds) mqtt_pub_ops pub ok (load_camera_config py ex errs file)
      = Inr (Some (dep, s))"
  shows "camera_inv ds_pipeline (camera_run ds_ops mqtt_pub_ops dep evs s)"
proof (rule deepstream.inv_run)
  obtain b i c where "rl_initial_ms (iv_reopen s) = i" "rl_max_ms (iv_reopen s) = c" "100 \<le> i" "100 \<le> c"
    using camera_boot_state(9) [OF assms] camera_config_reopen by (fastforce simp: between_def)
  moreover have "iv_driver s = init_ds" using camera_boot_state(2) [OF assms] by simp
  ultimately show "camera_inv ds_pipeline s"
    using camera_boot_state(1,4-7) [OF assms] by (simp add: camera_inv_def init_ds_def)
qed

theorem camera_service_inv_witness:
  "camera_inv ds_pipeline (sample_run [1, 2, 3])"
  using camera_service_inv [OF sample_boot [unfolded sample_config_def], of "map sample_event [1, 2, 3]"]
  by (simp add: sample_run_def)

subsection \<open>A stalled camera\<close>

text \<open>The built message depends on the identifier and the timestamp only in these two fields.\<close>

lemma build_observation_stamp:
  assumes "build_observation lib i t raw ctx = Inr ob"
  shows "build_observation lib i' t' raw ctx = Inr (ob\<lparr>cv_message_id := i', cv_produced_at := t'\<rparr>)"
  using assms
  by (auto simp: build_observation_def res_bind_Inr make_observation_def split: if_splits)

definition stalled :: "device camera_event \<Rightarrow> bool" where
  "stalled ev \<longleftrightarrow> \<not> ev_shutdown ev \<and> dv_samples (ev_env ev) = [] \<and> snd (snd (ev_stamp ev 0))"

definition restamped :: "deployment \<Rightarrow> cv_observation \<Rightarrow> device camera_event \<Rightarrow> string \<times> json" where
  "restamped dep ob ev = (dp_topic dep, observation_json
     (ob\<lparr>cv_message_id := fst (ev_stamp ev 0), cv_produced_at := fst (snd (ev_stamp ev 0))\<rparr>))"

lemma stalled_step:
  assumes "iv_phase s = Reading" and "ds_pipeline (iv_driver s)" and "ds_latest_metadata (iv_driver s) = [raw]"
    and "build_observation (dp_lib dep) i t raw (dp_context dep) = Inr ob" and "stalled ev"
  shows "camera_step ds_ops mqtt_pub_ops dep ev s =
    s\<lparr>iv_publisher := (iv_publisher s)\<lparr>pb_messages := pb_messages (iv_publisher s) @ [restamped dep ob ev]\<rparr>,
      iv_health := record_frame (ev_now ev) (iv_health s)\<rparr>"
proof -
  obtain i' t' where st: "ev_stamp ev 0 = (i', t', True)"
    using assms(5) by (cases "ev_stamp ev 0") (simp add: stalled_def)
  show ?thesis
    using assms build_observation_stamp [OF assms(4), of i' t'] st
    by (simp add: camera_step_def read_step_def ds_ops_def ds_read_def stalled_def mqtt_pub_ops_def mqtt_publish_def
        restamped_def Let_def)
qed

text \<open>
  A stall of the camera is never detected: once the DeepStream pipeline runs and has
  delivered a window, every iteration without a new sample publishes that same window again
  under a new identifier and timestamp, for as long as the stall lasts, and the service goes on
  reporting frames; it never returns to reopening.
\<close>

theorem stalled_camera_republishes:
  assumes "iv_phase s = Reading" and "ds_pipeline (iv_driver s)" and "ds_latest_metadata (iv_driver s) = [raw]"
    and "build_observation (dp_lib dep) i t raw (dp_context dep) = Inr ob" and "list_all stalled evs"
  shows "iv_phase (camera_run ds_ops mqtt_pub_ops dep evs s) = Reading \<and>
    iv_delays (camera_run ds_ops mqtt_pub_ops dep evs s) = iv_delays s \<and>
    pb_messages (iv_publisher (camera_run ds_ops mqtt_pub_ops dep evs s)) =
      pb_messages (iv_publisher s) @ map (restamped dep ob) evs"
  using assms(1-3,5)
proof (induction evs arbitrary: s)
  case (Cons ev evs)
  then have ev: "stalled ev" "list_all stalled evs" by simp_all
  from stalled_step [OF Cons.prems(1-3) assms(4) ev(1)] Cons.IH [OF _ _ _ ev(2)] Cons.prems
  show ?case by (simp add: camera_run_def)
qed (simp add: camera_run_def)

definition stalled_event :: "int \<Rightarrow> device camera_event" where
  "stalled_event n = (sample_event n)\<lparr>ev_env := sample_device 0\<rparr>"

definition sample_detected :: cv_observation where
  "sample_detected =
     \<lparr>cv_message_id = [], cv_produced_at = [], cv_context = dp_context sample_dep, cv_frame_seq = 2, cv_window_ms = 100,
      cv_counts = \<lparr>cn_present = 1, cn_confidence = 9/10\<rparr>, cv_demographics = None, cv_attention = None,
      cv_quality = \<lparr>ql_frames_processed = 1, ql_frames_dropped = 0, ql_pipeline_degraded = None\<rparr>,
      cv_privacy = default_privacy\<rparr>"

theorem stalled_camera_republishes_witness:
  "length (pb_messages (iv_publisher (camera_run ds_ops mqtt_pub_ops sample_dep (map stalled_event [3, 4, 5])
     (sample_run [1, 2])))) = 4"
proof -
  define raw where "raw = [(''frame_seq'', JInt 2), (''person_count'', JInt 1), (''confidence_mean'', JFloat (9/10)),
     (''frames_processed'', JInt 1), (''frames_dropped'', JInt 0)]"
  have "iv_phase (sample_run [1, 2]) = Reading" by code_simp
  moreover have "ds_pipeline (iv_driver (sample_run [1, 2]))" by code_simp
  moreover have "ds_latest_metadata (iv_driver (sample_run [1, 2])) = [raw]" unfolding raw_def by code_simp
  moreover have "build_observation (dp_lib sample_dep) [] [] raw (dp_context sample_dep) = Inr sample_detected"
    unfolding raw_def by code_simp
  moreover have "list_all stalled (map stalled_event [3, 4, 5])" by code_simp
  moreover have "length (pb_messages (iv_publisher (sample_run [1, 2]))) = 1" by code_simp
  ultimately show ?thesis
    by (simp add: stalled_camera_republishes)
qed

end
