(* ===== verification/AudienceService.thy ===== *)
theory AudienceService
  imports AudienceState Contracts
begin

section \<open>The audience-state service (services/audience-state/audience_state/main.py, health.py)\<close>

text \<open>
  The service as one process: the subscriber that feeds observations into the window, the
  publish loop that builds signals from the same window, and the readiness route. Both loops
  run on one asyncio thread: a message is processed, or a signal built, without interruption,
  so their interleaving is a sequence of events. An exception other than a broker error leaves
  \<open>asyncio.gather\<close> and ends the process.
\<close>

subsection \<open>Observations that satisfy the contract\<close>

lemma schema_numbers_unit:
  assumes "list_all (\<lambda>(k, v). case map_of props k of None \<Rightarrow> False | Some p \<Rightarrow> p v) kvs"
    and "\<And>k p. map_of props k = Some p \<Longrightarrow> p = num_where in_unit"
  shows "unit_bins (List.map_filter (\<lambda>(n, v). map_option (Pair n) (jnum v)) kvs)"
  using assms(1)
proof (induction kvs)
  case Nil
  then show ?case by (simp add: unit_bins_def List.map_filter_simps)
next
  case (Cons kv kvs)
  obtain k v where kv: "kv = (k, v)" by (cases kv)
  with Cons.prems assms(2) have "num_where in_unit v" by (auto split: option.splits)
  with Cons kv show ?case
    by (auto simp: List.map_filter_simps unit_bins_def in_unit_def dest: num_where_jnum split: option.splits)
qed

lemma schema_block_unit:
  assumes "jget d k = Some v" "schema_object [] props v" "\<And>k p. map_of props k = Some p \<Longrightarrow> p = num_where in_unit"
  shows "unit_bins (num_block d k)"
proof -
  from assms(2) obtain kvs where v: "v = JObj kvs" by (cases v) (simp_all add: schema_object_def)
  with assms show ?thesis by (simp add: num_block_def schema_object_def schema_numbers_unit)
qed

lemma bins_block_unit: "jget d k = Some v \<Longrightarrow> bins_schema names v \<Longrightarrow> unit_bins (num_block d k)"
  unfolding bins_schema_def by (erule schema_block_unit) (auto simp: map_of_const split: if_splits)

lemma block_absent_unit: "jget d k = None \<Longrightarrow> unit_bins (num_block d k)"
  by (simp add: num_block_def unit_bins_def)

text \<open>What the window reads from a valid demographics block.\<close>

lemma demographics_schema_unit:
  assumes "demographics_schema d"
  shows "unit_bins (num_block d ''age_group'')"
    and "case opt_block d ''gender'' of None \<Rightarrow> True | Some g \<Rightarrow> unit_bins g"
    and "case opt_block d ''attire'' of None \<Rightarrow> True | Some a \<Rightarrow> unit_bins a"
    and "case (case jget d ''dwell_estimate_ms'' of Some j \<Rightarrow> jint j | None \<Rightarrow> None) of None \<Rightarrow> True | Some n \<Rightarrow> 0 \<le> n"
proof -
  note get = schema_object_get [OF assms [unfolded demographics_schema_def]]
  have bins: "unit_bins (num_block d k)" if "k \<in> {''age_group'', ''gender'', ''attire''}" for k
  proof (cases "jget d k")
    case None
    then show ?thesis by (rule block_absent_unit)
  next
    case (Some v)
    with get [OF Some] that show ?thesis by (auto intro: bins_block_unit)
  qed
  then show "unit_bins (num_block d ''age_group'')"
    "case opt_block d ''gender'' of None \<Rightarrow> True | Some g \<Rightarrow> unit_bins g"
    "case opt_block d ''attire'' of None \<Rightarrow> True | Some a \<Rightarrow> unit_bins a"
    by (simp_all add: opt_block_def split: option.splits)
  show "case (case jget d ''dwell_estimate_ms'' of Some j \<Rightarrow> jint j | None \<Rightarrow> None) of None \<Rightarrow> True | Some n \<Rightarrow> 0 \<le> n"
    using get [of "''dwell_estimate_ms''"] by (auto dest: int_where_jint split: option.splits)
qed

lemma contract_obs_ok:
  assumes "cv_observation_contract m"
  shows "obs_ok (obs_view m)"
proof -
  note c = assms [unfolded cv_observation_contract_def]
  obtain cs where cs: "jget m ''counts'' = Some cs" "counts_schema cs"
    using schema_object_field [OF c, of "''counts''"] by auto
  note d = cs(2) [unfolded counts_schema_def]
  obtain p q where pq: "jget cs ''present'' = Some p" "int_where (\<lambda>n. 0 \<le> n) p"
      "jget cs ''confidence'' = Some q" "num_where in_unit q"
    using schema_object_field [OF d, of "''present''"] schema_object_field [OF d, of "''confidence''"] by auto
  obtain n x where nx: "jint p = Some n" "0 \<le> n" "jnum q = Some x" "in_unit x"
    using pq(2,4) by (auto simp: int_where_def num_where_def split: option.splits json.splits)
  have dem: "demographics_schema v" if "jget m ''demographics'' = Some v" for v
    using schema_object_get [OF c that] by auto
  have attn: "unit_bins (num_block m ''attention'')"
  proof (cases "jget m ''attention''")
    case None
    then show ?thesis by (rule block_absent_unit)
  next
    case (Some v)
    then have "attention_schema v" using schema_object_get [OF c Some] by auto
    with Some show ?thesis
      by (auto simp: attention_schema_def intro!: schema_block_unit split: if_splits)
  qed
  have "case ob_demographics (obs_view m) of None \<Rightarrow> True | Some d \<Rightarrow>
        unit_bins (od_age_group d) \<and> (case od_gender d of None \<Rightarrow> True | Some g \<Rightarrow> unit_bins g) \<and>
        (case od_attire d of None \<Rightarrow> True | Some a \<Rightarrow> unit_bins a) \<and>
        (case od_dwell_estimate_ms d of None \<Rightarrow> True | Some n \<Rightarrow> 0 \<le> n)"
  proof (cases "jget m ''demographics''")
    case None
    then show ?thesis by (simp add: obs_view_def)
  next
    case (Some v)
    with demographics_schema_unit [OF dem [OF Some]] show ?thesis by (simp add: obs_view_def)
  qed
  moreover have "case ob_attention (obs_view m) of None \<Rightarrow> True | Some a \<Rightarrow> unit_bins a"
    using attn by (simp add: obs_view_def opt_block_def split: option.split)
  moreover have "ob_present (obs_view m) = n" "ob_confidence (obs_view m) = x"
    using cs(1) pq(1,3) nx by (simp_all add: obs_view_def)
  ultimately show ?thesis using nx(2,4) by (simp add: obs_ok_def in_unit_def)
qed

subsection \<open>Signals built from such observations\<close>

definition window_ok :: "rat \<Rightarrow> obs_window \<Rightarrow> bool" where
  "window_ok now w \<longleftrightarrow> list_all (\<lambda>(ob, t). obs_ok ob \<and> t \<le> now) (ow_observations w)"

lemma window_ok_later: "window_ok now w \<Longrightarrow> now \<le> now' \<Longrightarrow> window_ok now' w"
  by (fastforce simp: window_ok_def list_all_iff)

lemma window_ok_prune: "window_ok now w \<Longrightarrow> window_ok now (ow_prune t w)"
  by (auto simp: window_ok_def ow_prune_def list_all_iff)

lemma window_ok_add: "window_ok now w \<Longrightarrow> obs_ok ob \<Longrightarrow> window_ok now (ow_add now ob w)"
  using window_ok_prune [of now w now] by (simp add: ow_add_def Let_def window_ok_def)

lemma window_ok_obs: "window_ok now w \<Longrightarrow> ob \<in> set (ow_obs w) \<Longrightarrow> obs_ok ob"
  by (auto simp: window_ok_def ow_obs_def list_all_iff)

lemma bins_schema_unit:
  assumes "unit_bins b" "map fst b = names"
  shows "bins_schema names (num_obj b)"
proof -
  have "k \<in> set names \<and> in_unit v" if "(k, v) \<in> set b" for k v
    using that assms by (force simp: unit_bins_def in_unit_def)
  then have "list_all (\<lambda>(k, v). case map_of (map (\<lambda>k. (k, num_where in_unit)) names) k of None \<Rightarrow> False | Some p \<Rightarrow> p v)
      (map (\<lambda>(k, v). (k, JFloat v)) b)"
    by (auto simp: map_of_const list_all_iff)
  then show ?thesis by (simp add: bins_schema_def schema_object_def num_obj_def)
qed

lemma state_block_conforms:
  assumes "compute_state now w = (Inr (Some sb), w')" "window_ok now w"
  shows "0 \<le> sb_count sb" "in_unit (sb_confidence sb)" "w' = ow_prune now w" "window_ok now w'" "ow_obs w' \<noteq> []"
proof -
  note c = compute_state_window [OF assms(1)]
  show w': "w' = ow_prune now w" "ow_obs w' \<noteq> []" using c by blast+
  then show ok: "window_ok now w'" using window_ok_prune [OF assms(2)] by simp
  have obs: "obs_ok ob" if "ob \<in> set (ow_obs w')" for ob using window_ok_obs [OF ok that] .
  define hi where "hi = Max (ob_present ` set (ow_obs w'))"
  have "\<forall>o' \<in> set (ow_obs w'). 0 \<le> ob_present o' \<and> ob_present o' \<le> hi"
    using obs by (auto simp: obs_ok_def hi_def)
  then show "0 \<le> sb_count sb" using mean_count_bounds [OF w'(2), of 0 hi] c by simp
  have "0 \<le> py_round4 (mean (map ob_confidence (ow_obs w'))) \<and> py_round4 (mean (map ob_confidence (ow_obs w'))) \<le> 1"
    by (rule mean_unit) (use w'(2) obs in \<open>auto simp: obs_ok_def\<close>)
  then show "in_unit (sb_confidence sb)" using c by (simp add: in_unit_def)
qed

lemma demographics_conform:
  assumes "compute_demographics now w = (Some d, w')" "window_ok now w"
  shows "demographics_schema (demographics_json d)"
proof (cases d)
  case Suppressed
  then show ?thesis by (simp add: demographics_schema_def schema_object_def)
next
  case (Demographics ages genders attire dwell)
  have "\<forall>ob \<in> set (ow_obs w). obs_ok ob" using window_ok_obs [OF assms(2)] by blast
  note c = compute_demographics_ok [OF assms(1) [unfolded Demographics] this]
  show ?thesis
    using c
    by (auto simp: Demographics demographics_schema_def schema_object_def intro!: bins_schema_unit split: option.splits)
qed

lemma attention_conform:
  assumes "compute_attention now w = (Some a, w')" "window_ok now w"
  shows "attention_schema (num_obj a)"
proof -
  define attn where "attn = List.map_filter ob_attention (ow_obs (ow_prune now w))"
  define field where "field f = (let present = List.map_filter (\<lambda>a. map_of a f) attn
    in if present = [] then [] else [(f, py_round4 (mean present))])" for f
  have "unit_bins b" if "b \<in> set attn" for b
    using in_map_filter [OF that [unfolded attn_def]] window_ok_obs [OF window_ok_prune [OF assms(2)]]
    by (fastforce simp: obs_ok_def)
  then have "\<forall>x \<in> set (List.map_filter (\<lambda>a. map_of a f) attn). 0 \<le> x \<and> x \<le> 1" for f
    by (fastforce simp: unit_bins_def dest: in_map_filter map_of_SomeD)
  then have unit: "list_all (\<lambda>(k, v). k = f \<and> in_unit v) (field f)" for f
    using mean_unit [of "List.map_filter (\<lambda>a. map_of a f) attn"] by (auto simp: field_def Let_def in_unit_def)
  have "a = field ''engaged'' @ field ''ambient''"
    using assms(1) by (auto simp: compute_attention_def Let_def attn_def field_def split: if_splits)
  with unit [of "''engaged''"] unit [of "''ambient''"] show ?thesis
    by (fastforce simp: attention_schema_def schema_object_def num_obj_def list_all_iff)
qed

lemma age_conforms:
  assumes "window_ok now w" "fst (newest_observation_age_ms now w) = Some a"
  shows "0 \<le> a"
proof -
  have "window_ok now (ow_prune now w)" by (rule window_ok_prune [OF assms(1)])
  with assms(2) show ?thesis
    by (auto simp: newest_observation_age_ms_def window_ok_def list_all_iff Let_def intro!: py_int_nonneg
        split: if_splits dest!: last_in_set)
qed

definition config_ok :: "as_config \<Rightarrow> bool" where
  "config_ok cfg \<longleftrightarrow> contract_name (ac_tenant_id cfg) \<and> contract_name (ac_site_id cfg) \<and> contract_name (ac_camera_id cfg)"

lemma signal_conforms:
  assumes "compute_state now w = (Inr (Some sb), w')" "window_ok now w" "config_ok cfg" "contract_id i"
  shows "signal_contract (signal_json cfg i t sb (fst (compute_demographics now w')) (fst (compute_attention now w'))
    (case fst (newest_observation_age_ms now w') of Some a \<Rightarrow> a | None \<Rightarrow> 0) degraded)"
proof -
  note sb = state_block_conforms [OF assms(1,2)]
  have dem: "demographics_schema (demographics_json d)" if "fst (compute_demographics now w') = Some d" for d
    using that demographics_conform [OF _ sb(4)] by (cases "compute_demographics now w'") auto
  have attn: "attention_schema (num_obj a)" if "fst (compute_attention now w') = Some a" for a
    using that attention_conform [OF _ sb(4)] by (cases "compute_attention now w'") auto
  have age: "0 \<le> (case fst (newest_observation_age_ms now w') of Some a \<Rightarrow> a | None \<Rightarrow> 0)"
    using age_conforms [OF sb(4)] by (auto split: option.split)
  have "state_schema (JObj (state_json sb @
      (case fst (compute_demographics now w') of None \<Rightarrow> [] | Some d \<Rightarrow> [(''demographics'', demographics_json d)]) @
      (case fst (compute_attention now w') of None \<Rightarrow> [] | Some a \<Rightarrow> [(''attention'', num_obj a)])))"
    using sb(1,2) dem attn
    by (auto simp: state_schema_def state_json_def schema_object_def [of "_ # _"] dict_keys_def presence_schema_def
        stability_schema_def split: option.splits)
  then show ?thesis
    using age assms(3,4)
    by (simp add: signal_contract_def signal_json_def schema_object_def [of "_ # _"] dict_keys_def config_ok_def
        source_quality_schema_def privacy_schema_def)
qed

subsection \<open>The process\<close>

record as_service =
  as_consumer :: observation_consumer
  as_loop :: publish_loop
  as_subscribed :: bool
  as_backoff :: rat
  as_ended :: "py_error option"

datatype as_event =
    AsSubscribed
  | AsSubscriberLost
  | AsMessage rat payload
  | AsPublish publish_event

definition as_initial_backoff :: rat where
  "as_initial_backoff = 1"

text \<open>\<open>run\<close> before the loops: the window may refuse its configuration.\<close>

definition as_boot :: "int \<Rightarrow> int \<Rightarrow> rat \<Rightarrow> as_service res" where
  "as_boot window_ms min_stability threshold =
     res_bind (make_window window_ms min_stability threshold) (\<lambda>w.
     Inr \<lparr>as_consumer = init_oc w,
          as_loop = \<lparr>pp_conn = None, pp_next_conn = 0, pp_backoff = as_initial_backoff, pp_window = w,
            pp_publisher = \<lparr>sp_published = 0, sp_validation_failures = 0\<rparr>, pp_sent = [], pp_raised = None\<rparr>,
          as_subscribed = False, as_backoff = as_initial_backoff, as_ended = None\<rparr>)"

text \<open>\<open>_run_mqtt_subscribe\<close>: only \<open>MqttError\<close> is caught around \<open>process\<close>.\<close>

definition subscribe_step :: "(json \<Rightarrow> string list) \<Rightarrow> rat \<Rightarrow> payload \<Rightarrow> as_service \<Rightarrow> as_service" where
  "subscribe_step errs now raw s =
     (if \<not> as_subscribed s then s
      else case oc_process errs now raw (as_consumer s) of
        (Inr _, oc) \<Rightarrow> s\<lparr>as_consumer := oc, as_loop := (as_loop s)\<lparr>pp_window := oc_window oc\<rparr>\<rparr>
      | (Inl e, oc) \<Rightarrow> s\<lparr>as_consumer := oc, as_ended := Some e\<rparr>)"

text \<open>
  Consumer and publisher hold the same window object. What escapes the publish loop ends the
  process, as what escapes \<open>process\<close> does.
\<close>

fun as_step :: "(json \<Rightarrow> string list) \<Rightarrow> (json \<Rightarrow> string list) \<Rightarrow> as_config \<Rightarrow> (nat \<Rightarrow> rat \<Rightarrow> bool) \<Rightarrow> as_event
    \<Rightarrow> as_service \<Rightarrow> as_service" where
  "as_step errs errs' cfg broken ev s =
     (if as_ended s \<noteq> None then s
      else case ev of
        AsSubscribed \<Rightarrow> s\<lparr>as_subscribed := True, as_backoff := as_initial_backoff\<rparr>
      | AsSubscriberLost \<Rightarrow> s\<lparr>as_subscribed := False, as_backoff := as_next_backoff (as_backoff s)\<rparr>
      | AsMessage now raw \<Rightarrow> subscribe_step errs now raw s
      | AsPublish e \<Rightarrow>
          (let l = publish_step errs' cfg broken e (as_loop s)
           in s\<lparr>as_loop := l, as_consumer := (as_consumer s)\<lparr>oc_window := pp_window l\<rparr>, as_ended := pp_raised l\<rparr>))"

declare as_step.simps [simp del]

definition as_run :: "(json \<Rightarrow> string list) \<Rightarrow> (json \<Rightarrow> string list) \<Rightarrow> as_config \<Rightarrow> (nat \<Rightarrow> rat \<Rightarrow> bool) \<Rightarrow> as_event list
    \<Rightarrow> as_service \<Rightarrow> as_service" where
  "as_run errs errs' cfg broken evs s = fold (as_step errs errs' cfg broken) evs s"

text \<open>\<open>/readyz\<close>.\<close>

definition as_readyz :: "bool \<Rightarrow> rat \<Rightarrow> as_service \<Rightarrow> nat \<times> json" where
  "as_readyz is_ready now s =
     (if \<not> is_ready
      then (503, JObj [(''status'', JStr ''not_ready''), (''reason'', JStr ''startup_in_progress'')])
      else (let os = fst (oc_status now (as_consumer s)); sp = pp_publisher (as_loop s) in
        (200, JObj [(''status'', JStr ''ok''), (''total_received'', JInt (int (os_total_received os))),
           (''total_rejected'', JInt (int (os_total_rejected os))),
           (''observations_in_window'', JInt (int (os_observations_in_window os))),
           (''published'', JInt (int (sp_published sp))),
           (''validation_failures'', JInt (int (sp_validation_failures sp)))])))"

subsection \<open>Every published signal satisfies its contract\<close>

fun as_time :: "as_event \<Rightarrow> rat option" where
  "as_time (AsMessage now _) = Some now"
| "as_time (AsPublish (PubRound now _ _)) = Some now"
| "as_time _ = None"

fun as_id_ok :: "as_event \<Rightarrow> bool" where
  "as_id_ok (AsPublish (PubRound _ i _)) = contract_id i"
| "as_id_ok _ = True"

text \<open>
  The exceptions the received payloads can cause: an error of the decoder that nobody catches,
  and an \<open>OverflowError\<close> of a later average when a count is beyond \<open>10^300\<close>.
\<close>

definition huge_count :: "json \<Rightarrow> bool" where
  "huge_count m \<longleftrightarrow> 10 ^ 300 \<le> ob_present (obs_view m)"

fun as_failures :: "as_event \<Rightarrow> py_error list" where
  "as_failures (AsMessage now (LoadsError e)) = [e]"
| "as_failures (AsMessage now (Decoded m)) = (if huge_count m then [OverflowError] else [])"
| "as_failures _ = []"

definition counts_ok :: "py_error set \<Rightarrow> obs_window \<Rightarrow> bool" where
  "counts_ok F w \<longleftrightarrow> OverflowError \<in> F \<or> list_all (\<lambda>(ob, t). ob_present ob < 10 ^ 300) (ow_observations w)"

lemma counts_ok_prune: "counts_ok F w \<Longrightarrow> counts_ok F (ow_prune now w)"
  by (auto simp: counts_ok_def ow_prune_def list_all_iff)

lemma counts_ok_add:
  "counts_ok F w \<Longrightarrow> (ob_present ob < 10 ^ 300 \<or> OverflowError \<in> F) \<Longrightarrow> counts_ok F (ow_add now ob w)"
  using counts_ok_prune [of F w now] by (auto simp: counts_ok_def ow_add_def Let_def)

lemma float_limit_high: "10 ^ 300 < float_limit"
  by (simp add: float_limit_def)

lemma sum_list_below: "(\<And>x. x \<in> set xs \<Longrightarrow> 0 \<le> x \<and> x < c) \<Longrightarrow> \<bar>sum_list xs\<bar> \<le> c * int (length xs)"
proof (induction xs)
  case (Cons x xs)
  then have "\<bar>sum_list xs\<bar> \<le> c * int (length xs)" "0 \<le> x" "x < c" by auto
  then show ?case by (auto simp: algebra_simps)
qed simp

lemma compute_state_overflow:
  assumes "compute_state now w = (Inl e, w')" "window_ok now w" "counts_ok F w"
  shows "e = OverflowError \<and> e \<in> F"
proof -
  let ?obs = "ow_obs (ow_prune now w)"
  let ?xs = "map ob_present ?obs"
  from assms(1) have e: "e = OverflowError" "?obs \<noteq> []" "float_limit * int (length ?obs) \<le> \<bar>sum_list ?xs\<bar>"
    by (auto simp: compute_state_def Let_def split: if_splits)
  have False if no: "OverflowError \<notin> F"
  proof -
    have "list_all (\<lambda>(ob, t). ob_present ob < 10 ^ 300) (ow_observations (ow_prune now w))"
      using counts_ok_prune [OF assms(3), of now] no by (simp only: counts_ok_def simp_thms)
    then have "ob_present ob < 10 ^ 300" if "ob \<in> set ?obs" for ob
      using that by (auto simp only: list_all_iff ow_obs_def set_map image_iff split_beta fst_conv)
    then have "0 \<le> x \<and> x < 10 ^ 300" if "x \<in> set ?xs" for x
      using that window_ok_obs [OF window_ok_prune [OF assms(2)]] by (auto simp: obs_ok_def)
    then have "\<bar>sum_list ?xs\<bar> \<le> 10 ^ 300 * int (length ?xs)" by (rule sum_list_below)
    also have "\<dots> < float_limit * int (length ?obs)"
      using float_limit_high e(2) by (simp only: length_map mult_less_cancel_right) simp
    finally show False using e(3) by linarith
  qed
  with e(1) show ?thesis by blast
qed

definition as_sound :: "py_error set \<Rightarrow> rat \<Rightarrow> as_service \<Rightarrow> bool" where
  "as_sound F now s \<longleftrightarrow>
     (case as_ended s of None \<Rightarrow> pp_raised (as_loop s) = None | Some e \<Rightarrow> e \<in> F) \<and>
     window_ok now (oc_window (as_consumer s)) \<and> counts_ok F (oc_window (as_consumer s)) \<and>
     pp_window (as_loop s) = oc_window (as_consumer s) \<and>
     sp_validation_failures (pp_publisher (as_loop s)) = 0 \<and>
     list_all (\<lambda>(c, m). signal_contract m) (pp_sent (as_loop s))"

abbreviation as_errs :: "json \<Rightarrow> string list" where
  "as_errs \<equiv> errs_of cv_observation_contract"

abbreviation sig_errs :: "json \<Rightarrow> string list" where
  "sig_errs \<equiv> errs_of signal_contract"

lemma oc_process_valid:
  assumes "window_ok now (oc_window oc)" "counts_ok F (oc_window oc)" "set (as_failures (AsMessage now raw)) \<subseteq> F"
    and "oc_process as_errs now raw oc = (res, oc')"
  shows "(case res of Inl e \<Rightarrow> e \<in> F | Inr b \<Rightarrow> True) \<and> window_ok now (oc_window oc') \<and> counts_ok F (oc_window oc')"
proof (cases raw)
  case (Decoded m)
  show ?thesis
  proof (cases "cv_observation_contract m")
    case False
    with Decoded assms show ?thesis by (auto simp: oc_process_def)
  next
    case True
    obtain v where "jget m ''message_id'' = Some v" "str_where contract_id v"
      using schema_object_field [OF True [unfolded cv_observation_contract_def], of "''message_id''"] by auto
    then obtain i where "jindex m ''message_id'' = Inr (JStr i)"
      by (auto simp: jindex_Inr str_where_def split: json.splits)
    moreover have "ob_present (obs_view m) < 10 ^ 300 \<or> OverflowError \<in> F"
      using assms(3) by (auto simp: Decoded huge_count_def split: if_splits)
    ultimately show ?thesis
      using assms(4) Decoded True assms(1,2) window_ok_add [OF assms(1) contract_obs_ok [OF True]]
        counts_ok_add [OF assms(2)]
      by (auto simp: oc_process_def oc_record_id_def split: if_splits)
  qed
qed (use assms in \<open>auto simp: oc_process_def\<close>)

lemma build_signal_valid:
  assumes "window_ok now w" "counts_ok F w" "config_ok cfg" "contract_id i"
    and "build_signal sig_errs cfg i t now (w, sp) = (r, (w', sp'))"
  shows "window_ok now w' \<and> counts_ok F w' \<and> sp' = sp \<and>
    (case r of Inl e \<Rightarrow> e \<in> F | Inr None \<Rightarrow> True | Inr (Some m) \<Rightarrow> signal_contract m)"
proof -
  obtain st win where c: "compute_state now w = (st, win)" by (cases "compute_state now w")
  then have "win = ow_prune now w" by (auto simp: compute_state_def Let_def split: if_splits)
  then have win: "window_ok now win" "counts_ok F win"
    using window_ok_prune [OF assms(1)] counts_ok_prune [OF assms(2)] by simp_all
  show ?thesis
  proof (cases st)
    case (Inl e)
    from compute_state_overflow [OF c [unfolded Inl] assms(1,2)] c Inl assms(5) win
    show ?thesis by (auto simp: build_signal_def)
  next
    case (Inr o')
    show ?thesis
    proof (cases o')
      case None
      with c Inr assms(5) win show ?thesis by (auto simp: build_signal_def)
    next
      case (Some sb)
      note sc = signal_conforms [OF c [unfolded Inr Some] assms(1,3,4), of t]
      show ?thesis
        using assms(5) c Inr Some sc win by (auto simp: build_signal_def errs_of_def Let_def)
    qed
  qed
qed

lemma as_step_sound:
  assumes "as_sound F now s" "config_ok cfg" "as_id_ok ev" "case as_time ev of None \<Rightarrow> True | Some t \<Rightarrow> now \<le> t"
    and "set (as_failures ev) \<subseteq> F"
  shows "as_sound F (case as_time ev of None \<Rightarrow> now | Some t \<Rightarrow> t) (as_step as_errs sig_errs cfg broken ev s)"
proof -
  let ?t = "case as_time ev of None \<Rightarrow> now | Some t \<Rightarrow> t"
  have "now \<le> ?t" using assms(4) by (auto split: option.splits)
  with assms(1) window_ok_later have later: "as_sound F ?t s" by (auto simp: as_sound_def)
  show ?thesis
  proof (cases "as_ended s")
    case (Some e)
    with later show ?thesis by (simp add: as_step.simps)
  next
    case None
    show ?thesis
    proof (cases ev)
      case (AsMessage t raw)
      obtain r oc where p: "oc_process as_errs t raw (as_consumer s) = (r, oc)" by (rule prod.exhaust)
      from later oc_process_valid [OF _ _ assms(5) [unfolded AsMessage] p]
      have "case r of Inl e \<Rightarrow> e \<in> F | Inr b \<Rightarrow> True" "window_ok t (oc_window oc)" "counts_ok F (oc_window oc)"
        by (simp_all add: as_sound_def AsMessage)
      moreover have "pp_window (as_loop s) = oc_window oc" if "r = Inl e" for e
        using that p later by (auto simp: oc_process_def as_sound_def split: payload.splits if_splits sum.splits option.splits)
      ultimately show ?thesis
        using later None p
        by (cases "as_subscribed s")
          (auto simp: AsMessage as_step.simps subscribe_step_def as_sound_def split: sum.splits)
    next
      case (AsPublish e)
      show ?thesis
      proof (cases e)
        case (PubRound t i p)
        obtain r w' sp' where b: "build_signal sig_errs cfg i p t (pp_window (as_loop s), pp_publisher (as_loop s)) = (r, (w', sp'))"
          by (metis prod_cases3)
        have "window_ok t (pp_window (as_loop s))" "counts_ok F (pp_window (as_loop s))" "contract_id i"
          using later assms(3) by (simp_all add: AsPublish PubRound as_sound_def)
        note v = build_signal_valid [OF this(1,2) assms(2) this(3) b]
        show ?thesis
          using later None v b
          by (auto simp: AsPublish PubRound as_step.simps as_sound_def sp_publish_def Let_def
              split: option.splits sum.splits)
      qed (use later None in \<open>auto simp: AsPublish as_step.simps as_sound_def Let_def\<close>)
    qed (use later None in \<open>simp_all add: as_step.simps as_sound_def\<close>)
  qed
qed

lemma as_run_sound:
  assumes "config_ok cfg"
  shows "as_sound F now s \<Longrightarrow> list_all as_id_ok evs \<Longrightarrow> sorted (now # List.map_filter as_time evs) \<Longrightarrow>
    set (concat (map as_failures evs)) \<subseteq> F \<Longrightarrow>
    \<exists>t. as_sound F t (as_run as_errs sig_errs cfg broken evs s)"
proof (induction evs arbitrary: now s)
  case Nil
  then show ?case by (auto simp: as_run_def)
next
  case (Cons ev evs)
  let ?t = "case as_time ev of None \<Rightarrow> now | Some t \<Rightarrow> t"
  have le: "case as_time ev of None \<Rightarrow> True | Some t \<Rightarrow> now \<le> t"
    using Cons.prems(3) by (auto simp: List.map_filter_simps split: option.split)
  have "sorted (?t # List.map_filter as_time evs)"
    using Cons.prems(3) by (auto simp: List.map_filter_simps split: option.splits)
  from Cons.IH [OF as_step_sound [OF Cons.prems(1) assms _ le] _ this] Cons.prems(2,4)
  show ?case by (simp add: as_run_def)
qed

lemma as_boot_sound: "as_boot ms k thr = Inr s \<Longrightarrow> as_sound F now s"
  by (auto simp: as_boot_def res_bind_Inr as_sound_def window_ok_def counts_ok_def init_oc_def make_window_def
      split: if_splits)


definition demo_observation :: "string \<Rightarrow> json" where
  "demo_observation i = JObj
     [(''schema_version'', JStr ''1.0.0''), (''message_type'', JStr ''cv_observation''), (''message_id'', JStr i),
      (''produced_at'', JStr ''t''), (''tenant_id'', JStr ''t''), (''site_id'', JStr ''s''), (''camera_id'', JStr ''c''),
      (''pipeline_id'', JStr ''p''), (''frame_seq'', JInt 1), (''window_ms'', JInt 100),
      (''counts'', JObj [(''present'', JInt 2), (''confidence'', JFloat (9/10))]),
      (''demographics'', JObj [(''age_group'', JObj (map (\<lambda>k. (k, JFloat (1/4))) age_bins))]),
      (''quality'', JObj [(''frames_processed'', JInt 1), (''frames_dropped'', JInt 0)]),
      (''privacy'', JObj [(''contains_images'', JBool False), (''contains_frame_urls'', JBool False),
         (''contains_face_embeddings'', JBool False)])]"

definition demo_cfg :: as_config where
  "demo_cfg = \<lparr>ac_tenant_id = ''t'', ac_site_id = ''s'', ac_camera_id = ''c''\<rparr>"

definition demo_as_events :: "as_event list" where
  "demo_as_events = [AsSubscribed, AsPublish PubConnected, AsMessage 1 NotJson, AsMessage 1 (Decoded (demo_observation ''a'')),
     AsMessage 2 (Decoded (demo_observation ''b'')), AsPublish (PubRound 3 ''s1'' ''t''), AsMessage 3 (Decoded (JInt 0)),
     AsPublish (PubRound 4 ''s2'' ''t'')]"

definition demo_as_start :: as_service where
  "demo_as_start = projr (as_boot 5000 3 (1/2))"


end
