(* ===== verification/OptimizerService.thy ===== *)
theory OptimizerService
  imports DecisionLoop Contracts
begin

section \<open>The decision-optimizer service (services/decision-optimizer/decision_optimizer/main.py, health.py)\<close>

text \<open>
  The service as one process: the subscriber that feeds signals to the consumer, the 1 Hz
  decision loop, the players' connections and the reload route. They share one asyncio
  thread, so a history is a sequence of events. An exception of \<open>process\<close> other than a broker error ends the
  process (an error of \<open>json.loads\<close> that the consumer does not catch is one); the loop logs those
  of a tick.
\<close>

subsection \<open>The process\<close>

record do_service =
  do_consumer :: signal_consumer
  do_loop :: decision_loop
  do_gateway :: gateway
  do_subscribed :: bool
  do_backoff :: rat
  do_ended :: "py_error option"

datatype do_event =
    DoSubscribed
  | DoSubscriberLost
  | DoMessage rat payload
  | DoTick tick_args
  | DoConnect string nat
  | DoDisconnect nat
  | DoReload "json option"

definition do_initial_backoff :: rat where
  "do_initial_backoff = 1"

text \<open>\<open>run\<close>: without rules the process exits, otherwise the components are created.\<close>

definition do_boot :: "(string \<Rightarrow> rat option) \<Rightarrow> (string \<Rightarrow> rat option) \<Rightarrow> json option
    \<Rightarrow> (nat \<Rightarrow> string \<times> string) \<Rightarrow> do_service res" where
  "do_boot parse_int parse_float file world =
     res_bind (load_policy parse_int parse_float file) (\<lambda>policy.
     Inr \<lparr>do_consumer = init_sc, do_loop = init_dl policy, do_gateway = init_gw world,
          do_subscribed = False, do_backoff = do_initial_backoff, do_ended = None\<rparr>)"

text \<open>\<open>_run_mqtt\<close>: only \<open>MqttError\<close> is caught around \<open>process\<close>.\<close>

definition do_message :: "(json \<Rightarrow> string list) \<Rightarrow> rat \<Rightarrow> payload \<Rightarrow> do_service \<Rightarrow> do_service" where
  "do_message errs now raw s =
     (if \<not> do_subscribed s then s
      else case sc_process errs now raw (do_consumer s) of
        (Inr _, sc) \<Rightarrow> s\<lparr>do_consumer := sc\<rparr>
      | (Inl e, sc) \<Rightarrow> s\<lparr>do_consumer := sc, do_ended := Some e\<rparr>)"

fun do_step :: "(json \<Rightarrow> string list) \<Rightarrow> (json \<Rightarrow> string list) \<Rightarrow> (string \<Rightarrow> rat option) \<Rightarrow> (string \<Rightarrow> rat option)
    \<Rightarrow> do_event \<Rightarrow> do_service \<Rightarrow> do_service" where
  "do_step errs errs' parse_int parse_float ev s =
     (if do_ended s \<noteq> None then s
      else case ev of
        DoSubscribed \<Rightarrow> s\<lparr>do_subscribed := True, do_backoff := do_initial_backoff\<rparr>
      | DoSubscriberLost \<Rightarrow> s\<lparr>do_subscribed := False, do_backoff := do_mqtt_next_backoff (do_backoff s)\<rparr>
      | DoMessage now raw \<Rightarrow> do_message errs now raw s
      | DoTick ti \<Rightarrow>
          (let (dl, gw) = snd (dl_tick errs' ti (do_consumer s) (do_loop s, do_gateway s))
           in s\<lparr>do_loop := dl, do_gateway := gw\<rparr>)
      | DoConnect path c \<Rightarrow> s\<lparr>do_gateway := gw_connect path c (do_gateway s)\<rparr>
      | DoDisconnect c \<Rightarrow> s\<lparr>do_gateway := gw_disconnect c (do_gateway s)\<rparr>
      | DoReload file \<Rightarrow> s\<lparr>do_loop := snd (rules_reload (load_policy parse_int parse_float file) (do_loop s))\<rparr>)"

declare do_step.simps [simp del]

definition do_run :: "(json \<Rightarrow> string list) \<Rightarrow> (json \<Rightarrow> string list) \<Rightarrow> (string \<Rightarrow> rat option) \<Rightarrow> (string \<Rightarrow> rat option)
    \<Rightarrow> do_event list \<Rightarrow> do_service \<Rightarrow> do_service" where
  "do_run errs errs' parse_int parse_float evs s = fold (do_step errs errs' parse_int parse_float) evs s"

text \<open>\<open>status\<close> of the consumer and \<open>/readyz\<close>; a falsy latest message counts as none.\<close>

definition sc_status :: "rat \<Rightarrow> signal_consumer \<Rightarrow> json res" where
  "sc_status now sc =
     res_bind (case sc_latest sc of
         None \<Rightarrow> Inr JNull
       | Some m \<Rightarrow> if truthy m then jindex m ''message_id'' else Inr JNull) (\<lambda>i.
     Inr (JObj [(''latest_message_id'', i), (''signal_age_ms'', opt_json JInt (signal_age_ms now sc)),
       (''total_received'', JInt (int (sc_total_received sc))), (''total_rejected'', JInt (int (sc_total_rejected sc)))]))"

definition do_readyz :: "bool \<Rightarrow> rat \<Rightarrow> do_service \<Rightarrow> (nat \<times> json) res" where
  "do_readyz is_ready now s =
     (if \<not> is_ready
      then Inr (503, JObj [(''status'', JStr ''not_ready''), (''reason'', JStr ''startup_in_progress'')])
      else res_bind (sc_status now (do_consumer s)) (\<lambda>sig.
        let st = dl_status (do_loop s) (do_gateway s) in
        Inr (200, JObj [(''status'', JStr ''ok''), (''current_manifest_id'', opt_json JStr (ds_current_manifest_id st)),
          (''player_frozen'', JBool (ds_player_frozen st)), (''tick_count'', JInt (int (ds_tick_count st))),
          (''command_count'', JInt (int (ds_command_count st))), (''freeze_count'', JInt (int (ds_freeze_count st))),
          (''player_count'', JInt (int (ds_player_count st))), (''signal'', sig)])))"

subsection \<open>Commands built by the gateway\<close>

abbreviation cmd_errs :: "json \<Rightarrow> string list" where
  "cmd_errs \<equiv> errs_of command_contract"

text \<open>What the loader must have read: identifiers the contract admits and no negative time.\<close>

definition policy_ok :: "policy_engine \<Rightarrow> bool" where
  "policy_ok p \<longleftrightarrow> list_all (\<lambda>r. contract_id (rl_manifest_id r)) (pe_rules p) \<and>
     0 \<le> pe_min_dwell_ms p \<and> 0 \<le> pe_cooldown_ms p"

lemma evaluate_from_rules:
  assumes "evaluate hour u eng sg = Inr (Some mid)"
  shows "\<exists>r \<in> set (pe_rules eng). rl_manifest_id r = mid"
proof -
  define ms where "ms = filter (\<lambda>r. rule_matches hour hour r sg) (pe_rules eng)"
  show ?thesis
  proof (cases ms)
    case Nil
    with assms show ?thesis by (simp add: evaluate_def flip: ms_def)
  next
    case (Cons m rest)
    define tier where "tier = filter (\<lambda>r. rl_priority r = rl_priority m) ms"
    have "set ms \<subseteq> set (pe_rules eng)" by (simp add: ms_def subset_iff)
    then have tier: "set tier \<subseteq> set (pe_rules eng)" "tier \<noteq> []"
      by (auto simp: tier_def Cons)
    from assms have ev: "(case tier of [r] \<Rightarrow> Inr (Some (rl_manifest_id r))
        | _ \<Rightarrow> (case choices u tier of Inl e \<Rightarrow> Inl e | Inr r \<Rightarrow> Inr (Some (rl_manifest_id r)))) = Inr (Some mid)"
      by (simp add: evaluate_def Cons [unfolded ms_def] Cons tier_def Let_def)
    show ?thesis
    proof (cases "\<exists>r. tier = [r]")
      case True
      with ev tier show ?thesis by auto
    next
      case False
      with tier(2) ev have "(case choices u tier of Inl e \<Rightarrow> Inl e | Inr r \<Rightarrow> Inr (Some (rl_manifest_id r))) = Inr (Some mid)"
        by (auto split: list.splits)
      then obtain r where "choices u tier = Inr r" "rl_manifest_id r = mid" by (auto split: sum.splits)
      with choices_in [OF tier(2)] tier(1) show ?thesis by blast
    qed
  qed
qed

lemma length_show_nat: "n < 10 ^ k \<Longrightarrow> 0 < k \<Longrightarrow> length (show_nat n) \<le> k"
proof (induction k arbitrary: n)
  case (Suc k)
  show ?case
  proof (cases "n < 10")
    case True
    then show ?thesis by (simp add: show_nat.simps [of n])
  next
    case False
    with Suc.prems have "n div 10 < 10 ^ k" "0 < k" by (cases k; simp)+
    from Suc.IH [OF this] False show ?thesis by (simp add: show_nat.simps [of n])
  qed
qed simp

lemma length_show_2f:
  assumes "in_unit x"
  shows "length (show_2f x) = 4"
proof -
  have "0 \<le> py_round (x * 100)" "py_round (x * 100) \<le> 100"
    using assms py_round_ge [of 0 "x * 100"] py_round_le [of "x * 100" 100] by (simp_all add: in_unit_def)
  then have "nat \<bar>py_round (x * 100)\<bar> div 100 < 10" by linarith
  then have "length (show_nat (nat \<bar>py_round (x * 100)\<bar> div 100)) = 1" by (simp add: show_nat.simps)
  with assms show ?thesis by (simp add: show_2f_def in_unit_def Let_def)
qed

lemma length_rationale:
  assumes "in_unit x" "0 \<le> n" "n < 10 ^ 400"
  shows "length (dl_rationale b n x) \<le> 500"
proof -
  have "nat n < 10 ^ 400" using assms(2,3) by (simp add: nat_less_iff)
  then have "length (show_int n) \<le> 400"
    using length_show_nat [of "nat n" 400] assms(2) by (simp add: show_int_def)
  then show ?thesis by (simp add: dl_rationale_def length_show_2f [OF assms(1)])
qed

lemma activate_conforms:
  assumes "contract_id mid" "0 \<le> d" "0 \<le> c" "length r \<le> 500"
  shows "activate_schema (activate_body mid d c (Some r))"
  using assms by (simp add: activate_schema_def activate_body_def schema_object_def dict_keys_def)

lemma reason_conforms:
  assumes "reason \<in> set freeze_reasons"
  shows "\<exists>p. reason_body (Some reason) = Some p \<and> reason_schema freeze_reasons p"
proof -
  from assms have "reason \<noteq> []" by (auto simp: freeze_reasons_def)
  with assms show ?thesis by (simp add: reason_body_def reason_schema_def schema_object_def dict_keys_def)
qed

lemma command_conforms:
  assumes "contract_id i" "0 \<le> seq" "ty = ''activate_creative'' \<and> activate_schema p \<or> ty = ''freeze'' \<and> reason_schema freeze_reasons p"
  shows "command_contract (command_msg i seq t ty (Some p))"
  using assms(3)
  by (rule disjE) (simp_all add: assms(1,2) command_contract_def command_msg_def schema_object_def dict_keys_def command_types_def)

lemma freeze_reason_listed: "dl_freeze_reason sg age = Some r \<Longrightarrow> r \<in> set freeze_reasons"
  by (auto simp: dl_freeze_reason_def freeze_reasons_def split: option.splits if_splits)

subsection \<open>The gateway never refuses a command of the loop\<close>

definition gw_sound :: "gateway \<Rightarrow> bool" where
  "gw_sound gw \<longleftrightarrow> (\<forall>n. contract_id (fst (gw_world gw n))) \<and> gw_sequence gw = int (gw_built gw) \<and>
     list_all (\<lambda>(c, m). command_contract m) (gw_delivered gw)"

lemma gw_sound_broadcast:
  assumes "gw_sound gw"
    and "ty = ''activate_creative'' \<and> activate_schema p \<or> ty = ''freeze'' \<and> reason_schema freeze_reasons p"
  shows "gw_sound (snd (gw_broadcast cmd_errs alive ty (Some p) gw))"
proof -
  obtain i t where w: "gw_world gw (gw_built gw) = (i, t)" by (cases "gw_world gw (gw_built gw)")
  from assms(1) w have "contract_id i" by (metis fst_conv gw_sound_def)
  with command_conforms [OF this _ assms(2)] assms(1)
  have c: "command_contract (command_msg i (gw_sequence gw + 1) t ty (Some p))" by (simp add: gw_sound_def)
  then show ?thesis
    using assms(1) w
    by (auto simp: gw_broadcast_def next_command_def gw_sound_def errs_of_def Let_def list_all_iff)
qed

text \<open>What the consumer holds when its validator is the ICD-3 contract and counts are bounded.\<close>

definition count_bounded :: "json \<Rightarrow> bool" where
  "count_bounded m = (case sg_presence (signal_view m) of None \<Rightarrow> True | Some (n, x) \<Rightarrow> n < 10 ^ 400)"

definition sc_sound :: "signal_consumer \<Rightarrow> bool" where
  "sc_sound sc = (case sc_latest sc of None \<Rightarrow> True | Some m \<Rightarrow> signal_contract m \<and> count_bounded m)"

lemma contract_presence:
  assumes "signal_contract m"
  shows "\<exists>n x. sg_presence (signal_view m) = Some (n, x) \<and> 0 \<le> n \<and> in_unit x"
proof -
  obtain st where st: "jget m ''state'' = Some st" "state_schema st"
    using schema_object_field [OF assms [unfolded signal_contract_def], of "''state''"] by auto
  obtain pr where pr: "jget st ''presence'' = Some pr" "presence_schema pr"
    using schema_object_field [OF st(2) [unfolded state_schema_def], of "''presence''"] by auto
  note f = schema_object_field [OF pr(2) [unfolded presence_schema_def]]
  obtain p q where pq: "jget pr ''count'' = Some p" "int_where (\<lambda>n. 0 \<le> n) p"
      "jget pr ''confidence'' = Some q" "num_where in_unit q"
    using f [of "''count''"] f [of "''confidence''"] by auto
  then obtain n x where "jint p = Some n" "0 \<le> n" "jnum q = Some x" "in_unit x"
    by (auto simp: int_where_def num_where_def split: option.splits json.splits)
  with st(1) pr(1) pq(1,3) show ?thesis by (simp add: signal_view_def)
qed

lemma sc_sound_process:
  assumes "sc_sound sc" "case raw of Decoded m \<Rightarrow> count_bounded m | _ \<Rightarrow> True"
    and "sc_process (errs_of signal_contract) now raw sc = (res, sc')"
  shows "sc_sound sc' \<and> (\<forall>e. res = Inl e \<longleftrightarrow> raw = LoadsError e)"
proof (cases "\<exists>m. raw = Decoded m \<and> signal_contract m")
  case False
  with assms show ?thesis by (auto simp: sc_process_def sc_sound_def split: payload.splits)
next
  case True
  then obtain m where m: "raw = Decoded m" "signal_contract m" by blast
  obtain v where "jget m ''message_id'' = Some v" "str_where contract_id v"
    using schema_object_field [OF m(2) [unfolded signal_contract_def], of "''message_id''"] by auto
  then obtain i where "jindex m ''message_id'' = Inr (JStr i)"
    by (auto simp: jindex_Inr str_where_def split: json.splits)
  with m assms show ?thesis by (auto simp: sc_process_def sc_sound_def sc_record_id_def split: if_splits)
qed

lemma dl_tick_gateway:
  assumes "sc_sound sc" "policy_ok (dl_policy dl)" "gw_sound gw" "dl_tick cmd_errs ti sc (dl, gw) = (r, (dl', gw'))"
  shows "gw_sound gw' \<and> dl_policy dl' = dl_policy dl"
proof (cases "dl_freeze_reason (latest_signal sc) (signal_age_ms (ti_now ti) sc)")
  case (Some reason)
  from reason_conforms [OF freeze_reason_listed [OF Some]] obtain p where
    "reason_body (Some reason) = Some p" "reason_schema freeze_reasons p" by blast
  with gw_sound_broadcast [OF assms(3), of "''freeze''" p "ti_alive ti"]
  have "gw_sound (snd (send_freeze cmd_errs (ti_alive ti) (Some reason) gw))" by (simp add: send_freeze_def)
  with assms(3,4) Some show ?thesis
    by (auto simp: dl_tick_def Let_def split: prod.splits if_splits)
next
  case None
  have act: "gw_sound (snd (send_activate_creative cmd_errs (ti_alive ti) mid (pe_min_dwell_ms (dl_policy dl))
      (pe_cooldown_ms (dl_policy dl)) (Some (dl_rationale b n x)) gw))"
    if ev: "evaluate h u (dl_policy dl) sg = Inr (Some mid)" "latest_signal sc = Some sg" "sg_presence sg = Some (n, x)" for h u sg mid n x b
  proof -
    have "contract_id mid" "0 \<le> pe_min_dwell_ms (dl_policy dl)" "0 \<le> pe_cooldown_ms (dl_policy dl)"
      using evaluate_from_rules [OF ev(1)] assms(2) by (auto simp: policy_ok_def list_all_iff)
    moreover obtain m where "signal_contract m" "count_bounded m" "sg = signal_view m"
      using ev(2) assms(1) by (auto simp: latest_signal_def sc_sound_def)
    then have "0 \<le> n" "in_unit x" "n < 10 ^ 400"
      using contract_presence [of m] ev(3) by (auto simp: count_bounded_def)
    then have "length (dl_rationale b n x) \<le> 500" by (simp add: length_rationale)
    ultimately show ?thesis
      by (simp add: send_activate_creative_def gw_sound_broadcast [OF assms(3)] activate_conforms)
  qed
  show ?thesis
    using assms(3,4) act
    by (auto simp: dl_tick_def None Let_def split: option.splits sum.splits prod.splits if_splits) (metis snd_conv)+
qed

text \<open>
  The assumptions on an event: the count of a received signal has at most 400 digits (the rationale
  text of a command is bounded by the contract), and a reloaded rules file, if it loads, is \<open>policy_ok\<close>.
\<close>

fun do_event_ok :: "(string \<Rightarrow> rat option) \<Rightarrow> (string \<Rightarrow> rat option) \<Rightarrow> do_event \<Rightarrow> bool" where
  "do_event_ok parse_int parse_float (DoMessage now raw) = (case raw of Decoded m \<Rightarrow> count_bounded m | _ \<Rightarrow> True)"
| "do_event_ok parse_int parse_float (DoReload file) =
     (case load_policy parse_int parse_float file of Inl e \<Rightarrow> True | Inr p \<Rightarrow> policy_ok p)"
| "do_event_ok parse_int parse_float _ = True"

text \<open>
  The error that ends the process: the first received payload whose decoding raises more than
  \<open>JSONDecodeError\<close> or \<open>UnicodeDecodeError\<close>. A payload is received while subscribed.
\<close>

fun first_failure :: "bool \<Rightarrow> do_event list \<Rightarrow> py_error option" where
  "first_failure subscribed [] = None"
| "first_failure subscribed (DoSubscribed # evs) = first_failure True evs"
| "first_failure subscribed (DoSubscriberLost # evs) = first_failure False evs"
| "first_failure subscribed (DoMessage now (LoadsError e) # evs) =
     (if subscribed then Some e else first_failure subscribed evs)"
| "first_failure subscribed (ev # evs) = first_failure subscribed evs"

definition do_sound :: "do_service \<Rightarrow> bool" where
  "do_sound s \<longleftrightarrow> sc_sound (do_consumer s) \<and> policy_ok (dl_policy (do_loop s)) \<and> gw_sound (do_gateway s)"

lemma do_step_sound:
  assumes "do_sound s" "do_event_ok ip fp ev"
  shows "do_sound (do_step (errs_of signal_contract) cmd_errs ip fp ev s)"
proof (cases "do_ended s")
  case (Some e)
  with assms(1) show ?thesis by (simp add: do_step.simps)
next
  case None
  show ?thesis
  proof (cases ev)
    case (DoMessage now raw)
    obtain r sc where p: "sc_process (errs_of signal_contract) now raw (do_consumer s) = (r, sc)" by (rule prod.exhaust)
    from sc_sound_process [OF _ _ p] assms have "sc_sound sc" by (simp add: DoMessage do_sound_def)
    with assms(1) p show ?thesis
      by (simp add: DoMessage do_step.simps do_message_def do_sound_def split: sum.split)
  next
    case (DoTick ti)
    obtain r dl gw where t: "dl_tick cmd_errs ti (do_consumer s) (do_loop s, do_gateway s) = (r, (dl, gw))"
      by (metis prod_cases3)
    from dl_tick_gateway [OF _ _ _ t] assms(1) show ?thesis
      by (simp add: DoTick do_step.simps do_sound_def t)
  next
    case (DoReload f)
    with assms show ?thesis
      by (auto simp: do_step.simps do_sound_def rules_reload_def reload_policy_def split: sum.splits)
  qed (use assms(1) in \<open>simp_all add: do_step.simps do_sound_def gw_connect_def gw_disconnect_def gw_sound_def\<close>)
qed

lemma do_run_Cons:
  "do_run errs errs' ip fp (ev # evs) s = do_run errs errs' ip fp evs (do_step errs errs' ip fp ev s)"
  by (simp add: do_run_def)

lemma do_run_sound:
  "do_sound s \<Longrightarrow> list_all (do_event_ok ip fp) evs \<Longrightarrow> do_sound (do_run (errs_of signal_contract) cmd_errs ip fp evs s)"
  by (induction evs arbitrary: s) (simp_all add: do_run_Cons do_step_sound, simp add: do_run_def)

lemma do_run_ended: "do_ended s \<noteq> None \<Longrightarrow> do_run errs errs' ip fp evs s = s"
  by (induction evs) (simp_all add: do_run_def do_step.simps)

lemma do_run_failure:
  "do_sound s \<Longrightarrow> list_all (do_event_ok ip fp) evs \<Longrightarrow> do_ended s = None \<Longrightarrow>
   do_ended (do_run (errs_of signal_contract) cmd_errs ip fp evs s) = first_failure (do_subscribed s) evs"
proof (induction evs arbitrary: s)
  case Nil
  then show ?case by (simp add: do_run_def)
next
  case (Cons ev evs)
  let ?s = "do_step (errs_of signal_contract) cmd_errs ip fp ev s"
  have sound: "do_sound ?s" using Cons.prems(1,2) do_step_sound by simp
  note IH = Cons.IH [OF sound]
  show ?case
  proof (cases ev)
    case (DoMessage now raw)
    obtain r sc where p: "sc_process (errs_of signal_contract) now raw (do_consumer s) = (r, sc)" by (rule prod.exhaust)
    have raises: "r = Inl e \<longleftrightarrow> raw = LoadsError e" for e
      using sc_sound_process [OF _ _ p] Cons.prems(1,2) by (simp add: DoMessage do_sound_def)
    show ?thesis
    proof (cases "\<exists>e. do_subscribed s \<and> raw = LoadsError e")
      case True
      then obtain e where e: "do_subscribed s" "raw = LoadsError e" "r = Inl e" using raises by blast
      with p Cons.prems(3) have "do_ended ?s = first_failure (do_subscribed s) (ev # evs)" "do_ended ?s \<noteq> None"
        by (simp_all add: DoMessage do_step.simps do_message_def)
      with do_run_ended show ?thesis by (simp add: do_run_Cons)
    next
      case False
      with raises p Cons.prems(3) have "do_ended ?s = None" "do_subscribed ?s = do_subscribed s"
        by (auto simp: DoMessage do_step.simps do_message_def split: sum.splits)
      moreover from False have "first_failure (do_subscribed s) (ev # evs) = first_failure (do_subscribed s) evs"
        by (cases raw) (auto simp: DoMessage)
      ultimately show ?thesis using IH Cons.prems(2) by (simp add: do_run_Cons)
    qed
  qed (use IH Cons.prems in \<open>simp_all add: do_run_Cons do_step.simps split_beta Let_def\<close>)
qed

lemma do_boot_sound:
  assumes "do_boot ip fp file world = Inr s" "policy_ok (dl_policy (do_loop s))" "\<And>n. contract_id (fst (world n))"
  shows "do_sound s \<and> do_ended s = None \<and> \<not> do_subscribed s"
  using assms
  by (auto simp: do_boot_def res_bind_Inr do_sound_def sc_sound_def init_sc_def init_dl_def gw_sound_def init_gw_def)


definition demo_rules :: "string \<Rightarrow> json" where
  "demo_rules mid = JObj [(''schema_version'', JStr ''1.0.0''), (''min_dwell_ms'', JInt 10000), (''cooldown_ms'', JInt 5000),
     (''rules'', JArr [JObj [(''rule_id'', JStr ''r''), (''priority'', JInt 1), (''manifest_id'', JStr mid)]])]"

definition demo_signal_json :: "string \<Rightarrow> bool \<Rightarrow> json" where
  "demo_signal_json i degraded = JObj
     [(''schema_version'', JStr ''1.0.0''), (''message_type'', JStr ''audience_state_signal''), (''message_id'', JStr i),
      (''produced_at'', JStr ''t''), (''tenant_id'', JStr ''t''), (''site_id'', JStr ''s''), (''camera_id'', JStr ''c''),
      (''state'', JObj [(''presence'', JObj [(''count'', JInt 2), (''confidence'', JFloat (9/10))]),
         (''stability'', JObj [(''state_stable'', JBool True), (''freeze_decision'', JBool False)])]),
      (''source_quality'', JObj [(''signal_age_ms'', JInt 0), (''pipeline_degraded'', JBool degraded)]),
      (''privacy'', JObj [(''contains_images'', JBool False), (''contains_frame_urls'', JBool False),
         (''contains_face_embeddings'', JBool False)])]"

definition demo_do_events :: "do_event list" where
  "demo_do_events = [DoSubscribed, DoConnect player_ws_path 1, DoTick (demo_tick 1), DoMessage 1 NotJson,
     DoMessage 1 (Decoded (demo_signal_json ''a'' False)), DoReload (Some (demo_rules ''m2'')), DoTick (demo_tick 2)]"

definition demo_do_start :: do_service where
  "demo_do_start = projr (do_boot (\<lambda>_. None) (\<lambda>_. None) (Some (demo_rules ''m1'')) (\<lambda>n. (if n = 0 then ''id-0'' else ''id-1'', ''t'')))"


end
