(* ===== verification/SimInjector.thy ===== *)
theory SimInjector
  imports InputCv
begin

section \<open>Observation injector (tools/sim-cv-injector.py)\<close>

text \<open>
  The tool that feeds the pipeline without a camera. The main loop publishes one synthetic
  observation per turn until a signal arrives or, with \<open>--count\<close>, enough of them are sent.
  The world gives each turn the uuid and timestamp of its message, the outcome of its
  publish and whether SIGTERM or SIGINT arrives during it (\<open>time.sleep\<close> resumes after the handler).
\<close>

subsection \<open>Scenarios and observations\<close>

record scenario =
  sn_present :: int
  sn_confidence :: rat
  sn_description :: string

definition SCENARIOS :: "(string \<times> scenario) list" where
  "SCENARIOS =
     [(''attract'', \<lparr>sn_present = 0, sn_confidence = 1/2, sn_description = ''no audience - attract loop''\<rparr>),
      (''single'', \<lparr>sn_present = 1, sn_confidence = 85/100, sn_description = ''1 person - default creative''\<rparr>),
      (''group'', \<lparr>sn_present = 4, sn_confidence = 9/10, sn_description = ''4 people - group creative''\<rparr>)]"

record injector_ids =
  ij_tenant_id :: string
  ij_site_id :: string
  ij_camera_id :: string

definition injected_observation :: "string \<Rightarrow> string \<Rightarrow> int \<Rightarrow> int \<Rightarrow> rat \<Rightarrow> injector_ids \<Rightarrow> json" where
  "injected_observation uuid now frame_seq present confidence ids = JObj
     [(''schema_version'', JStr ''1.0.0''), (''message_type'', JStr ''cv_observation''), (''message_id'', JStr uuid),
      (''produced_at'', JStr now), (''tenant_id'', JStr (ij_tenant_id ids)), (''site_id'', JStr (ij_site_id ids)),
      (''camera_id'', JStr (ij_camera_id ids)), (''pipeline_id'', JStr ''sim-injector-01''),
      (''frame_seq'', JInt frame_seq), (''window_ms'', JInt 1000),
      (''counts'', JObj [(''present'', JInt present), (''confidence'', JFloat confidence)]),
      (''quality'', JObj [(''frames_processed'', JInt 10), (''frames_dropped'', JInt 0),
         (''pipeline_degraded'', JBool False)]),
      (''privacy'', JObj [(''contains_images'', JBool False), (''contains_frame_urls'', JBool False),
         (''contains_face_embeddings'', JBool False)])]"

subsection \<open>Command line\<close>

record injector_args =
  ia_scenario :: string
  ia_rate :: rat
  ia_count :: int
  ia_host :: "string option"
  ia_port :: "int option"
  ia_tenant :: "string option"
  ia_site :: "string option"
  ia_camera :: string

text \<open>The defaults of \<open>_parse_args\<close>; \<open>choices\<close> restricts the scenario.\<close>

definition default_args :: injector_args where
  "default_args = \<lparr>ia_scenario = ''single'', ia_rate = 1, ia_count = 0, ia_host = None, ia_port = None,
     ia_tenant = None, ia_site = None, ia_camera = ''cam-main-01''\<rparr>"

definition args_accepted :: "injector_args \<Rightarrow> bool" where
  "args_accepted a \<longleftrightarrow> ia_scenario a \<in> set (dict_keys SCENARIOS)"

text \<open>\<open>args.x or os.environ.get(k, v)\<close>.\<close>

definition arg_or_environ :: "string option \<Rightarrow> (string \<Rightarrow> string option) \<Rightarrow> string \<Rightarrow> string \<Rightarrow> string" where
  "arg_or_environ arg env k v =
     (case arg of Some s \<Rightarrow> if s = [] then environ_get env k v else s | None \<Rightarrow> environ_get env k v)"

definition port_or_environ :: "(string \<Rightarrow> int option) \<Rightarrow> int option \<Rightarrow> (string \<Rightarrow> string option) \<Rightarrow> int res" where
  "port_or_environ parse_int arg env =
     (case arg of
        Some n \<Rightarrow> if n = 0 then environ_int parse_int env ''MQTT_PORT'' ''1883'' else Inr n
      | None \<Rightarrow> environ_int parse_int env ''MQTT_PORT'' ''1883'')"

definition injector_interval :: "rat \<Rightarrow> rat" where
  "injector_interval rate = (if 0 < rate then 1 / rate else 1)"

definition injector_topic :: "injector_ids \<Rightarrow> string" where
  "injector_topic ids =
     ''cv/v1/observations/'' @ ij_tenant_id ids @ ''/'' @ ij_site_id ids @ ''/'' @ ij_camera_id ids"

record injector_setup =
  is_host :: string
  is_port :: int
  is_ids :: injector_ids
  is_present :: int
  is_confidence :: rat
  is_topic :: string
  is_interval :: rat
  is_count :: int

text \<open>\<open>main\<close> up to the connection.\<close>

definition injector_setup_of :: "(string \<Rightarrow> int option) \<Rightarrow> (string \<Rightarrow> string option) \<Rightarrow> injector_args
    \<Rightarrow> injector_setup res" where
  "injector_setup_of parse_int env a =
     res_bind (port_or_environ parse_int (ia_port a) env) (\<lambda>port.
     let ids = \<lparr>ij_tenant_id = arg_or_environ (ia_tenant a) env ''TENANT_ID'' ''default-tenant'',
           ij_site_id = arg_or_environ (ia_site a) env ''SITE_ID'' ''site-01'', ij_camera_id = ia_camera a\<rparr> in
     case map_of SCENARIOS (ia_scenario a) of
       None \<Rightarrow> Inl (KeyError (ia_scenario a))
     | Some sc \<Rightarrow>
         Inr \<lparr>is_host = arg_or_environ (ia_host a) env ''MQTT_HOST'' ''127.0.0.1'', is_port = port, is_ids = ids,
           is_present = sn_present sc, is_confidence = sn_confidence sc, is_topic = injector_topic ids,
           is_interval = injector_interval (ia_rate a), is_count = ia_count a\<rparr>)"

subsection \<open>The loop\<close>

record injector_turn =
  it_uuid :: string
  it_now :: string
  it_published :: bool
  it_signalled :: bool

record injector_state =
  ij_shutdown :: bool
  ij_frame_seq :: int
  ij_sent :: int
  ij_published :: "json list"

definition init_injector :: injector_state where
  "init_injector = \<lparr>ij_shutdown = False, ij_frame_seq = 0, ij_sent = 0, ij_published = []\<rparr>"

text \<open>The body: build, publish, count on success, note a signal.\<close>

definition injector_body :: "injector_setup \<Rightarrow> injector_turn \<Rightarrow> injector_state \<Rightarrow> injector_state" where
  "injector_body su t s =
     (let payload = injected_observation (it_uuid t) (it_now t) (ij_frame_seq s) (is_present su) (is_confidence su) (is_ids su);
          s1 = (if it_published t
                then s\<lparr>ij_frame_seq := ij_frame_seq s + 1, ij_sent := ij_sent s + 1,
                       ij_published := ij_published s @ [payload]\<rparr>
                else s)
      in s1\<lparr>ij_shutdown := ij_shutdown s \<or> it_signalled t\<rparr>)"

definition target_reached :: "injector_setup \<Rightarrow> injector_state \<Rightarrow> bool" where
  "target_reached su s \<longleftrightarrow> 0 < is_count su \<and> is_count su \<le> ij_sent s"

text \<open>\<open>while not shutdown\<close>, with the \<open>break\<close>; a loop that never ends has no value.\<close>

partial_function (option) injector_loop :: "injector_setup \<Rightarrow> (nat \<Rightarrow> injector_turn) \<Rightarrow> nat \<Rightarrow> injector_state
    \<Rightarrow> injector_state option" where
  "injector_loop su world k s =
     (if ij_shutdown s then Some s
      else let s' = injector_body su (world k) s
           in if target_reached su s' then Some s' else injector_loop su world (Suc k) s')"

text \<open>\<open>main\<close>: the exit code 1 of a failed connection, otherwise the state the loop ends in.\<close>

datatype injector_exit = ConnectFailed | Stopped injector_state

definition injector_main :: "(string \<Rightarrow> int option) \<Rightarrow> (string \<Rightarrow> string option) \<Rightarrow> bool \<Rightarrow> (nat \<Rightarrow> injector_turn)
    \<Rightarrow> injector_args \<Rightarrow> injector_exit option res" where
  "injector_main parse_int env connects world a =
     res_bind (injector_setup_of parse_int env a) (\<lambda>su.
       Inr (if connects then map_option Stopped (injector_loop su world 0 init_injector) else Some ConnectFailed))"

subsection \<open>When the loop ends\<close>

text \<open>The successful publishes among the first \<open>k\<close> turns, and when turn \<open>k\<close> is the last.\<close>

definition successes :: "(nat \<Rightarrow> injector_turn) \<Rightarrow> nat \<Rightarrow> nat" where
  "successes world k = length (filter (\<lambda>i. it_published (world i)) [0..<k])"

definition last_turn :: "injector_setup \<Rightarrow> (nat \<Rightarrow> injector_turn) \<Rightarrow> nat \<Rightarrow> bool" where
  "last_turn su world k \<longleftrightarrow>
     0 < is_count su \<and> is_count su \<le> int (successes world (Suc k)) \<or> it_signalled (world k)"

text \<open>The messages of the first \<open>k\<close> turns, numbered by the successes before them.\<close>

definition messages :: "injector_setup \<Rightarrow> (nat \<Rightarrow> injector_turn) \<Rightarrow> nat \<Rightarrow> json list" where
  "messages su world k =
     map (\<lambda>i. injected_observation (it_uuid (world i)) (it_now (world i)) (int (successes world i))
            (is_present su) (is_confidence su) (is_ids su))
       (filter (\<lambda>i. it_published (world i)) [0..<k])"

definition state_after :: "injector_setup \<Rightarrow> (nat \<Rightarrow> injector_turn) \<Rightarrow> nat \<Rightarrow> injector_state" where
  "state_after su world k =
     \<lparr>ij_shutdown = list_ex (\<lambda>i. it_signalled (world i)) [0..<k],
      ij_frame_seq = int (successes world k), ij_sent = int (successes world k),
      ij_published = messages su world k\<rparr>"

lemma state_after_0: "state_after su world 0 = init_injector"
  by (simp add: state_after_def init_injector_def successes_def messages_def)

lemma injector_body_state_after: "injector_body su (world k) (state_after su world k) = state_after su world (Suc k)"
  by (auto simp: injector_body_def state_after_def successes_def messages_def Let_def)

text \<open>Before the first last turn the loop goes round; there it ends.\<close>

lemma injector_loop_round:
  assumes "\<not> list_ex (\<lambda>i. it_signalled (world i)) [0..<k]"
  shows "injector_loop su world k (state_after su world k) =
    (if last_turn su world k then Some (state_after su world (Suc k))
     else injector_loop su world (Suc k) (state_after su world (Suc k)))"
proof -
  have s: "\<not> ij_shutdown (state_after su world k)" using assms by (simp add: state_after_def)
  have unf: "injector_loop su world k (state_after su world k) =
      (if target_reached su (state_after su world (Suc k)) then Some (state_after su world (Suc k))
       else injector_loop su world (Suc k) (state_after su world (Suc k)))"
    by (subst injector_loop.simps) (simp add: s injector_body_state_after Let_def)
  have t: "target_reached su (state_after su world (Suc k)) \<longleftrightarrow> 0 < is_count su \<and> is_count su \<le> int (successes world (Suc k))"
    by (simp add: target_reached_def state_after_def)
  show ?thesis
  proof (cases "it_signalled (world k)")
    case True
    then have "ij_shutdown (state_after su world (Suc k))" by (simp add: state_after_def)
    then have "injector_loop su world (Suc k) (state_after su world (Suc k)) = Some (state_after su world (Suc k))"
      by (subst injector_loop.simps) simp
    with True unf show ?thesis by (simp add: last_turn_def)
  next
    case False
    with unf t show ?thesis by (simp add: last_turn_def)
  qed
qed

lemma injector_loop_ends:
  "last_turn su world (k + d) \<Longrightarrow> \<not> list_ex (last_turn su world) [0..<k + d] \<Longrightarrow>
   injector_loop su world k (state_after su world k) = Some (state_after su world (Suc (k + d)))"
proof (induction d arbitrary: k)
  case 0
  then have "\<not> list_ex (\<lambda>i. it_signalled (world i)) [0..<k]" by (auto simp: list_ex_iff last_turn_def)
  from injector_loop_round [OF this] 0 show ?case by simp
next
  case (Suc d)
  from Suc.prems(2) have no: "\<not> last_turn su world k" "\<not> list_ex (\<lambda>i. it_signalled (world i)) [0..<k]"
    by (auto simp: list_ex_iff last_turn_def)
  show ?case using injector_loop_round [OF no(2)] no(1) Suc.IH [of "Suc k"] Suc.prems by simp
qed

text \<open>Without a last turn the loop has no value.\<close>

lemma injector_loop_returns:
  assumes "injector_loop su world k s = Some r"
  shows "s = state_after su world k \<longrightarrow> (\<exists>j. last_turn su world j)"
proof (rule injector_loop.raw_induct [where P = "\<lambda>su world k s r. s = state_after su world k \<longrightarrow> (\<exists>j. last_turn su world j)", OF _ assms], goal_cases)
  case (1 loop su world k s r)
  show ?case
  proof (rule impI, rule ccontr)
    assume s: "s = state_after su world k" and none: "\<nexists>j. last_turn su world j"
    then have sig: "\<not> it_signalled (world i)" for i by (auto simp: last_turn_def)
    then have "\<not> ij_shutdown s" by (simp add: s state_after_def list_ex_iff)
    moreover have "\<not> target_reached su (state_after su world (Suc k))"
      using none by (auto simp: target_reached_def state_after_def last_turn_def)
    ultimately have "loop su world (Suc k) (state_after su world (Suc k)) = Some r"
      using 1(2) by (simp add: s injector_body_state_after Let_def)
    with 1(1) none show False by blast
  qed
qed

lemma last_turn_first:
  assumes "last_turn su world k"
  shows "\<exists>k. last_turn su world k \<and> \<not> list_ex (last_turn su world) [0..<k]"
  using ex_has_least_nat [of "last_turn su world" k id] assms by (fastforce simp: list_ex_iff not_le [symmetric])

lemma injector_loop_None:
  assumes "injector_loop su world 0 init_injector = None"
  shows "\<not> last_turn su world k"
proof
  assume "last_turn su world k"
  from last_turn_first [OF this] obtain j where "last_turn su world (0 + j)" "\<not> list_ex (last_turn su world) [0..<0 + j]"
    by auto
  from injector_loop_ends [OF this] assms show False by (simp add: state_after_0)
qed

lemma injector_loop_Some:
  assumes "injector_loop su world 0 init_injector = Some s"
  shows "\<exists>k. last_turn su world k \<and> \<not> list_ex (last_turn su world) [0..<k] \<and> s = state_after su world (Suc k)"
proof -
  from injector_loop_returns [OF assms] obtain j where "last_turn su world j" by (auto simp: state_after_0)
  from last_turn_first [OF this] obtain k where k: "last_turn su world (0 + k)" "\<not> list_ex (last_turn su world) [0..<0 + k]"
    by auto
  from injector_loop_ends [OF this] assms k show ?thesis by (auto simp: state_after_0)
qed

lemma successes_Suc: "successes world (Suc k) = successes world k + (if it_published (world k) then 1 else 0)"
  by (simp add: successes_def)

lemma successes_mono: "j \<le> k \<Longrightarrow> successes world j \<le> successes world k"
  by (induction k) (auto simp: successes_Suc le_Suc_eq)

text \<open>With a target, the loop ends in the turn that publishes the last message asked for.\<close>

lemma sent_exactly:
  assumes "last_turn su world k" "\<not> list_ex (last_turn su world) [0..<k]" "0 < is_count su" "\<not> it_signalled (world k)"
  shows "int (successes world (Suc k)) = is_count su"
proof (cases k)
  case 0
  then have "successes world (Suc k) \<le> 1" by (simp add: successes_def)
  moreover from assms have "is_count su \<le> int (successes world (Suc k))" by (simp add: last_turn_def)
  ultimately show ?thesis using assms(3) by linarith
next
  case (Suc j)
  with assms(2) have "\<not> last_turn su world j" by (auto simp: list_ex_iff)
  with assms(3) have "int (successes world k) < is_count su" by (simp add: last_turn_def Suc)
  then show ?thesis using assms(1,3,4) by (auto simp: last_turn_def successes_Suc split: if_splits)
qed

subsection \<open>Properties\<close>

text \<open>
  C40. Termination of the injector: the loop returns exactly when a signal arrives in some
  turn or a positive \<open>--count\<close> is reached by the successful publishes; without a signal it then returns
  having published exactly \<open>--count\<close> observations, with frame numbers 0, 1, 2 and so on,
  however many publishes failed on the way. Otherwise it runs forever.
\<close>

theorem injector_stops:
  "case injector_loop su world 0 init_injector of
     None \<Rightarrow> \<not> (\<exists>k. it_signalled (world k)) \<and> \<not> (0 < is_count su \<and> (\<exists>k. is_count su \<le> int (successes world k)))
   | Some s \<Rightarrow>
       ij_sent s = int (length (ij_published s)) \<and>
       map (\<lambda>m. jget m ''frame_seq'') (ij_published s) = map (\<lambda>i. Some (JInt (int i))) [0..<length (ij_published s)] \<and>
       (ij_shutdown s \<or> 0 < is_count su \<and> ij_sent s = is_count su)"
proof (cases "injector_loop su world 0 init_injector")
  case None
  then have no: "\<not> last_turn su world k" for k using injector_loop_None by blast
  have "\<not> is_count su \<le> int (successes world k)" if "0 < is_count su" for k
  proof (cases k)
    case 0
    with that show ?thesis by (simp add: successes_def)
  next
    case (Suc j)
    with no [of j] that show ?thesis by (simp add: last_turn_def)
  qed
  with no None show ?thesis by (auto simp: last_turn_def)
next
  case (Some s)
  then obtain k where k: "last_turn su world k" "\<not> list_ex (last_turn su world) [0..<k]" "s = state_after su world (Suc k)"
    using injector_loop_Some by blast
  have frames: "map (\<lambda>m. jget m ''frame_seq'') (messages su world n) = map (\<lambda>i. Some (JInt (int i))) [0..<successes world n]" for n
    by (induction n) (simp_all add: messages_def successes_def injected_observation_def)
  have len: "length (messages su world n) = successes world n" for n by (simp add: messages_def successes_def)
  have "ij_shutdown s \<or> 0 < is_count su \<and> ij_sent s = is_count su"
    using k(1,3) sent_exactly [OF k(1,2)] by (auto simp: state_after_def last_turn_def)
  with Some k(3) show ?thesis by (simp add: state_after_def len frames)
qed

lemma injected_conforms:
  assumes "contract_id uuid" "0 \<le> n" "0 \<le> present" "in_unit confidence"
    and "contract_name (ij_tenant_id ids)" "contract_name (ij_site_id ids)" "contract_name (ij_camera_id ids)"
  shows "cv_observation_contract (injected_observation uuid now n present confidence ids)"
proof -
  have "contract_name ''sim-injector-01''" by code_simp
  with assms show ?thesis
    by (simp add: cv_observation_contract_def injected_observation_def schema_object_def dict_keys_def counts_schema_def
        quality_schema_def privacy_schema_def)
qed

text \<open>
  The injector stands in for the camera service: for every scenario, whatever turns the
  loop made, each observation it has published satisfies the ICD-2 contract of the consumer,
  when the identifiers on the command line and in the environment are contract names.
\<close>

theorem injected_accepted:
  assumes "injector_setup_of parse_int env a = Inr su" "injector_loop su world 0 init_injector = Some s"
    and "contract_name (ij_tenant_id (is_ids su))" "contract_name (ij_site_id (is_ids su))"
    and "contract_name (ij_camera_id (is_ids su))" "\<And>k. contract_id (it_uuid (world k))"
  shows "list_all cv_observation_contract (ij_published s) \<and>
    list_all (\<lambda>m. jpath m [''counts'', ''present''] = map_option (\<lambda>sc. JInt (sn_present sc)) (map_of SCENARIOS (ia_scenario a)))
      (ij_published s)"
proof -
  from assms(1) obtain sc where sc: "map_of SCENARIOS (ia_scenario a) = Some sc"
    "is_present su = sn_present sc" "is_confidence su = sn_confidence sc"
    by (auto simp: injector_setup_of_def res_bind_Inr Let_def split: option.splits)
  have "0 \<le> sn_present sc" "in_unit (sn_confidence sc)"
    using sc(1) by (auto simp: SCENARIOS_def in_unit_def split: if_splits)
  then have conf: "cv_observation_contract (injected_observation (it_uuid (world i)) t (int n) (is_present su) (is_confidence su) (is_ids su))"
    for i t n
    using assms(3-6) by (simp add: injected_conforms sc)
  obtain k where "s = state_after su world (Suc k)"
    using injector_loop_Some [OF assms(2)] by blast
  then have pub: "ij_published s = messages su world (Suc k)" by (simp add: state_after_def)
  show ?thesis
    unfolding pub messages_def
    by (simp add: list_all_iff conf) (simp add: injected_observation_def sc)
qed

definition demo_turn :: "nat \<Rightarrow> injector_turn" where
  "demo_turn k = \<lparr>it_uuid = ''u'', it_now = ''t'', it_published = odd k, it_signalled = False\<rparr>"

definition demo_injector_args :: injector_args where
  "demo_injector_args = default_args\<lparr>ia_scenario := ''group'', ia_count := 2\<rparr>"

definition demo_injector_setup :: injector_setup where
  "demo_injector_setup = projr (injector_setup_of (\<lambda>_. Some 1883) (\<lambda>_. None) demo_injector_args)"

theorem injected_accepted_witness:
  "\<exists>s. injector_loop demo_injector_setup demo_turn 0 init_injector = Some s \<and> length (ij_published s) = 2 \<and>
     list_all cv_observation_contract (ij_published s)"
proof -
  have su: "injector_setup_of (\<lambda>_. Some 1883) (\<lambda>_. None) demo_injector_args = Inr demo_injector_setup"
    "contract_name (ij_tenant_id (is_ids demo_injector_setup))" "contract_name (ij_site_id (is_ids demo_injector_setup))"
    "contract_name (ij_camera_id (is_ids demo_injector_setup))" "contract_id ''u''"
    by code_simp+
  have "last_turn demo_injector_setup demo_turn 3" "\<not> list_ex (last_turn demo_injector_setup demo_turn) [0..<3]"
    "length (ij_published (state_after demo_injector_setup demo_turn 4)) = 2"
    by code_simp+
  then have "injector_loop demo_injector_setup demo_turn 0 init_injector = Some (state_after demo_injector_setup demo_turn 4)"
    using injector_loop_ends [of demo_injector_setup demo_turn 0 3] by (simp add: state_after_0)
  moreover from injected_accepted [OF su(1) this su(2-4)] su(5)
  have "list_all cv_observation_contract (ij_published (state_after demo_injector_setup demo_turn 4))"
    by (simp add: demo_turn_def)
  ultimately show ?thesis using \<open>length _ = 2\<close> by blast
qed

text \<open>The topic of the defaults is not the one audience-state subscribes to by default.\<close>

lemma default_topic:
  "injector_setup_of (\<lambda>_. Some 1883) (\<lambda>_. None) default_args = Inr su \<Longrightarrow>
   is_topic su = ''cv/v1/observations/default-tenant/site-01/cam-main-01''"
  by (auto simp: injector_setup_of_def default_args_def port_or_environ_def environ_int_def environ_get_def
      arg_or_environ_def injector_topic_def res_bind_Inr SCENARIOS_def)

end
