(* ===== verification/ApiResponses.thy ===== *)
theory ApiResponses
  imports DashboardApi Analytics
begin

section \<open>Response models of the dashboard (schemas.py) and the routes that use them\<close>

text \<open>
  What the dashboard frontend receives: the pydantic response models built from rows
  (\<open>model_validate\<close> with \<open>from_attributes\<close>) and their JSON. A column value the model's type
  does not admit is a \<open>ValidationError\<close>, a subclass of \<open>ValueError\<close>; a route that raises it
  answers 500, after what it has committed. \<open>fmt\<close> is the ISO text FastAPI gives a datetime
  and \<open>uuid\<close> the key column of rows that the tables of DashboardDb leave out.
\<close>

subsection \<open>Manifests\<close>

definition pagination_json :: "pagination \<Rightarrow> json" where
  "pagination_json p = JObj [(''total'', JInt (pg_total p)), (''page'', JInt (pg_page p)),
     (''page_size'', JInt (pg_page_size p)), (''pages'', JInt (pg_pages p))]"

definition time_json :: "(rat \<Rightarrow> string) \<Rightarrow> rat option \<Rightarrow> json" where
  "time_json fmt t = opt_json (\<lambda>s. JStr (fmt s)) t"

text \<open>\<open>audience_tags: list[str]\<close>; the default only replaces a missing attribute, not \<open>None\<close>.\<close>

definition tags_json :: "string list option \<Rightarrow> json res" where
  "tags_json tags = (case tags of None \<Rightarrow> Inl ValueError | Some ts \<Rightarrow> Inr (JArr (map JStr ts)))"

definition manifest_out :: "(rat \<Rightarrow> string) \<Rightarrow> manifest_row \<Rightarrow> json res" where
  "manifest_out fmt m = res_bind (tags_json (mr_audience_tags m)) (\<lambda>tags. Inr (JObj
     [(''id'', JStr (mr_id m)), (''manifest_id'', JStr (mr_manifest_id m)), (''title'', JStr (mr_title m)),
      (''status'', JStr (status_str (mr_status m))), (''schema_version'', JStr (mr_schema_version m)),
      (''manifest_json'', mr_manifest_json m), (''rejection_reason'', opt_json JStr (mr_rejection_reason m)),
      (''approved_by'', opt_json JStr (mr_approved_by m)), (''approved_at'', time_json fmt (mr_approved_at m)),
      (''enabled_at'', time_json fmt (mr_enabled_at m)), (''created_at'', JStr (fmt (mr_created_at m))),
      (''updated_at'', JStr (fmt (mr_updated_at m))), (''audience_tags'', tags)]))"

definition manifest_summary_out :: "(rat \<Rightarrow> string) \<Rightarrow> manifest_row \<Rightarrow> json res" where
  "manifest_summary_out fmt m = res_bind (tags_json (mr_audience_tags m)) (\<lambda>tags. Inr (JObj
     [(''id'', JStr (mr_id m)), (''manifest_id'', JStr (mr_manifest_id m)), (''title'', JStr (mr_title m)),
      (''status'', JStr (status_str (mr_status m))), (''schema_version'', JStr (mr_schema_version m)),
      (''approved_at'', time_json fmt (mr_approved_at m)), (''enabled_at'', time_json fmt (mr_enabled_at m)),
      (''created_at'', JStr (fmt (mr_created_at m))), (''updated_at'', JStr (fmt (mr_updated_at m))),
      (''audience_tags'', tags)]))"

fun res_map :: "('a \<Rightarrow> 'b res) \<Rightarrow> 'a list \<Rightarrow> 'b list res" where
  "res_map f [] = Inr []"
| "res_map f (x # xs) = res_bind (f x) (\<lambda>y. res_bind (res_map f xs) (\<lambda>ys. Inr (y # ys)))"

definition manifest_list_out :: "(rat \<Rightarrow> string) \<Rightarrow> manifest_row list \<times> pagination \<Rightarrow> json res" where
  "manifest_list_out fmt rp = res_bind (res_map (manifest_summary_out fmt) (fst rp))
     (\<lambda>items. Inr (JObj [(''items'', JArr items), (''pagination'', pagination_json (snd rp))]))"

definition sync_rules_out :: "sync_out \<Rightarrow> json" where
  "sync_rules_out so = JObj
     [(''status'', JStr ''ok''), (''enabled_manifests'', JInt (int (so_enabled_manifests so))),
      (''generated_rules'', JInt (int (so_generated_rules so))), (''has_fallback'', JBool (so_has_fallback so)),
      (''optimizer_reloaded'', JBool (so_optimizer_reloaded so)),
      (''optimizer_detail'', JStr (so_optimizer_detail so))]"

subsection \<open>The other response models\<close>

definition asset_out :: "(rat \<Rightarrow> string) \<Rightarrow> string \<Rightarrow> asset_row \<Rightarrow> json" where
  "asset_out fmt uuid a = JObj
     [(''id'', JStr uuid), (''asset_id'', JStr (ar_asset_id a)), (''filename'', JStr (ar_filename a)),
      (''asset_type'', JStr (ar_asset_type a)), (''size_bytes'', JInt (int (ar_size_bytes a))),
      (''sha256'', JStr (ar_sha256 a)), (''manifest_id'', opt_json JStr (ar_manifest_id a)),
      (''status'', JStr (case ar_status a of AssetActive \<Rightarrow> ''active'' | AssetArchived \<Rightarrow> ''archived'')),
      (''uploaded_at'', JStr (fmt (ar_uploaded_at a)))]"

definition asset_summary :: "(rat \<Rightarrow> string) \<Rightarrow> string \<Rightarrow> asset_row \<Rightarrow> json" where
  "asset_summary fmt uuid a = JObj
     [(''id'', JStr uuid), (''asset_id'', JStr (ar_asset_id a)), (''filename'', JStr (ar_filename a)),
      (''asset_type'', JStr (ar_asset_type a)), (''size_bytes'', JInt (int (ar_size_bytes a))),
      (''status'', JStr (case ar_status a of AssetActive \<Rightarrow> ''active'' | AssetArchived \<Rightarrow> ''archived'')),
      (''uploaded_at'', JStr (fmt (ar_uploaded_at a)))]"

definition asset_list_out :: "(rat \<Rightarrow> string) \<Rightarrow> (asset_row \<Rightarrow> string) \<Rightarrow> asset_row list \<times> pagination \<Rightarrow> json" where
  "asset_list_out fmt uuid rp = JObj [(''items'', JArr (map (\<lambda>a. asset_summary fmt (uuid a) a) (fst rp))),
     (''pagination'', pagination_json (snd rp))]"

definition campaign_out_json :: "(rat \<Rightarrow> string) \<Rightarrow> campaign_out \<Rightarrow> json" where
  "campaign_out_json fmt co = (let c = co_campaign co in JObj
     [(''id'', JStr (cr_id c)), (''name'', JStr (cr_name c)), (''description'', opt_json JStr (cr_description c)),
      (''status'', JStr (campaign_status_str (cr_status c))), (''start_at'', time_json fmt (cr_start_at c)),
      (''end_at'', time_json fmt (cr_end_at c)), (''manifest_ids'', JArr (map JStr (co_manifest_ids co))),
      (''created_at'', JStr (fmt (cr_created_at c))), (''updated_at'', JStr (fmt (cr_updated_at c)))])"

definition campaign_summary :: "(rat \<Rightarrow> string) \<Rightarrow> campaign_row \<Rightarrow> json" where
  "campaign_summary fmt c = JObj
     [(''id'', JStr (cr_id c)), (''name'', JStr (cr_name c)),
      (''status'', JStr (campaign_status_str (cr_status c))), (''start_at'', time_json fmt (cr_start_at c)),
      (''end_at'', time_json fmt (cr_end_at c)), (''created_at'', JStr (fmt (cr_created_at c))),
      (''updated_at'', JStr (fmt (cr_updated_at c)))]"

definition campaign_list_out :: "(rat \<Rightarrow> string) \<Rightarrow> campaign_row list \<times> pagination \<Rightarrow> json" where
  "campaign_list_out fmt rp = JObj [(''items'', JArr (map (campaign_summary fmt) (fst rp))),
     (''pagination'', pagination_json (snd rp))]"

definition audit_event_out :: "(rat \<Rightarrow> string) \<Rightarrow> string \<Rightarrow> audit_event \<Rightarrow> json" where
  "audit_event_out fmt uuid e = JObj
     [(''id'', JStr uuid), (''event_type'', JStr (ae_event_type e)), (''entity_type'', JStr (ae_entity_type e)),
      (''entity_id'', JStr (ae_entity_id e)), (''actor'', JStr (ae_actor e)), (''payload'', ae_payload e),
      (''created_at'', JStr (fmt (ae_created_at e)))]"

definition audit_list_out :: "(rat \<Rightarrow> string) \<Rightarrow> (audit_event \<Rightarrow> string) \<Rightarrow> audit_event list \<times> pagination \<Rightarrow> json" where
  "audit_list_out fmt uuid rp = JObj [(''items'', JArr (map (\<lambda>e. audit_event_out fmt (uuid e) e) (fst rp))),
     (''pagination'', pagination_json (snd rp))]"

definition play_event_out :: "(rat \<Rightarrow> string) \<Rightarrow> string \<Rightarrow> play_row \<Rightarrow> json" where
  "play_event_out fmt uuid p = JObj
     [(''id'', JStr uuid), (''manifest_id'', JStr (pw_manifest_id p)),
      (''activated_at'', JStr (fmt (pw_activated_at p))), (''reason'', opt_json JStr (pw_reason p)),
      (''prev_manifest_id'', opt_json JStr (pw_prev_manifest_id p)),
      (''attention_at_trigger'', opt_json JFloat (pw_attention_at_trigger p)),
      (''received_at'', JStr (fmt (pw_received_at p)))]"

definition play_list_out :: "(rat \<Rightarrow> string) \<Rightarrow> (play_row \<Rightarrow> string) \<Rightarrow> play_row list \<times> pagination \<Rightarrow> json" where
  "play_list_out fmt uuid rp = JObj [(''items'', JArr (map (\<lambda>p. play_event_out fmt (uuid p) p) (fst rp))),
     (''pagination'', pagination_json (snd rp))]"

subsection \<open>The manifest routes as the client sees them\<close>

text \<open>An exception of the handler itself: FastAPI answers an \<open>HTTPException\<close> with its code, all others with 500.\<close>

definition http_reply :: "nat \<Rightarrow> json res \<Rightarrow> nat \<times> json option" where
  "http_reply ok r =
     (case r of
        Inr j \<Rightarrow> (ok, Some j)
      | Inl (HTTPException code) \<Rightarrow> (code, None)
      | Inl _ \<Rightarrow> (500, None))"

lemma http_reply_simps [simp]:
  "http_reply ok (Inr j) = (ok, Some j)" "http_reply ok (Inl (HTTPException code)) = (code, None)"
  "http_reply ok (Inl ValueError) = (500, None)"
  by (simp_all add: http_reply_def)

definition manifests_page_route :: "(rat \<Rightarrow> string) \<Rightarrow> string option \<Rightarrow> int \<Rightarrow> int option \<Rightarrow> dashboard
    \<Rightarrow> nat \<times> json option" where
  "manifests_page_route fmt status page page_size db =
     http_reply 200 (res_bind (list_manifests status page page_size db) (manifest_list_out fmt))"

definition manifest_detail_route :: "(rat \<Rightarrow> string) \<Rightarrow> string \<Rightarrow> dashboard \<Rightarrow> nat \<times> json option" where
  "manifest_detail_route fmt mid db = http_reply 200 (res_bind (get_manifest_or_404 mid db) (manifest_out fmt))"

text \<open>A write commits before its response is built.\<close>

definition write_route :: "(rat \<Rightarrow> string) \<Rightarrow> nat \<Rightarrow> manifest_row res \<times> dashboard \<Rightarrow> (nat \<times> json option) \<times> dashboard" where
  "write_route fmt ok rd = (http_reply ok (res_bind (fst rd) (manifest_out fmt)), snd rd)"

lemma tags_json_tagged: "mr_audience_tags m \<noteq> None \<Longrightarrow> tags_json (mr_audience_tags m) = Inr (JArr (map JStr (row_tags m)))"
  by (auto simp: tags_json_def row_tags_def)

lemma manifest_out_error:
  "manifest_out fmt m = Inl e \<longleftrightarrow> mr_audience_tags m = None \<and> e = ValueError"
  "manifest_summary_out fmt m = Inl e \<longleftrightarrow> mr_audience_tags m = None \<and> e = ValueError"
  by (auto simp: manifest_out_def manifest_summary_out_def tags_json_def split: option.split)

subsection \<open>Rows the API wrote can be shown\<close>

definition all_tagged :: "dashboard \<Rightarrow> bool" where
  "all_tagged db \<longleftrightarrow> list_all (\<lambda>m. mr_audience_tags m \<noteq> None) (db_manifests db)"

lemma all_tagged_put:
  "all_tagged db \<Longrightarrow> mr_audience_tags m \<noteq> None \<Longrightarrow> all_tagged (put_row m db)"
  by (auto simp: all_tagged_def put_row_def list_all_iff)

lemma all_tagged_row: "all_tagged db \<Longrightarrow> find_row i db = Some m \<Longrightarrow> mr_audience_tags m \<noteq> None"
  unfolding all_tagged_def find_row_def list_all_iff find_Some_iff by (metis nth_mem)

lemma all_tagged_frame [simp]:
  "all_tagged (write_event now ty et eid who p db) = all_tagged db"
  "all_tagged (write_manifest_to_disk ok m db) = all_tagged db"
  "all_tagged (remove_manifest_from_disk ok mid db) = all_tagged db"
  "all_tagged (db\<lparr>fs_rules := x\<rparr>) = all_tagged db"
  by (simp_all add: all_tagged_def write_event_def write_manifest_to_disk_def remove_manifest_from_disk_def)

lemma all_tagged_remove_put [simp]:
  "all_tagged (put_row m (remove_manifest_from_disk ok mid db)) = all_tagged (put_row m db)"
  by (simp add: all_tagged_def put_row_def remove_manifest_from_disk_def)

lemma all_tagged_manifest_step: "all_tagged db \<Longrightarrow> all_tagged (manifest_step r db)"
  by (cases r rule: manifest_step_cases)
    (auto simp: handler_defs Let_def get_manifest_or_404_def split_beta all_tagged_put all_tagged_row
      split: option.splits sum.splits, auto simp: all_tagged_def)

lemma all_tagged_step [step_inv]: "all_tagged db \<Longrightarrow> all_tagged (api_step h r db)"
  by (cases rule: api_step_cases [of r h db])
    (simp_all add: all_tagged_manifest_step, simp add: foreign_def all_tagged_def)

lemma run_all_tagged: "all_tagged (api_run h rs empty_dashboard)"
  by (rule api_run_induct) (simp_all add: all_tagged_step, simp add: all_tagged_def empty_dashboard_def)

lemma summaries_of_rows:
  "list_all (\<lambda>m. \<not> is_inl (manifest_summary_out fmt m)) rows \<Longrightarrow>
   \<exists>items. res_map (manifest_summary_out fmt) rows = Inr items \<and> length items = length rows \<and>
     list_all (\<lambda>j. jget j ''manifest_json'' = None) items"
  by (induction rows) (auto simp: is_inl_def manifest_summary_out_def tags_json_def split: sum.splits option.splits)

text \<open>
  After any history of requests the manifest routes answer: a page of the list is a 200
  with one summary per row of the page and without any document, and a manifest is found
  exactly when it has a row.
\<close>

theorem manifest_routes_answer:
  assumes "1 \<le> page" "case page_size of None \<Rightarrow> True | Some n \<Rightarrow> 0 \<le> n"
    and "db = api_run h rs empty_dashboard"
  shows "(case list_manifests status page page_size db of
      Inl e \<Rightarrow> False
    | Inr (rows, p) \<Rightarrow> (\<exists>items. manifests_page_route fmt status page page_size db =
          (200, Some (JObj [(''items'', JArr items), (''pagination'', pagination_json p)])) \<and>
        length items = length rows \<and> list_all (\<lambda>j. jget j ''manifest_json'' = None) items)) \<and>
    fst (manifest_detail_route fmt mid db) = (if find_row mid db = None then 404 else 200)"
proof -
  have tagged: "all_tagged db" unfolding assms(3) by (rule run_all_tagged)
  have "0 < effective_page_size page_size" by (rule effective_page_size_pos [OF assms(2)])
  then obtain rows p where l: "list_manifests status page page_size db = Inr (rows, p)"
    using assms(1) by (simp add: list_manifests_def paginate_def Let_def)
  then have "set rows \<subseteq> set (db_manifests db)"
    by (auto simp: list_manifests_def paginate_def Let_def split: if_splits option.splits dest!: in_set_takeD in_set_dropD)
  then have ok: "list_all (\<lambda>m. \<not> is_inl (manifest_summary_out fmt m)) rows"
    using tagged by (auto simp: all_tagged_def list_all_iff manifest_summary_out_def tags_json_def split: option.split)
  from summaries_of_rows [OF ok]  obtain items where items: "res_map (manifest_summary_out fmt) rows = Inr items" "length items = length rows"
      "list_all (\<lambda>j. jget j ''manifest_json'' = None) items"
    by blast
  then have "manifests_page_route fmt status page page_size db =
      (200, Some (JObj [(''items'', JArr items), (''pagination'', pagination_json p)]))"
    by (simp add: manifests_page_route_def l manifest_list_out_def)
  moreover have "fst (manifest_detail_route fmt mid db) = (if find_row mid db = None then 404 else 200)"
    using all_tagged_row [OF tagged]
    by (cases "find_row mid db")
      (auto simp: manifest_detail_route_def get_manifest_or_404_def manifest_out_def tags_json_tagged)
  ultimately show ?thesis using l items by auto
qed

definition one_manifest :: "(rat \<times> api_request) list" where
  "one_manifest = [(1, ApiManifest True (ReqCreate ''u1''
     \<lparr>mi_manifest_id = ''m1'', mi_title = ''spring'', mi_schema_version = ''1.0.0'',
      mi_manifest_json = demo_manifest ''m1'', mi_audience_tags = [''general'']\<rparr>))]"

theorem manifest_routes_answer_witness:
  "fst (manifest_detail_route (\<lambda>_. []) ''m1'' (api_run id one_manifest empty_dashboard)) = 200 \<and>
   fst (manifests_page_route (\<lambda>_. []) None 1 (Some 5) (api_run id one_manifest empty_dashboard)) = 200"
proof -
  have page: "(1::int) \<le> 1" and size: "case Some 5 of None \<Rightarrow> True | Some n \<Rightarrow> (0::int) \<le> n" by simp_all
  have row: "find_row ''m1'' (api_run id one_manifest empty_dashboard) \<noteq> None" by code_simp
  from manifest_routes_answer [OF page size refl, where fmt = "\<lambda>_. []" and status = None and h = id and rs = one_manifest and mid = "''m1''"] row
  show ?thesis by (auto split: sum.splits)
qed

text \<open>
  C30. Rows older than migration 0003 have NULL tags, which the migration says the API treats
  as untagged. The response models refuse them: the manifest cannot be shown, and an approval
  is committed and answered 500. Setting the tags makes the manifest answerable again.
\<close>

theorem untagged_row_unanswerable:
  assumes "find_row mid db = Some m" "mr_audience_tags m = None" "mr_status m = Draft" "length who \<le> 128"
    and "validate_audience_tags tags = Inr tags"
  shows "manifest_detail_route fmt mid db = (500, None) \<and>
    fst (write_route fmt 200 (approve_manifest now mid who db)) = (500, None) \<and>
    statuses (snd (write_route fmt 200 (approve_manifest now mid who db))) mid = Some Approved \<and>
    fst (fst (write_route fmt 200 (update_manifest_tags now mid tags db))) = 200 \<and>
    fst (manifest_detail_route fmt mid (snd (write_route fmt 200 (update_manifest_tags now mid tags db)))) = 200"
proof -
  have i: "mr_manifest_id m = mid" by (rule find_row_id [OF assms(1)])
  have g: "get_manifest_or_404 mid db = Inr m" using assms(1) by (simp add: get_manifest_or_404_def)
  have t: "can_transition Draft Approved" by (simp add: can_transition_def valid_transitions_def)
  have approve: "approve_manifest now mid who db =
      (let m' = m\<lparr>mr_status := Approved, mr_approved_by := Some who, mr_approved_at := Some now,
         mr_rejection_reason := None, mr_updated_at := now\<rparr>
       in (Inr m', write_event now ''manifest.approved'' ''manifest'' mid who (prev_payload m) (put_row m' db)))"
    using assms(3,4) by (simp add: approve_manifest_def g t)
  have update: "fst (update_manifest_tags now mid tags db) = Inr (m\<lparr>mr_audience_tags := Some tags, mr_updated_at := now\<rparr>) \<and>
      find_row mid (snd (update_manifest_tags now mid tags db)) = Some (m\<lparr>mr_audience_tags := Some tags, mr_updated_at := now\<rparr>)"
    using assms(1,3,5) i by (simp add: update_manifest_tags_def g Let_def row_simps)
  show ?thesis
    using assms(1,2) i update
    by (simp add: manifest_detail_route_def write_route_def g approve Let_def statuses_def row_simps
        get_manifest_or_404_def manifest_out_def tags_json_def)
qed

definition old_row :: manifest_row where
  "old_row = \<lparr>mr_id = ''u1'', mr_manifest_id = ''m1'', mr_title = ''spring'', mr_status = Draft,
     mr_schema_version = ''1.0.0'', mr_manifest_json = demo_manifest ''m1'', mr_audience_tags = None,
     mr_rejection_reason = None, mr_approved_by = None, mr_approved_at = None, mr_enabled_at = None,
     mr_created_at = 1, mr_updated_at = 1\<rparr>"

theorem untagged_row_unanswerable_witness:
  "fst (write_route (\<lambda>_. []) 200 (approve_manifest 2 ''m1'' ''alice'' (empty_dashboard\<lparr>db_manifests := [old_row]\<rparr>))) =
     (500, None)"
proof -
  have row: "find_row ''m1'' (empty_dashboard\<lparr>db_manifests := [old_row]\<rparr>) = Some old_row"
    by (simp add: find_row_def old_row_def)
  have old: "mr_audience_tags old_row = None" "mr_status old_row = Draft" by (simp_all add: old_row_def)
  have who: "length ''alice'' \<le> 128" by simp
  have tags: "validate_audience_tags [] = Inr []" by (simp add: validate_audience_tags_def)
  show ?thesis using untagged_row_unanswerable [OF row old who tags, of "\<lambda>_. []" 2] by blast
qed

end
