(* ===== verification/DashboardService.thy ===== *)
theory DashboardService
  imports ApiResponses Sinks
begin

section \<open>The dashboard process (services/dashboard-api/dashboard_api/main.py, health.py)\<close>

text \<open>
  \<open>_lifespan\<close> and what runs while the application is up: the request handlers and the three
  sink tasks share one database, each commit is one step. The database not being reachable at
  startup is only logged; the sinks start when \<open>mqtt_sinks_enabled\<close> is set.
\<close>

subsection \<open>The process\<close>

record dashboard_service =
  dp_db :: dashboard
  dp_sinks :: bool
  dp_audience :: sink_loop
  dp_play :: sink_loop

datatype dashboard_event =
    DpRequest "rat \<times> api_request"
  | DpAudience "(bool \<times> payload) sink_event"
  | DpPlay "(bool \<times> rat \<times> payload) sink_event"
  | DpUptime "bool \<times> rat \<times> http_answer"

definition dp_boot :: "bool \<Rightarrow> dashboard \<Rightarrow> dashboard_service" where
  "dp_boot mqtt_sinks_enabled db = \<lparr>dp_db = db, dp_sinks = mqtt_sinks_enabled,
     dp_audience = \<lparr>sl_connected = False, sl_backoff = sink_initial_backoff\<rparr>,
     dp_play = \<lparr>sl_connected = False, sl_backoff = sink_initial_backoff\<rparr>\<rparr>"

text \<open>
  The library functions the process depends on: conversions of the audience sink, the text of
  a value, \<open>fromisoformat\<close> and SHA-256.
\<close>

record dashboard_env =
  de_parse_int :: "string \<Rightarrow> rat option"
  de_parse_float :: "string \<Rightarrow> rat option"
  de_repr :: "json \<Rightarrow> string"
  de_fromiso :: iso_parser
  de_sha256 :: "string \<Rightarrow> string"

definition audience_handler :: "dashboard_env \<Rightarrow> bool \<times> payload \<Rightarrow> dashboard \<Rightarrow> unit res \<times> dashboard" where
  "audience_handler env = audience_message (de_parse_int env) (de_parse_float env) (de_fromiso env)"

definition play_handler :: "dashboard_env \<Rightarrow> bool \<times> rat \<times> payload \<Rightarrow> dashboard \<Rightarrow> unit res \<times> dashboard" where
  "play_handler env = play_message (de_repr env) (de_fromiso env)"

fun dp_step :: "dashboard_env \<Rightarrow> dashboard_event \<Rightarrow> dashboard_service \<Rightarrow> dashboard_service" where
  "dp_step env (DpRequest r) s = s\<lparr>dp_db := api_step (de_sha256 env) r (dp_db s)\<rparr>"
| "dp_step env (DpAudience e) s =
     (if \<not> dp_sinks s then s
      else case sink_step (audience_handler env) e (dp_audience s, dp_db s) of
        (sl, db) \<Rightarrow> s\<lparr>dp_audience := sl, dp_db := db\<rparr>)"
| "dp_step env (DpPlay e) s =
     (if \<not> dp_sinks s then s
      else case sink_step (play_handler env) e (dp_play s, dp_db s) of
        (sl, db) \<Rightarrow> s\<lparr>dp_play := sl, dp_db := db\<rparr>)"
| "dp_step env (DpUptime m) s =
     (if \<not> dp_sinks s then s else s\<lparr>dp_db := snd (uptime_message m (dp_db s))\<rparr>)"

definition dp_run :: "dashboard_env \<Rightarrow> dashboard_event list \<Rightarrow> dashboard_service \<Rightarrow> dashboard_service" where
  "dp_run env evs s = fold (dp_step env) evs s"

text \<open>\<open>/healthz\<close> and \<open>/readyz\<close>; the argument is the text of the exception when the database cannot be reached.\<close>

definition dp_healthz :: "nat \<times> json" where
  "dp_healthz = (200, JObj [(''status'', JStr ''ok'')])"

definition dp_readyz :: "string option \<Rightarrow> nat \<times> json" where
  "dp_readyz failure =
     (case failure of
        None \<Rightarrow> (200, JObj [(''status'', JStr ''ready''), (''db'', JStr ''ok'')])
      | Some e \<Rightarrow> (503, JObj [(''status'', JStr ''not_ready''), (''db'', JStr (take 128 e))]))"

subsection \<open>Requests and sinks share no table\<close>

text \<open>The operator's tables and files of one state with the analytics tables of another.\<close>

definition with_analytics :: "dashboard \<Rightarrow> dashboard \<Rightarrow> dashboard" where
  "with_analytics a db = db\<lparr>db_snapshots := db_snapshots a, db_plays := db_plays a, db_uptime := db_uptime a\<rparr>"

lemma with_analytics_self [simp]: "with_analytics db db = db"
  by (simp add: with_analytics_def)

lemma with_analytics_fields [simp]:
  "db_manifests (with_analytics a db) = db_manifests db" "db_assets (with_analytics a db) = db_assets db"
  "db_campaigns (with_analytics a db) = db_campaigns db" "db_links (with_analytics a db) = db_links db"
  "db_safe_mode (with_analytics a db) = db_safe_mode db" "db_audit (with_analytics a db) = db_audit db"
  "fs_manifests (with_analytics a db) = fs_manifests db" "fs_rules (with_analytics a db) = fs_rules db"
  "fs_assets (with_analytics a db) = fs_assets db" "fs_fallback (with_analytics a db) = fs_fallback db"
  "db_snapshots (with_analytics a db) = db_snapshots a" "db_plays (with_analytics a db) = db_plays a"
  "db_uptime (with_analytics a db) = db_uptime a"
  by (simp_all add: with_analytics_def)

lemma with_analytics_updates:
  "(with_analytics a db)\<lparr>db_manifests := x1\<rparr> = with_analytics a (db\<lparr>db_manifests := x1\<rparr>)"
  "(with_analytics a db)\<lparr>db_assets := x2\<rparr> = with_analytics a (db\<lparr>db_assets := x2\<rparr>)"
  "(with_analytics a db)\<lparr>db_campaigns := x3\<rparr> = with_analytics a (db\<lparr>db_campaigns := x3\<rparr>)"
  "(with_analytics a db)\<lparr>db_links := x4\<rparr> = with_analytics a (db\<lparr>db_links := x4\<rparr>)"
  "(with_analytics a db)\<lparr>db_safe_mode := x5\<rparr> = with_analytics a (db\<lparr>db_safe_mode := x5\<rparr>)"
  "(with_analytics a db)\<lparr>db_audit := x6\<rparr> = with_analytics a (db\<lparr>db_audit := x6\<rparr>)"
  "(with_analytics a db)\<lparr>fs_manifests := x7\<rparr> = with_analytics a (db\<lparr>fs_manifests := x7\<rparr>)"
  "(with_analytics a db)\<lparr>fs_rules := x8\<rparr> = with_analytics a (db\<lparr>fs_rules := x8\<rparr>)"
  "(with_analytics a db)\<lparr>fs_assets := x9\<rparr> = with_analytics a (db\<lparr>fs_assets := x9\<rparr>)"
  "(with_analytics a db)\<lparr>fs_fallback := x10\<rparr> = with_analytics a (db\<lparr>fs_fallback := x10\<rparr>)"
  by (simp_all add: with_analytics_def)

lemma manifest_step_analytics:
  "manifest_step r (with_analytics a db) = with_analytics a (manifest_step r db)"
  by (cases r rule: manifest_step_cases)
    (auto simp: handler_defs Let_def get_manifest_or_404_def split_beta find_row_def put_row_def write_event_def
      write_manifest_to_disk_def remove_manifest_from_disk_def enabled_rows_def with_analytics_updates
      split: option.splits sum.splits)

lemma campaign_step_analytics:
  "campaign_step r (with_analytics a db) = with_analytics a (campaign_step r db)"
  by (cases r; cases "snd r")
    (auto simp: campaign_defs Let_def get_campaign_or_404_def get_manifest_or_404_def split_beta find_row_def
      put_campaign_def write_event_def find_link_def campaign_links_def with_analytics_updates
      split: option.splits sum.splits)

lemma asset_step_analytics:
  "asset_step h r (with_analytics a db) = with_analytics a (asset_step h r db)"
  by (cases r; cases "snd r")
    (auto simp: upload_asset_def archive_asset_def get_asset_def Let_def split_beta write_event_def
      with_analytics_updates split: option.splits sum.splits)

lemma safe_mode_step_analytics:
  "safe_mode_step r (with_analytics a db) = with_analytics a (safe_mode_step r db)"
  by (cases r; cases "snd r")
    (auto simp: engage_safe_mode_def clear_safe_mode_def get_or_create_safe_mode_def Let_def write_event_def
      with_analytics_updates split: option.splits)

lemma api_step_analytics:
  "api_step h r (with_analytics a db) = with_analytics a (api_step h r db)"
  by (cases "(h, r, db)" rule: api_step.cases)
    (simp_all add: manifest_step_analytics campaign_step_analytics asset_step_analytics safe_mode_step_analytics
      fallback_step_def get_safe_mode_def get_or_create_safe_mode_def Let_def with_analytics_updates
      split: fallback_request.split)

text \<open>A sink handler reads and writes analytics tables only.\<close>

definition analytic :: "('m \<Rightarrow> dashboard \<Rightarrow> unit res \<times> dashboard) \<Rightarrow> bool" where
  "analytic handle \<longleftrightarrow> (\<forall>m a db. handle m (with_analytics a db) =
     (fst (handle m a), with_analytics (snd (handle m a)) db))"

lemma analytic_handlers:
  "analytic (audience_handler env)" "analytic (play_handler env)" "analytic uptime_message"
  by (auto simp: analytic_def audience_handler_def play_handler_def audience_message_def play_message_def
      uptime_message_def lookup_attention_at_trigger_def Let_def with_analytics_def split: prod.split sum.split option.split)

lemma analyticD:
  "analytic handle \<Longrightarrow> handle m (with_analytics a db) = (fst (handle m a), with_analytics (snd (handle m a)) db)"
  by (simp add: analytic_def)

lemma sink_step_analytics:
  assumes "analytic handle"
  shows "sink_step handle e (sl, with_analytics a db) =
    (fst (sink_step handle e (sl, a)), with_analytics (snd (sink_step handle e (sl, a))) db)"
proof (cases e)
  case (SinkMessage m)
  with analyticD [OF assms, of m a db] show ?thesis by (cases "handle m a") (simp split: sum.split)
qed simp_all

fun is_request :: "dashboard_event \<Rightarrow> bool" where
  "is_request (DpRequest r) = True"
| "is_request _ = False"

fun requests_of :: "dashboard_event list \<Rightarrow> (rat \<times> api_request) list" where
  "requests_of [] = []"
| "requests_of (DpRequest r # evs) = r # requests_of evs"
| "requests_of (_ # evs) = requests_of evs"

definition over :: "dashboard_service \<Rightarrow> dashboard \<Rightarrow> dashboard_service" where
  "over s db = s\<lparr>dp_db := with_analytics (dp_db s) db\<rparr>"

lemma sink_event_over:
  "\<not> is_request ev \<Longrightarrow> dp_step env ev (over s db) = over (dp_step env ev s) db"
  by (cases ev)
    (simp_all add: over_def sink_step_analytics [OF analytic_handlers(1)] sink_step_analytics [OF analytic_handlers(2)]
      analyticD [OF analytic_handlers(3)] split_beta)

lemma request_over:
  "dp_step env (DpRequest r) (over s db) = over s (api_step (de_sha256 env) r db)"
  by (simp add: over_def api_step_analytics)

lemma dp_run_over:
  "dp_run env evs (over s db) =
     over (dp_run env (filter (\<lambda>ev. \<not> is_request ev) evs) s) (api_run (de_sha256 env) (requests_of evs) db)"
proof (induction evs arbitrary: s db)
  case Nil
  then show ?case by (simp add: dp_run_def)
next
  case (Cons ev evs)
  show ?case
  proof (cases ev)
    case (DpRequest r)
    with Cons.IH [of s "api_step (de_sha256 env) r db"] show ?thesis
      by (simp add: dp_run_def request_over del: dp_step.simps)
  qed (use Cons.IH [of "dp_step env ev s" db] sink_event_over [of ev env s db] in
      \<open>simp_all add: dp_run_def del: dp_step.simps\<close>)
qed

text \<open>
  C5. The control plane and the analytics sinks do not interfere: after any interleaving of
  requests, broker messages, broker failures and probes, the operator's tables and files are
  those of the requests alone and the analytics tables those of the sinks alone. What holds
  for every history of the API holds for the process.
\<close>

theorem sinks_and_requests_independent:
  "dp_db (dp_run env evs (dp_boot enabled db)) =
     with_analytics (dp_db (dp_run env (filter (\<lambda>ev. \<not> is_request ev) evs) (dp_boot enabled db)))
       (api_run (de_sha256 env) (requests_of evs) db)"
proof -
  have "dp_boot enabled db = over (dp_boot enabled db) db" by (simp add: over_def dp_boot_def)
  then show ?thesis
    using dp_run_over [of env evs "dp_boot enabled db" db] by (simp add: over_def)
qed

text \<open>With \<open>mqtt_sinks_enabled\<close> unset nothing is recorded, the uptime probe included.\<close>

lemma disabled_sinks_idle: "\<not> dp_sinks s \<Longrightarrow> \<not> is_request ev \<Longrightarrow> dp_step env ev s = s"
  by (cases ev) simp_all

end
