(* ===== verification/Tables.thy ===== *)
theory Tables
  imports DashboardService Contracts
begin

section \<open>The dashboard's relational schema (models.py, alembic/versions)\<close>

text \<open>
  The columns the ORM declares, the operations of the five migrations, the schema they
  build, and the values the dashboard stores. The DDL statements are interpreted on a
  catalogue of tables, indexes and seeded rows with the errors PostgreSQL documents for them; the
  order of the revisions is the one their \<open>down_revision\<close> fields give.
\<close>

subsection \<open>Columns\<close>

datatype col_type =
    CString nat | CText | CInteger | CBigInteger | CFloat | CBoolean | CDateTime | CJson

record column =
  cn_name :: string
  cn_type :: col_type
  cn_nullable :: bool
  cn_primary_key :: bool
  cn_unique :: bool
  cn_server_default :: "string option"
  cn_references :: "(string \<times> string) option"

text \<open>\<open>nullable=False\<close>, \<open>nullable=True\<close>, \<open>primary_key=True\<close> (never NULL) and the column options.\<close>

definition required :: "string \<Rightarrow> col_type \<Rightarrow> column" where
  "required n ty = \<lparr>cn_name = n, cn_type = ty, cn_nullable = False, cn_primary_key = False, cn_unique = False,
     cn_server_default = None, cn_references = None\<rparr>"

definition nullable :: "string \<Rightarrow> col_type \<Rightarrow> column" where
  "nullable n ty = (required n ty)\<lparr>cn_nullable := True\<rparr>"

definition primary :: "string \<Rightarrow> col_type \<Rightarrow> column" where
  "primary n ty = (required n ty)\<lparr>cn_primary_key := True\<rparr>"

definition unique_col :: "column \<Rightarrow> column" where
  "unique_col c = c\<lparr>cn_unique := True\<rparr>"

definition server_default :: "string \<Rightarrow> column \<Rightarrow> column" where
  "server_default d c = c\<lparr>cn_server_default := Some d\<rparr>"

definition foreign_key :: "string \<Rightarrow> string \<Rightarrow> column \<Rightarrow> column" where
  "foreign_key t n c = c\<lparr>cn_references := Some (t, n)\<rparr>"

definition stamped :: "string \<Rightarrow> column" where
  "stamped n = server_default ''now()'' (required n CDateTime)"

subsection \<open>The models\<close>

definition Manifest_columns :: "column list" where
  "Manifest_columns =
     [primary ''id'' (CString 36), unique_col (required ''manifest_id'' (CString 128)), required ''title'' (CString 255),
      required ''status'' (CString 32), required ''schema_version'' (CString 32), nullable ''manifest_json'' CJson,
      nullable ''audience_tags'' CJson, nullable ''rejection_reason'' (CString 1024),
      nullable ''approved_by'' (CString 128), nullable ''approved_at'' CDateTime, nullable ''enabled_at'' CDateTime,
      stamped ''created_at'', stamped ''updated_at'']"

definition Asset_columns :: "column list" where
  "Asset_columns =
     [primary ''id'' (CString 36), unique_col (required ''asset_id'' (CString 128)), required ''filename'' (CString 512),
      required ''asset_type'' (CString 32), required ''size_bytes'' CBigInteger, required ''sha256'' (CString 64),
      nullable ''manifest_id'' (CString 128), required ''status'' (CString 32), stamped ''uploaded_at'']"

definition Campaign_columns :: "column list" where
  "Campaign_columns =
     [primary ''id'' (CString 36), required ''name'' (CString 255), nullable ''description'' CText,
      required ''status'' (CString 32), nullable ''start_at'' CDateTime, nullable ''end_at'' CDateTime,
      stamped ''created_at'', stamped ''updated_at'']"

definition CampaignManifest_columns :: "column list" where
  "CampaignManifest_columns =
     [foreign_key ''campaigns'' ''id'' (primary ''campaign_id'' (CString 36)),
      foreign_key ''manifests'' ''id'' (primary ''manifest_id'' (CString 36)),
      required ''position'' CInteger, stamped ''created_at'']"

definition SafeModeState_columns :: "column list" where
  "SafeModeState_columns =
     [primary ''id'' CInteger, required ''is_active'' CBoolean, nullable ''reason'' (CString 512),
      nullable ''activated_at'' CDateTime, nullable ''activated_by'' (CString 128), stamped ''updated_at'']"

definition AuditEvent_columns :: "column list" where
  "AuditEvent_columns =
     [primary ''id'' (CString 36), required ''event_type'' (CString 64), required ''entity_type'' (CString 32),
      required ''entity_id'' (CString 128), required ''actor'' (CString 128), nullable ''payload'' CJson,
      stamped ''created_at'']"

definition AudienceSnapshot_columns :: "column list" where
  "AudienceSnapshot_columns =
     [primary ''id'' (CString 36), required ''sampled_at'' CDateTime, required ''presence_count'' CInteger,
      required ''presence_confidence'' CFloat, required ''state_stable'' CBoolean, required ''pipeline_degraded'' CBoolean,
      required ''demographics_suppressed'' CBoolean,
      nullable ''age_group_child'' CFloat, nullable ''age_group_young_adult'' CFloat,
      nullable ''age_group_adult'' CFloat, nullable ''age_group_senior'' CFloat,
      nullable ''gender_male'' CFloat, nullable ''gender_female'' CFloat,
      nullable ''attire_formal'' CFloat, nullable ''attire_business_casual'' CFloat, nullable ''attire_casual'' CFloat,
      nullable ''attire_athletic'' CFloat, nullable ''attire_outdoor_technical'' CFloat,
      nullable ''attire_workwear_uniform'' CFloat, nullable ''attire_streetwear'' CFloat,
      nullable ''attire_luxury_premium'' CFloat, nullable ''attire_lounge_comfort'' CFloat,
      nullable ''attire_smart_occasion'' CFloat, nullable ''attention_engaged'' CFloat]"

definition PlayEvent_columns :: "column list" where
  "PlayEvent_columns =
     [primary ''id'' (CString 36), required ''manifest_id'' (CString 128), required ''activated_at'' CDateTime,
      nullable ''reason'' (CString 256), nullable ''prev_manifest_id'' (CString 128),
      nullable ''attention_at_trigger'' CFloat, stamped ''received_at'']"

definition UptimeEvent_columns :: "column list" where
  "UptimeEvent_columns =
     [primary ''id'' (CString 36), required ''sampled_at'' CDateTime, required ''player_status'' (CString 32),
      required ''overall_status'' (CString 32)]"

definition orm_tables :: "(string \<times> column list) list" where
  "orm_tables =
     [(''manifests'', Manifest_columns), (''assets'', Asset_columns), (''campaigns'', Campaign_columns),
      (''campaign_manifests'', CampaignManifest_columns), (''safe_mode_state'', SafeModeState_columns),
      (''audit_events'', AuditEvent_columns), (''audience_snapshots'', AudienceSnapshot_columns),
      (''play_events'', PlayEvent_columns), (''uptime_events'', UptimeEvent_columns)]"

text \<open>The columns declared with \<open>index=True\<close>.\<close>

definition orm_indexes :: "(string \<times> string) list" where
  "orm_indexes =
     [(''manifests'', ''manifest_id''), (''manifests'', ''status''), (''assets'', ''asset_id''), (''assets'', ''manifest_id''),
      (''campaigns'', ''status''), (''audit_events'', ''event_type''), (''audit_events'', ''entity_type''),
      (''audit_events'', ''entity_id''), (''audit_events'', ''created_at''), (''audience_snapshots'', ''sampled_at''),
      (''play_events'', ''manifest_id''), (''play_events'', ''activated_at''), (''uptime_events'', ''sampled_at'')]"

subsection \<open>Data definition\<close>

datatype alembic_op =
    CreateTable string "column list"
  | DropTable string
  | AddColumn string column
  | DropColumn string string
  | CreateIndex string string string
  | InsertRow string "(string \<times> json) list"

record catalogue =
  ct_tables :: "(string \<times> column list) list"
  ct_indexes :: "(string \<times> string \<times> string) list"
  ct_rows :: "(string \<times> (string \<times> json) list) list"

definition empty_catalogue :: catalogue where
  "empty_catalogue = \<lparr>ct_tables = [], ct_indexes = [], ct_rows = []\<rparr>"

definition has_column :: "string \<Rightarrow> string \<Rightarrow> catalogue \<Rightarrow> bool" where
  "has_column t n c =
     (case map_of (ct_tables c) t of None \<Rightarrow> False | Some cols \<Rightarrow> list_ex (\<lambda>k. cn_name k = n) cols)"

definition refers_to :: "string \<Rightarrow> column list \<Rightarrow> bool" where
  "refers_to t cols = list_ex (\<lambda>k. case cn_references k of None \<Rightarrow> False | Some (t', n) \<Rightarrow> t' = t) cols"

text \<open>
  A table is created once and its foreign keys name existing columns; it is dropped with its
  rows and indexes unless another table refers to it; a column is new, respectively exists.
\<close>

definition execute_op :: "alembic_op \<Rightarrow> catalogue \<Rightarrow> catalogue res" where
  "execute_op op c =
     (case op of
        CreateTable t cols \<Rightarrow>
          if t \<in> set (dict_keys (ct_tables c)) \<or> \<not> distinct (map cn_name cols) \<or>
             \<not> list_all (\<lambda>k. case cn_references k of None \<Rightarrow> True | Some (t', n) \<Rightarrow> has_column t' n c) cols
          then Inl RuntimeError
          else Inr (c\<lparr>ct_tables := ct_tables c @ [(t, cols)]\<rparr>)
      | DropTable t \<Rightarrow>
          if t \<notin> set (dict_keys (ct_tables c)) \<or> list_ex (\<lambda>(t', cols). t' \<noteq> t \<and> refers_to t cols) (ct_tables c)
          then Inl RuntimeError
          else Inr \<lparr>ct_tables = filter (\<lambda>(t', _). t' \<noteq> t) (ct_tables c),
                    ct_indexes = filter (\<lambda>(_, t', _). t' \<noteq> t) (ct_indexes c),
                    ct_rows = filter (\<lambda>(t', _). t' \<noteq> t) (ct_rows c)\<rparr>
      | AddColumn t k \<Rightarrow>
          if t \<notin> set (dict_keys (ct_tables c)) \<or> has_column t (cn_name k) c \<or>
             (case cn_references k of None \<Rightarrow> False | Some (t', n) \<Rightarrow> \<not> has_column t' n c)
          then Inl RuntimeError
          else Inr (c\<lparr>ct_tables := map (\<lambda>(t', cols). (t', if t' = t then cols @ [k] else cols)) (ct_tables c)\<rparr>)
      | DropColumn t n \<Rightarrow>
          if \<not> has_column t n c then Inl RuntimeError
          else Inr (c\<lparr>ct_tables := map (\<lambda>(t', cols). (t', if t' = t then filter (\<lambda>k. cn_name k \<noteq> n) cols else cols)) (ct_tables c),
                      ct_indexes := filter (\<lambda>(_, t', n'). \<not> (t' = t \<and> n' = n)) (ct_indexes c)\<rparr>)
      | CreateIndex i t n \<Rightarrow>
          if i \<in> set (dict_keys (ct_indexes c)) \<or> \<not> has_column t n c then Inl RuntimeError
          else Inr (c\<lparr>ct_indexes := ct_indexes c @ [(i, t, n)]\<rparr>)
      | InsertRow t row \<Rightarrow>
          if t \<notin> set (dict_keys (ct_tables c)) \<or> \<not> list_all (\<lambda>(n, _). has_column t n c) row then Inl RuntimeError
          else Inr (c\<lparr>ct_rows := ct_rows c @ [(t, row)]\<rparr>))"

fun execute_ops :: "alembic_op list \<Rightarrow> catalogue \<Rightarrow> catalogue res" where
  "execute_ops [] c = Inr c"
| "execute_ops (op # ops) c = res_bind (execute_op op c) (execute_ops ops)"

subsection \<open>The migrations\<close>

record revision =
  rv_revision :: string
  rv_down_revision :: "string option"
  rv_upgrade :: "alembic_op list"
  rv_downgrade :: "alembic_op list"

definition upgrade_0001 :: "alembic_op list" where
  "upgrade_0001 =
     [CreateTable ''manifests''
        [primary ''id'' (CString 36), unique_col (required ''manifest_id'' (CString 128)), required ''title'' (CString 255),
         server_default ''draft'' (required ''status'' (CString 32)), required ''schema_version'' (CString 32),
         nullable ''manifest_json'' CJson, nullable ''rejection_reason'' (CString 1024),
         nullable ''approved_by'' (CString 128), nullable ''approved_at'' CDateTime, nullable ''enabled_at'' CDateTime,
         stamped ''created_at'', stamped ''updated_at''],
      CreateIndex ''ix_manifests_manifest_id'' ''manifests'' ''manifest_id'',
      CreateIndex ''ix_manifests_status'' ''manifests'' ''status'',
      CreateTable ''assets''
        [primary ''id'' (CString 36), unique_col (required ''asset_id'' (CString 128)), required ''filename'' (CString 512),
         required ''asset_type'' (CString 32), required ''size_bytes'' CBigInteger, required ''sha256'' (CString 64),
         nullable ''manifest_id'' (CString 128), server_default ''active'' (required ''status'' (CString 32)),
         stamped ''uploaded_at''],
      CreateIndex ''ix_assets_asset_id'' ''assets'' ''asset_id'',
      CreateIndex ''ix_assets_manifest_id'' ''assets'' ''manifest_id'',
      CreateTable ''campaigns''
        [primary ''id'' (CString 36), required ''name'' (CString 255), nullable ''description'' CText,
         server_default ''draft'' (required ''status'' (CString 32)), nullable ''start_at'' CDateTime,
         nullable ''end_at'' CDateTime, stamped ''created_at'', stamped ''updated_at''],
      CreateIndex ''ix_campaigns_status'' ''campaigns'' ''status'',
      CreateTable ''campaign_manifests''
        [foreign_key ''campaigns'' ''id'' (primary ''campaign_id'' (CString 36)),
         foreign_key ''manifests'' ''id'' (primary ''manifest_id'' (CString 36)),
         server_default ''0'' (required ''position'' CInteger), stamped ''created_at''],
      CreateTable ''safe_mode_state''
        [primary ''id'' CInteger, server_default ''false'' (required ''is_active'' CBoolean), nullable ''reason'' (CString 512),
         nullable ''activated_at'' CDateTime, nullable ''activated_by'' (CString 128), stamped ''updated_at''],
      InsertRow ''safe_mode_state'' [(''id'', JInt 1), (''is_active'', JBool False)],
      CreateTable ''audit_events''
        [primary ''id'' (CString 36), required ''event_type'' (CString 64), required ''entity_type'' (CString 32),
         required ''entity_id'' (CString 128), required ''actor'' (CString 128), nullable ''payload'' CJson,
         stamped ''created_at''],
      CreateIndex ''ix_audit_events_event_type'' ''audit_events'' ''event_type'',
      CreateIndex ''ix_audit_events_entity_type'' ''audit_events'' ''entity_type'',
      CreateIndex ''ix_audit_events_entity_id'' ''audit_events'' ''entity_id'',
      CreateIndex ''ix_audit_events_created_at'' ''audit_events'' ''created_at'']"

definition downgrade_0001 :: "alembic_op list" where
  "downgrade_0001 =
     [DropTable ''audit_events'', DropTable ''safe_mode_state'', DropTable ''campaign_manifests'', DropTable ''campaigns'',
      DropTable ''assets'', DropTable ''manifests'']"

definition upgrade_0002 :: "alembic_op list" where
  "upgrade_0002 =
     [CreateTable ''audience_snapshots''
        [primary ''id'' (CString 36), required ''sampled_at'' CDateTime, required ''presence_count'' CInteger,
         required ''presence_confidence'' CFloat, required ''state_stable'' CBoolean,
         required ''pipeline_degraded'' CBoolean, required ''demographics_suppressed'' CBoolean,
         nullable ''age_group_child'' CFloat, nullable ''age_group_young_adult'' CFloat,
         nullable ''age_group_adult'' CFloat, nullable ''age_group_senior'' CFloat],
      CreateIndex ''ix_audience_snapshots_sampled_at'' ''audience_snapshots'' ''sampled_at'',
      CreateTable ''play_events''
        [primary ''id'' (CString 36), required ''manifest_id'' (CString 128), required ''activated_at'' CDateTime,
         nullable ''reason'' (CString 256), nullable ''prev_manifest_id'' (CString 128), stamped ''received_at''],
      CreateIndex ''ix_play_events_manifest_id'' ''play_events'' ''manifest_id'',
      CreateIndex ''ix_play_events_activated_at'' ''play_events'' ''activated_at'',
      CreateTable ''uptime_events''
        [primary ''id'' (CString 36), required ''sampled_at'' CDateTime, required ''player_status'' (CString 32),
         required ''overall_status'' (CString 32)],
      CreateIndex ''ix_uptime_events_sampled_at'' ''uptime_events'' ''sampled_at'']"

definition downgrade_0002 :: "alembic_op list" where
  "downgrade_0002 = [DropTable ''uptime_events'', DropTable ''play_events'', DropTable ''audience_snapshots'']"

definition upgrade_0003 :: "alembic_op list" where
  "upgrade_0003 = [AddColumn ''manifests'' (nullable ''audience_tags'' CJson)]"

definition downgrade_0003 :: "alembic_op list" where
  "downgrade_0003 = [DropColumn ''manifests'' ''audience_tags'']"

definition upgrade_0004 :: "alembic_op list" where
  "upgrade_0004 =
     [AddColumn ''audience_snapshots'' (nullable ''gender_male'' CFloat),
      AddColumn ''audience_snapshots'' (nullable ''gender_female'' CFloat)]"

definition downgrade_0004 :: "alembic_op list" where
  "downgrade_0004 =
     [DropColumn ''audience_snapshots'' ''gender_female'', DropColumn ''audience_snapshots'' ''gender_male'']"

definition upgrade_0005 :: "alembic_op list" where
  "upgrade_0005 =
     AddColumn ''audience_snapshots'' (nullable ''attention_engaged'' CFloat) #
     map (\<lambda>n. AddColumn ''audience_snapshots'' (nullable n CFloat))
       [''attire_formal'', ''attire_business_casual'', ''attire_casual'', ''attire_athletic'', ''attire_outdoor_technical'',
        ''attire_workwear_uniform'', ''attire_streetwear'', ''attire_luxury_premium'', ''attire_lounge_comfort'',
        ''attire_smart_occasion''] @
     [AddColumn ''play_events'' (nullable ''attention_at_trigger'' CFloat)]"

definition downgrade_0005 :: "alembic_op list" where
  "downgrade_0005 =
     DropColumn ''play_events'' ''attention_at_trigger'' #
     map (DropColumn ''audience_snapshots'')
       [''attire_smart_occasion'', ''attire_lounge_comfort'', ''attire_luxury_premium'', ''attire_streetwear'',
        ''attire_workwear_uniform'', ''attire_outdoor_technical'', ''attire_athletic'', ''attire_casual'',
        ''attire_business_casual'', ''attire_formal''] @
     [DropColumn ''audience_snapshots'' ''attention_engaged'']"

definition revisions :: "revision list" where
  "revisions =
     [\<lparr>rv_revision = ''0001'', rv_down_revision = None, rv_upgrade = upgrade_0001, rv_downgrade = downgrade_0001\<rparr>,
      \<lparr>rv_revision = ''0002'', rv_down_revision = Some ''0001'', rv_upgrade = upgrade_0002, rv_downgrade = downgrade_0002\<rparr>,
      \<lparr>rv_revision = ''0003'', rv_down_revision = Some ''0002'', rv_upgrade = upgrade_0003, rv_downgrade = downgrade_0003\<rparr>,
      \<lparr>rv_revision = ''0004'', rv_down_revision = Some ''0003'', rv_upgrade = upgrade_0004, rv_downgrade = downgrade_0004\<rparr>,
      \<lparr>rv_revision = ''0005'', rv_down_revision = Some ''0004'', rv_upgrade = upgrade_0005, rv_downgrade = downgrade_0005\<rparr>]"

text \<open>\<open>alembic upgrade\<close> and \<open>alembic downgrade\<close> along the revisions.\<close>

fun upgrade_all :: "revision list \<Rightarrow> catalogue \<Rightarrow> catalogue res" where
  "upgrade_all [] c = Inr c"
| "upgrade_all (r # rs) c = res_bind (execute_ops (rv_upgrade r) c) (upgrade_all rs)"

fun downgrade_all :: "revision list \<Rightarrow> catalogue \<Rightarrow> catalogue res" where
  "downgrade_all [] c = Inr c"
| "downgrade_all (r # rs) c = res_bind (execute_ops (rv_downgrade r) c) (downgrade_all rs)"

text \<open>Each revision follows the one before it: one base, one head, no fork.\<close>

fun linear_from :: "string option \<Rightarrow> revision list \<Rightarrow> bool" where
  "linear_from prev [] = True"
| "linear_from prev (r # rs) = (rv_down_revision r = prev \<and> linear_from (Some (rv_revision r)) rs)"

subsection \<open>The migrated schema is the one the models declare\<close>

definition same_column :: "column \<Rightarrow> column \<Rightarrow> bool" where
  "same_column k k' \<longleftrightarrow> k\<lparr>cn_server_default := None\<rparr> = k'\<lparr>cn_server_default := None\<rparr>"

definition same_columns :: "column list \<Rightarrow> column list \<Rightarrow> bool" where
  "same_columns ks ks' \<longleftrightarrow> length ks = length ks' \<and> list_all (\<lambda>k. list_ex (same_column k) ks') ks \<and>
     list_all (\<lambda>k'. list_ex (\<lambda>k. same_column k k') ks) ks'"

text \<open>
  The migrations build the schema of the models: the five revisions form one chain, all
  their upgrades succeed from an empty database, the tables they leave have exactly the
  columns the ORM declares (name, type, nullability, keys; the order and the server-side
  defaults may differ), every declared index exists under its name, and the only row is the
  inactive safe-mode singleton.
\<close>

theorem migrations_match_models:
  "linear_from None revisions \<and>
   (case upgrade_all revisions empty_catalogue of
      Inl e \<Rightarrow> False
    | Inr c \<Rightarrow>
        map fst (ct_tables c) = map fst orm_tables \<and>
        list_all2 (\<lambda>(t, ks) (t', ks'). same_columns ks ks') (ct_tables c) orm_tables \<and>
        ct_indexes c = map (\<lambda>(t, n). (''ix_'' @ t @ ''_'' @ n, t, n)) orm_indexes \<and>
        ct_rows c = [(''safe_mode_state'', [(''id'', JInt 1), (''is_active'', JBool False)])])"
  by code_simp

subsection \<open>Downgrades\<close>

text \<open>What undoes an operation; the indexes and rows of a table go with the table.\<close>

fun undo_op :: "alembic_op \<Rightarrow> alembic_op list" where
  "undo_op (CreateTable t cols) = [DropTable t]"
| "undo_op (AddColumn t k) = [DropColumn t (cn_name k)]"
| "undo_op _ = []"

definition undo_ops :: "alembic_op list \<Rightarrow> alembic_op list" where
  "undo_ops ops = concat (map undo_op (rev ops))"

fun created :: "alembic_op \<Rightarrow> string list" where
  "created (CreateTable t cols) = [t]"
| "created _ = []"

text \<open>Indexes and rows only of tables the operations have created themselves; nothing is dropped.\<close>

fun own_tables :: "string list \<Rightarrow> alembic_op list \<Rightarrow> bool" where
  "own_tables ts [] = True"
| "own_tables ts (op # ops) =
     ((case op of CreateIndex i t n \<Rightarrow> t \<in> set ts | InsertRow t row \<Rightarrow> t \<in> set ts
       | DropTable t \<Rightarrow> False | DropColumn t n \<Rightarrow> False | _ \<Rightarrow> True) \<and>
      own_tables (created op @ ts) ops)"

lemma revisions_undo:
  "list_all (\<lambda>r. own_tables [] (rv_upgrade r) \<and> rv_downgrade r = undo_ops (rv_upgrade r)) revisions"
  by code_simp

definition refs_ok :: "(string \<times> column list) list \<Rightarrow> bool" where
  "refs_ok tabs \<longleftrightarrow> (\<forall>(t, cols) \<in> set tabs. \<forall>k \<in> set cols.
     case cn_references k of None \<Rightarrow> True | Some (t', n) \<Rightarrow> t' \<in> set (dict_keys tabs))"

definition catalogue_ok :: "catalogue \<Rightarrow> bool" where
  "catalogue_ok c \<longleftrightarrow>
     dict_ok (ct_tables c) \<and> (\<forall>(i, t, n) \<in> set (ct_indexes c). has_column t n c) \<and>
     (\<forall>(t, row) \<in> set (ct_rows c). t \<in> set (dict_keys (ct_tables c))) \<and> refs_ok (ct_tables c)"

lemma has_column_entries [simp]:
  "has_column t n (c\<lparr>ct_indexes := is\<rparr>) = has_column t n c" "has_column t n (c\<lparr>ct_rows := rs\<rparr>) = has_column t n c"
  by (simp_all add: has_column_def)

lemma has_column_table: "has_column t n c \<Longrightarrow> t \<in> set (dict_keys (ct_tables c))"
  by (auto simp: has_column_def dict_keys_set split: option.splits)

lemma dict_ok_keys: "dict_ok d \<longleftrightarrow> distinct (dict_keys d)"
  by (simp add: dict_ok_def dict_keys_def)

lemma catalogue_ok_entries:
  assumes "catalogue_ok c"
  shows "has_column t n c \<Longrightarrow> catalogue_ok (c\<lparr>ct_indexes := ct_indexes c @ [(i, t, n)]\<rparr>)"
    and "t \<in> set (dict_keys (ct_tables c)) \<Longrightarrow> catalogue_ok (c\<lparr>ct_rows := ct_rows c @ [(t, row)]\<rparr>)"
  using assms by (simp_all add: catalogue_ok_def ball_Un)

lemma map_of_add_column:
  "map_of (map (\<lambda>(t', cols). (t', if t' = t then cols @ [k] else cols)) ts) u =
   map_option (\<lambda>cols. if u = t then cols @ [k] else cols) (map_of ts u)"
  by (induction ts) auto

lemma keys_map_columns [simp]: "dict_keys (map (\<lambda>(t', cols). (t', f t' cols)) ts) = dict_keys ts"
  by (induction ts) (auto simp: dict_keys_def)

lemma catalogue_ok_create:
  assumes "catalogue_ok c" "t \<notin> set (dict_keys (ct_tables c))"
    and "list_all (\<lambda>k. case cn_references k of None \<Rightarrow> True | Some (t', n) \<Rightarrow> has_column t' n c) cols"
  shows "catalogue_ok (c\<lparr>ct_tables := ct_tables c @ [(t, cols)]\<rparr>)"
proof -
  let ?c = "c\<lparr>ct_tables := ct_tables c @ [(t, cols)]\<rparr>"
  have keep: "has_column u n ?c" if "has_column u n c" for u n
    using that by (auto simp: has_column_def map_add_def split: option.splits)
  have keys: "set (dict_keys (ct_tables ?c)) = insert t (set (dict_keys (ct_tables c)))" by (simp add: dict_keys_def)
  have "case cn_references k of None \<Rightarrow> True | Some (t', n) \<Rightarrow> t' \<in> insert t (set (dict_keys (ct_tables c)))"
    if "k \<in> set cols" for k
    using that assms(3) has_column_table by (fastforce simp: list_all_iff split: option.splits)
  moreover have "case cn_references k of None \<Rightarrow> True | Some (t', n) \<Rightarrow> t' \<in> insert t (set (dict_keys (ct_tables c)))"
    if "(u, ks) \<in> set (ct_tables c)" "k \<in> set ks" for u ks k
    using that assms(1) by (fastforce simp: catalogue_ok_def refs_ok_def split: option.splits)
  ultimately have refs: "refs_ok (ct_tables ?c)"
    unfolding refs_ok_def keys by auto
  have "dict_ok (ct_tables ?c)" using assms(1,2) by (simp add: catalogue_ok_def dict_ok_def dict_keys_def)
  moreover have "\<forall>(i, u, n) \<in> set (ct_indexes ?c). has_column u n ?c"
    using assms(1) keep by (auto simp: catalogue_ok_def)
  moreover have "\<forall>(u, row) \<in> set (ct_rows ?c). u \<in> set (dict_keys (ct_tables ?c))"
    using assms(1) unfolding keys by (auto simp: catalogue_ok_def)
  ultimately show ?thesis using refs by (simp only: catalogue_ok_def simp_thms)
qed

abbreviation add_column :: "string \<Rightarrow> column \<Rightarrow> catalogue \<Rightarrow> catalogue" where
  "add_column t k c \<equiv>
     c\<lparr>ct_tables := map (\<lambda>(t', cols). (t', if t' = t then cols @ [k] else cols)) (ct_tables c)\<rparr>"

lemma catalogue_ok_add:
  assumes "catalogue_ok c" "case cn_references k of None \<Rightarrow> True | Some (t', n) \<Rightarrow> has_column t' n c"
  shows "catalogue_ok (add_column t k c)"
proof -
  have keep: "has_column u n (add_column t k c)" if "has_column u n c" for u n
    using that by (auto simp: has_column_def map_of_add_column split: option.splits)
  have keys: "dict_keys (ct_tables (add_column t k c)) = dict_keys (ct_tables c)" by simp
  have "case cn_references k' of None \<Rightarrow> True | Some (t', n) \<Rightarrow> t' \<in> set (dict_keys (ct_tables c))"
    if "(u, ks) \<in> set (ct_tables (add_column t k c))" "k' \<in> set ks" for u ks k'
  proof -
    from that obtain ks' where "(u, ks') \<in> set (ct_tables c)" "k' \<in> set ks' \<or> k' = k"
      by (auto split: if_splits)
    with assms show ?thesis
      using has_column_table by (fastforce simp: catalogue_ok_def refs_ok_def split: option.splits)
  qed
  then have refs: "refs_ok (ct_tables (add_column t k c))"
    unfolding refs_ok_def keys by blast
  have "dict_ok (ct_tables (add_column t k c))"
    using assms(1) unfolding catalogue_ok_def dict_ok_keys keys by blast
  moreover have "\<forall>(i, u, n) \<in> set (ct_indexes (add_column t k c)). has_column u n (add_column t k c)"
    using assms(1) keep by (auto simp: catalogue_ok_def)
  moreover have "\<forall>(u, row) \<in> set (ct_rows (add_column t k c)). u \<in> set (dict_keys (ct_tables (add_column t k c)))"
    using assms(1) unfolding keys by (auto simp: catalogue_ok_def)
  ultimately show ?thesis using refs by (simp only: catalogue_ok_def simp_thms)
qed

lemma execute_op_ok:
  assumes "catalogue_ok c" "own_tables ts [op]" "execute_op op c = Inr c'"
  shows "catalogue_ok c'"
proof (cases op)
  case (CreateTable t cols)
  with assms(1,3) catalogue_ok_create show ?thesis by (auto simp: execute_op_def split: if_splits)
next
  case (AddColumn t k)
  with assms(1,3) catalogue_ok_add [of c k t] show ?thesis by (auto simp: execute_op_def split: if_splits option.splits)
next
  case (CreateIndex i t n)
  with assms(1,3) catalogue_ok_entries show ?thesis by (auto simp: execute_op_def split: if_splits)
next
  case (InsertRow t row)
  with assms(1,3) catalogue_ok_entries show ?thesis by (auto simp: execute_op_def split: if_splits)
qed (use assms(2) in simp_all)

text \<open>
  Two catalogues with the same tables, and the same indexes and rows outside the tables \<open>ts\<close>.
\<close>

definition agrees :: "string list \<Rightarrow> catalogue \<Rightarrow> catalogue \<Rightarrow> bool" where
  "agrees ts d c \<longleftrightarrow> ct_tables d = ct_tables c \<and>
     filter (\<lambda>(i, t, n). t \<notin> set ts) (ct_indexes d) = filter (\<lambda>(i, t, n). t \<notin> set ts) (ct_indexes c) \<and>
     filter (\<lambda>(t, row). t \<notin> set ts) (ct_rows d) = filter (\<lambda>(t, row). t \<notin> set ts) (ct_rows c)"

lemma agrees_refl: "agrees ts c c"
  by (simp add: agrees_def)

lemma agrees_all: "agrees [] d c \<Longrightarrow> d = c"
  by (cases d, cases c) (simp add: agrees_def)

lemma filter_known:
  assumes "filter P xs = filter P ys" "\<And>y. y \<in> set ys \<Longrightarrow> Q y"
  shows "filter P (filter Q xs) = filter P ys"
proof -
  have swap: "filter P (filter Q xs) = filter Q (filter P xs)" by (simp add: conj_commute)
  have "filter Q (filter P ys) = filter P ys" by (rule filter_True) (use assms(2) in simp)
  with swap assms(1) show ?thesis by simp
qed

lemma filter_cut:
  "filter (\<lambda>(i, t', n). t' \<notin> set ts) (filter (\<lambda>(_, t', _). t' \<noteq> t) xs) = filter (\<lambda>(i, t', n). t' \<notin> set (t # ts)) xs"
  "filter (\<lambda>(t', r). t' \<notin> set ts) (filter (\<lambda>(t', _). t' \<noteq> t) ys) = filter (\<lambda>(t', r). t' \<notin> set (t # ts)) ys"
  by (induction xs; force) (induction ys; force)

lemma undo_create:
  assumes "catalogue_ok c" "execute_op (CreateTable t cols) c = Inr c'" "agrees (t # ts) d c'"
  shows "\<exists>d'. execute_op (DropTable t) d = Inr d' \<and> agrees ts d' c"
proof -
  have c': "c' = c\<lparr>ct_tables := ct_tables c @ [(t, cols)]\<rparr>" and fresh: "t \<notin> set (dict_keys (ct_tables c))"
    using assms(2) by (auto simp: execute_op_def split: if_splits)
  have tabs: "ct_tables d = ct_tables c @ [(t, cols)]" using assms(3) by (simp add: agrees_def c')
  have other: "t' \<noteq> t \<and> \<not> refers_to t ks" if m: "(t', ks) \<in> set (ct_tables c)" for t' ks
  proof -
    have "t' \<in> set (dict_keys (ct_tables c))" using m by (force simp: dict_keys_def)
    moreover have "\<not> refers_to t ks"
    proof
      assume "refers_to t ks"
      then obtain k n where "k \<in> set ks" "cn_references k = Some (t, n)"
        by (auto simp: refers_to_def list_ex_iff split: option.splits)
      moreover have "refs_ok (ct_tables c)" using assms(1) by (simp add: catalogue_ok_def)
      ultimately show False using m fresh by (fastforce simp: refs_ok_def)
    qed
    ultimately show ?thesis using fresh by blast
  qed
  then have noref: "\<not> list_ex (\<lambda>(t', cols). t' \<noteq> t \<and> refers_to t cols) (ct_tables d)"
    by (auto simp: tabs list_ex_iff)
  have keep: "filter (\<lambda>(t', _). t' \<noteq> t) (ct_tables c) = ct_tables c"
    by (rule filter_True) (use other in auto)
  have idx: "\<And>x. x \<in> set (ct_indexes c) \<Longrightarrow> (case x of (i, t', n) \<Rightarrow> t' \<noteq> t)"
    using assms(1) fresh has_column_table by (fastforce simp: catalogue_ok_def)
  have row: "\<And>x. x \<in> set (ct_rows c) \<Longrightarrow> (case x of (t', r) \<Rightarrow> t' \<noteq> t)"
    using assms(1) fresh by (fastforce simp: catalogue_ok_def)
  define d' where "d' = \<lparr>ct_tables = ct_tables c, ct_indexes = filter (\<lambda>(_, t', _). t' \<noteq> t) (ct_indexes d),
     ct_rows = filter (\<lambda>(t', _). t' \<noteq> t) (ct_rows d)\<rparr>"
  have "execute_op (DropTable t) d = Inr d'"
    using noref keep by (simp add: execute_op_def d'_def tabs dict_keys_def)
  moreover have "agrees ts d' c"
  proof -
    have "filter (\<lambda>(_, t', _). t' \<noteq> t) (ct_indexes c) = ct_indexes c" "filter (\<lambda>(t', _). t' \<noteq> t) (ct_rows c) = ct_rows c"
      by (rule filter_True; use idx row in blast)+
    moreover have "ct_indexes c' = ct_indexes c" "ct_rows c' = ct_rows c" by (simp_all add: c')
    ultimately show ?thesis
      using assms(3) filter_cut(1) [of ts t "ct_indexes c"] filter_cut(1) [of ts t "ct_indexes d"]
        filter_cut(2) [of ts t "ct_rows c"] filter_cut(2) [of ts t "ct_rows d"]
      unfolding agrees_def d'_def by (simp only: catalogue.simps simp_thms)
  qed
  ultimately show ?thesis by blast
qed

lemma undo_add:
  assumes "catalogue_ok c" "execute_op (AddColumn t k) c = Inr c'" "agrees ts d c'"
  shows "\<exists>d'. execute_op (DropColumn t (cn_name k)) d = Inr d' \<and> agrees ts d' c"
proof -
  have c': "c' = add_column t k c" and new: "t \<in> set (dict_keys (ct_tables c))" "\<not> has_column t (cn_name k) c"
    using assms(2) by (auto simp: execute_op_def split: if_splits)
  have tabs: "ct_tables d = ct_tables (add_column t k c)" using assms(3) by (simp add: agrees_def c')
  have has: "has_column t (cn_name k) d"
    using new(1) by (auto simp: has_column_def tabs map_of_add_column dict_keys_set)
  have fresh: "\<not> list_ex (\<lambda>k'. cn_name k' = cn_name k) ks" if "(t, ks) \<in> set (ct_tables c)" for ks
  proof -
    have "map_of (ct_tables c) t = Some ks" using that assms(1) by (simp add: catalogue_ok_def dict_ok_entry)
    with new(2) show ?thesis by (simp add: has_column_def)
  qed
  have "map ((\<lambda>(t', cols). (t', if t' = t then filter (\<lambda>k'. cn_name k' \<noteq> cn_name k) cols else cols)) \<circ>
      (\<lambda>(t', cols). (t', if t' = t then cols @ [k] else cols))) (ct_tables c) = ct_tables c"
    by (rule map_idI) (use fresh in \<open>fastforce simp: filter_id_conv list_ex_iff\<close>)
  then have keep: "map (\<lambda>(t', cols). (t', if t' = t then filter (\<lambda>k'. cn_name k' \<noteq> cn_name k) cols else cols)) (ct_tables d) = ct_tables c"
    by (simp add: tabs)
  have idx: "\<And>x. x \<in> set (ct_indexes c) \<Longrightarrow> (case x of (i, t', n) \<Rightarrow> \<not> (t' = t \<and> n = cn_name k))"
    using assms(1) new(2) by (fastforce simp: catalogue_ok_def)
  let ?d' = "d\<lparr>ct_tables := ct_tables c, ct_indexes := filter (\<lambda>(i, t', n). \<not> (t' = t \<and> n = cn_name k)) (ct_indexes d)\<rparr>"
  have "execute_op (DropColumn t (cn_name k)) d = Inr ?d'"
    using has keep by (simp add: execute_op_def)
  moreover have "agrees ts ?d' c"
  proof -
    have "filter (\<lambda>(i, t, n). t \<notin> set ts) (ct_indexes d) = filter (\<lambda>(i, t, n). t \<notin> set ts) (ct_indexes c)"
      using assms(3) by (simp add: agrees_def c')
    from filter_known [OF this idx] assms(3) show ?thesis by (simp add: agrees_def c')
  qed
  ultimately show ?thesis by blast
qed

lemma undo_entry:
  assumes "execute_op op c = Inr c'" "own_tables ts [op]" "agrees ts d c'" "undo_op op = []"
  shows "agrees ts d c"
  using assms by (cases op) (auto simp: execute_op_def agrees_def split: if_splits)

lemma own_tables_Cons: "own_tables ts (op # ops) \<longleftrightarrow> own_tables ts [op] \<and> own_tables (created op @ ts) ops"
  by simp

lemma undo_step:
  assumes "catalogue_ok c" "own_tables ts [op]" "execute_op op c = Inr c'" "agrees (created op @ ts) d c'"
  shows "\<exists>d'. execute_ops (undo_op op) d = Inr d' \<and> agrees ts d' c"
proof (cases "(\<exists>t ks. op = CreateTable t ks) \<or> (\<exists>t k. op = AddColumn t k)")
  case True
  with undo_create [OF assms(1)] undo_add [OF assms(1)] assms(3,4) show ?thesis by fastforce
next
  case False
  with assms(2) have "undo_op op = []" "created op = []" by (cases op; simp)+
  with undo_entry [OF assms(3,2)] assms(4) show ?thesis by auto
qed

lemma execute_ops_append: "execute_ops (xs @ ys) c = res_bind (execute_ops xs c) (execute_ops ys)"
proof (induction xs arbitrary: c)
  case (Cons x xs)
  show ?case by (cases "execute_op x c") (simp_all add: Cons.IH)
qed simp

lemma undo_correct:
  "catalogue_ok c \<Longrightarrow> own_tables ts ops \<Longrightarrow> execute_ops ops c = Inr c' \<Longrightarrow>
   agrees (concat (map created (rev ops)) @ ts) d c' \<Longrightarrow>
   \<exists>d'. execute_ops (undo_ops ops) d = Inr d' \<and> agrees ts d' c"
proof (induction ops arbitrary: c ts)
  case Nil
  then show ?case by (simp add: undo_ops_def)
next
  case (Cons op ops)
  from Cons.prems(3) obtain c1 where c1: "execute_op op c = Inr c1" "execute_ops ops c1 = Inr c'"
    by (cases "execute_op op c") auto
  from Cons.prems(2) have own: "own_tables ts [op]" "own_tables (created op @ ts) ops"
    using own_tables_Cons by blast+
  from Cons.prems(4) have "agrees (concat (map created (rev ops)) @ (created op @ ts)) d c'" by simp
  from Cons.IH [OF execute_op_ok [OF Cons.prems(1) own(1) c1(1)] own(2) c1(2) this] obtain d1 where
    d1: "execute_ops (undo_ops ops) d = Inr d1" "agrees (created op @ ts) d1 c1" by blast
  from undo_step [OF Cons.prems(1) own(1) c1(1) d1(2)] d1(1) show ?case
    by (simp add: undo_ops_def execute_ops_append)
qed

text \<open>
  C39. Each downgrade undoes its upgrade: on every consistent database, whatever else it
  holds, upgrading by a revision and downgrading again succeeds and restores the catalogue
  exactly (tables, columns in their order, indexes, seeded rows).
\<close>

theorem downgrade_undoes_upgrade:
  assumes "r \<in> set revisions" and "catalogue_ok c" and "execute_ops (rv_upgrade r) c = Inr c'"
  shows "execute_ops (rv_downgrade r) c' = Inr c"
proof -
  have r: "own_tables [] (rv_upgrade r)" "rv_downgrade r = undo_ops (rv_upgrade r)"
    using revisions_undo assms(1) by (auto simp: list_all_iff)
  from undo_correct [OF assms(2) r(1) assms(3), of c'] show ?thesis
    by (auto simp: r(2) agrees_refl dest: agrees_all)
qed

theorem downgrade_undoes_upgrade_witness:
  "res_bind (execute_ops upgrade_0002 empty_catalogue) (execute_ops downgrade_0002) = Inr empty_catalogue"
proof -
  have "\<not> is_inl (execute_ops upgrade_0002 empty_catalogue)" by code_simp
  then obtain c' where c': "execute_ops upgrade_0002 empty_catalogue = Inr c'"
    by (cases "execute_ops upgrade_0002 empty_catalogue") auto
  have "catalogue_ok empty_catalogue"
    by (simp add: catalogue_ok_def empty_catalogue_def refs_ok_def)
  with downgrade_undoes_upgrade [of "revisions ! 1" empty_catalogue c'] c' show ?thesis
    by (simp add: revisions_def)
qed

subsection \<open>Values of columns\<close>

text \<open>
  A stored value as JSON: a timestamp is its number, NULL is \<open>JNull\<close>. PostgreSQL refuses a
  string longer than its column and an integer outside the width of its type.
\<close>

definition fits_type :: "col_type \<Rightarrow> json \<Rightarrow> bool" where
  "fits_type ty v =
     (case ty of
        CString n \<Rightarrow> str_where (\<lambda>s. length s \<le> n) v
      | CText \<Rightarrow> str_where (\<lambda>_. True) v
      | CInteger \<Rightarrow> (case v of JInt i \<Rightarrow> - (2 ^ 31) \<le> i \<and> i < 2 ^ 31 | _ \<Rightarrow> False)
      | CBigInteger \<Rightarrow> (case v of JInt i \<Rightarrow> - (2 ^ 63) \<le> i \<and> i < 2 ^ 63 | _ \<Rightarrow> False)
      | CFloat \<Rightarrow> (case v of JFloat x \<Rightarrow> True | _ \<Rightarrow> False)
      | CBoolean \<Rightarrow> (case v of JBool b \<Rightarrow> True | _ \<Rightarrow> False)
      | CDateTime \<Rightarrow> (case v of JFloat t \<Rightarrow> True | _ \<Rightarrow> False)
      | CJson \<Rightarrow> True)"

text \<open>
  A row fits when each of its columns exists and admits its value, and a column it leaves
  out is the generated key or the creation stamp.
\<close>

definition row_fits :: "column list \<Rightarrow> (string \<times> json) list \<Rightarrow> bool" where
  "row_fits cols row \<longleftrightarrow>
     list_all (\<lambda>k. case map_of row (cn_name k) of
         None \<Rightarrow> cn_primary_key k \<or> cn_server_default k \<noteq> None
       | Some v \<Rightarrow> v = JNull \<and> cn_nullable k \<or> fits_type (cn_type k) v) cols \<and>
     list_all (\<lambda>(n, _). list_ex (\<lambda>k. cn_name k = n) cols) row"

definition stamp :: "rat option \<Rightarrow> json" where
  "stamp t = opt_json JFloat t"

definition manifest_values :: "manifest_row \<Rightarrow> (string \<times> json) list" where
  "manifest_values m =
     [(''id'', JStr (mr_id m)), (''manifest_id'', JStr (mr_manifest_id m)), (''title'', JStr (mr_title m)),
      (''status'', JStr (status_str (mr_status m))), (''schema_version'', JStr (mr_schema_version m)),
      (''manifest_json'', mr_manifest_json m),
      (''audience_tags'', opt_json (\<lambda>ts. JArr (map JStr ts)) (mr_audience_tags m)),
      (''rejection_reason'', opt_json JStr (mr_rejection_reason m)), (''approved_by'', opt_json JStr (mr_approved_by m)),
      (''approved_at'', stamp (mr_approved_at m)), (''enabled_at'', stamp (mr_enabled_at m)),
      (''created_at'', JFloat (mr_created_at m)), (''updated_at'', JFloat (mr_updated_at m))]"

definition asset_values :: "asset_row \<Rightarrow> (string \<times> json) list" where
  "asset_values a =
     [(''asset_id'', JStr (ar_asset_id a)), (''filename'', JStr (ar_filename a)), (''asset_type'', JStr (ar_asset_type a)),
      (''size_bytes'', JInt (int (ar_size_bytes a))), (''sha256'', JStr (ar_sha256 a)),
      (''manifest_id'', opt_json JStr (ar_manifest_id a)),
      (''status'', JStr (case ar_status a of AssetActive \<Rightarrow> ''active'' | AssetArchived \<Rightarrow> ''archived'')),
      (''uploaded_at'', JFloat (ar_uploaded_at a))]"

definition campaign_values :: "campaign_row \<Rightarrow> (string \<times> json) list" where
  "campaign_values c =
     [(''id'', JStr (cr_id c)), (''name'', JStr (cr_name c)), (''description'', opt_json JStr (cr_description c)),
      (''status'', JStr (campaign_status_str (cr_status c))), (''start_at'', stamp (cr_start_at c)),
      (''end_at'', stamp (cr_end_at c)), (''created_at'', JFloat (cr_created_at c)), (''updated_at'', JFloat (cr_updated_at c))]"

definition link_values :: "campaign_link \<Rightarrow> (string \<times> json) list" where
  "link_values l =
     [(''campaign_id'', JStr (cl_campaign_id l)), (''manifest_id'', JStr (cl_manifest_id l)),
      (''position'', JInt (cl_position l))]"

definition safe_mode_values :: "safe_mode_row \<Rightarrow> (string \<times> json) list" where
  "safe_mode_values r =
     [(''is_active'', JBool (sf_is_active r)), (''reason'', opt_json JStr (sf_reason r)),
      (''activated_at'', stamp (sf_activated_at r)), (''activated_by'', opt_json JStr (sf_activated_by r)),
      (''updated_at'', JFloat (sf_updated_at r))]"

definition audit_values :: "audit_event \<Rightarrow> (string \<times> json) list" where
  "audit_values e =
     [(''event_type'', JStr (ae_event_type e)), (''entity_type'', JStr (ae_entity_type e)),
      (''entity_id'', JStr (ae_entity_id e)), (''actor'', JStr (ae_actor e)), (''payload'', ae_payload e),
      (''created_at'', JFloat (ae_created_at e))]"

definition play_values :: "play_row \<Rightarrow> (string \<times> json) list" where
  "play_values p =
     [(''manifest_id'', JStr (pw_manifest_id p)), (''activated_at'', JFloat (pw_activated_at p)),
      (''reason'', opt_json JStr (pw_reason p)), (''prev_manifest_id'', opt_json JStr (pw_prev_manifest_id p)),
      (''attention_at_trigger'', opt_json JFloat (pw_attention_at_trigger p)), (''received_at'', JFloat (pw_received_at p))]"

definition uptime_values :: "uptime_row \<Rightarrow> (string \<times> json) list" where
  "uptime_values u =
     [(''sampled_at'', JFloat (up_sampled_at u)), (''player_status'', JStr (up_player_status u)),
      (''overall_status'', JStr (up_overall_status u))]"

text \<open>A bin the sink found no value for is NULL.\<close>

definition bin_values_of :: "string \<Rightarrow> string list \<Rightarrow> (string \<times> rat) list \<Rightarrow> (string \<times> json) list" where
  "bin_values_of prefix bins cols = map (\<lambda>k. (prefix @ k, opt_json JFloat (map_of cols k))) bins"

definition snapshot_values :: "snapshot_row \<Rightarrow> (string \<times> json) list" where
  "snapshot_values n =
     [(''sampled_at'', JFloat (sn_sampled_at n)), (''presence_count'', JInt (sn_presence_count n)),
      (''presence_confidence'', JFloat (sn_presence_confidence n)), (''state_stable'', JBool (sn_state_stable n)),
      (''pipeline_degraded'', JBool (sn_pipeline_degraded n)),
      (''demographics_suppressed'', JBool (sn_demographics_suppressed n))] @
     bin_values_of ''age_group_'' age_bins (sn_age_group n) @ bin_values_of ''gender_'' gender_bins (sn_gender n) @
     bin_values_of ''attire_'' attire_bins (sn_attire n) @
     [(''attention_engaged'', opt_json JFloat (sn_attention_engaged n))]"

definition rows_fit :: "dashboard \<Rightarrow> bool" where
  "rows_fit db \<longleftrightarrow>
     list_all (\<lambda>m. row_fits Manifest_columns (manifest_values m)) (db_manifests db) \<and>
     list_all (\<lambda>a. row_fits Asset_columns (asset_values a)) (db_assets db) \<and>
     list_all (\<lambda>c. row_fits Campaign_columns (campaign_values c)) (db_campaigns db) \<and>
     list_all (\<lambda>l. row_fits CampaignManifest_columns (link_values l)) (db_links db) \<and>
     (case db_safe_mode db of None \<Rightarrow> True | Some r \<Rightarrow> row_fits SafeModeState_columns (safe_mode_values r)) \<and>
     list_all (\<lambda>e. row_fits AuditEvent_columns (audit_values e)) (db_audit db) \<and>
     list_all (\<lambda>n. row_fits AudienceSnapshot_columns (snapshot_values n)) (db_snapshots db) \<and>
     list_all (\<lambda>p. row_fits PlayEvent_columns (play_values p)) (db_plays db) \<and>
     list_all (\<lambda>u. row_fits UptimeEvent_columns (uptime_values u)) (db_uptime db)"

subsection \<open>When a row fits\<close>

lemmas column_defs = required_def nullable_def primary_def unique_col_def server_default_def foreign_key_def stamped_def

definition short :: "nat \<Rightarrow> string option \<Rightarrow> bool" where
  "short n s = (case s of None \<Rightarrow> True | Some t \<Rightarrow> length t \<le> n)"

lemma short_simps [simp]: "short n None" "short n (Some s) \<longleftrightarrow> length s \<le> n"
  by (simp_all add: short_def)

lemma fits_opt [simp]:
  "opt_json JStr s = JNull \<or> fits_type (CString n) (opt_json JStr s) \<longleftrightarrow> short n s"
  "opt_json JStr s = JNull \<or> fits_type CText (opt_json JStr s)"
  "opt_json JFloat t = JNull \<or> fits_type CFloat (opt_json JFloat t)"
  "stamp t = JNull \<or> fits_type CDateTime (stamp t)"
  by (cases s; cases t; simp add: opt_json_def short_def fits_type_def str_where_def stamp_def)+

lemma fits_plain [simp]:
  "fits_type (CString n) (JStr s) \<longleftrightarrow> length s \<le> n"
  "fits_type CDateTime (JFloat t)" "fits_type CFloat (JFloat t)" "fits_type CBoolean (JBool b)" "fits_type CJson v"
  by (simp_all add: fits_type_def str_where_def)

lemma status_str_short: "length (status_str s) \<le> 32" "length (campaign_status_str c) \<le> 32"
  by (cases s; simp) (cases c; simp)

lemma manifest_fits:
  "row_fits Manifest_columns (manifest_values m) \<longleftrightarrow>
     length (mr_id m) \<le> 36 \<and> length (mr_manifest_id m) \<le> 128 \<and> length (mr_title m) \<le> 255 \<and>
     length (mr_schema_version m) \<le> 32 \<and> short 1024 (mr_rejection_reason m) \<and> short 128 (mr_approved_by m)"
  by (simp add: row_fits_def Manifest_columns_def manifest_values_def column_defs status_str_short)

lemma asset_fits:
  "row_fits Asset_columns (asset_values a) \<longleftrightarrow>
     length (ar_asset_id a) \<le> 128 \<and> length (ar_filename a) \<le> 512 \<and> length (ar_asset_type a) \<le> 32 \<and>
     int (ar_size_bytes a) < 2 ^ 63 \<and> length (ar_sha256 a) \<le> 64 \<and> short 128 (ar_manifest_id a)"
  by (simp add: row_fits_def Asset_columns_def asset_values_def column_defs fits_type_def [of CBigInteger]
      split: asset_status.split)

lemma campaign_fits:
  "row_fits Campaign_columns (campaign_values c) \<longleftrightarrow> length (cr_id c) \<le> 36 \<and> length (cr_name c) \<le> 255"
  by (simp add: row_fits_def Campaign_columns_def campaign_values_def column_defs status_str_short)

lemma link_fits:
  "row_fits CampaignManifest_columns (link_values l) \<longleftrightarrow>
     length (cl_campaign_id l) \<le> 36 \<and> length (cl_manifest_id l) \<le> 36 \<and>
     - (2 ^ 31) \<le> cl_position l \<and> cl_position l < 2 ^ 31"
  by (simp add: row_fits_def CampaignManifest_columns_def link_values_def column_defs fits_type_def [of CInteger])

lemma safe_mode_fits:
  "row_fits SafeModeState_columns (safe_mode_values r) \<longleftrightarrow> short 512 (sf_reason r) \<and> short 128 (sf_activated_by r)"
  by (simp add: row_fits_def SafeModeState_columns_def safe_mode_values_def column_defs)

lemma audit_fits:
  "row_fits AuditEvent_columns (audit_values e) \<longleftrightarrow>
     length (ae_event_type e) \<le> 64 \<and> length (ae_entity_type e) \<le> 32 \<and> length (ae_entity_id e) \<le> 128 \<and>
     length (ae_actor e) \<le> 128"
  by (simp add: row_fits_def AuditEvent_columns_def audit_values_def column_defs)

lemma play_fits:
  "row_fits PlayEvent_columns (play_values p) \<longleftrightarrow>
     length (pw_manifest_id p) \<le> 128 \<and> short 256 (pw_reason p) \<and> short 128 (pw_prev_manifest_id p)"
  by (simp add: row_fits_def PlayEvent_columns_def play_values_def column_defs)

lemma uptime_fits:
  "row_fits UptimeEvent_columns (uptime_values u) \<longleftrightarrow> length (up_player_status u) \<le> 32 \<and> length (up_overall_status u) \<le> 32"
  by (simp add: row_fits_def UptimeEvent_columns_def uptime_values_def column_defs)

lemmas row_fits_iff = manifest_fits asset_fits campaign_fits link_fits safe_mode_fits audit_fits play_fits uptime_fits

subsection \<open>Every write fits\<close>

lemma opt_float_fits: "opt_json JFloat v = JNull \<or> fits_type CFloat (opt_json JFloat v)"
  by (simp add: opt_json_def fits_type_def split: option.split)

definition count_in_range :: "snapshot_row \<Rightarrow> bool" where
  "count_in_range n \<longleftrightarrow> - (2 ^ 31) \<le> sn_presence_count n \<and> sn_presence_count n < 2 ^ 31"

lemma snapshot_fits: "row_fits AudienceSnapshot_columns (snapshot_values n) = count_in_range n"
  using opt_float_fits
  by (simp add: row_fits_def AudienceSnapshot_columns_def snapshot_values_def bin_values_of_def age_bins_def gender_bins_def
      attire_bins_def required_def nullable_def primary_def fits_type_def [of CInteger] fits_type_def [of CBoolean]
      fits_type_def [of CDateTime] fits_type_def [of CFloat "JFloat _"] count_in_range_def)

lemma rows_fit_event:
  "rows_fit db \<Longrightarrow> length ty \<le> 64 \<Longrightarrow> length et \<le> 32 \<Longrightarrow> length i \<le> 128 \<Longrightarrow> length who \<le> 128 \<Longrightarrow>
   rows_fit (write_event now ty et i who p db)"
  by (simp add: rows_fit_def write_event_def audit_fits)

lemma rows_fit_put:
  "rows_fit db \<Longrightarrow> row_fits Manifest_columns (manifest_values m) \<Longrightarrow> rows_fit (put_row m db)"
  by (auto simp: rows_fit_def put_row_def list_all_iff)

lemma rows_fit_files [simp]:
  "rows_fit (write_manifest_to_disk ok m db) = rows_fit db" "rows_fit (remove_manifest_from_disk ok i db) = rows_fit db"
  "rows_fit (db\<lparr>fs_rules := x\<rparr>) = rows_fit db" "rows_fit (db\<lparr>fs_assets := y\<rparr>) = rows_fit db"
  by (simp_all add: rows_fit_def write_manifest_to_disk_def remove_manifest_from_disk_def)

lemma rows_fit_found:
  assumes "rows_fit db" "find_row i db = Some m"
  shows "row_fits Manifest_columns (manifest_values m)" "length i \<le> 128"
proof -
  have "m \<in> set (db_manifests db)" using assms(2) by (auto simp: find_row_def find_Some_iff)
  with assms(1) show f: "row_fits Manifest_columns (manifest_values m)" by (simp add: rows_fit_def list_all_iff)
  from f find_row_id [OF assms(2)] show "length i \<le> 128" by (simp add: manifest_fits)
qed

text \<open>
  What the request models of schemas.py leave open: the length of \<open>schema_version\<close>. The
  identifiers are generated (uuid4, 36 characters).
\<close>

fun manifest_request_ok :: "manifest_request \<Rightarrow> bool" where
  "manifest_request_ok (ReqCreate uuid body) = (length uuid \<le> 36 \<and> length (mi_schema_version body) \<le> 32)"
| "manifest_request_ok _ = True"

lemma manifest_step_fits:
  assumes "rows_fit db" "manifest_request_ok q"
  shows "rows_fit (manifest_step (now, disk_ok, q) db)"
proof -
  note found = rows_fit_found [OF assms(1)]
  have move: "rows_fit (write_event now ty ''manifest'' i who p (put_row m' db))"
    if "find_row i db = Some m" "length ty \<le> 64" "length who \<le> 128" "row_fits Manifest_columns (manifest_values m')" for i m m' ty who p
    using that found [OF that(1)] assms(1) by (intro rows_fit_event rows_fit_put) simp_all
  have remove: "rows_fit (put_row m' (remove_manifest_from_disk ok i db))"
    if "row_fits Manifest_columns (manifest_values m')" for m' ok i
    using that assms(1) by (intro rows_fit_put) simp_all
  note fits = found(1) [unfolded manifest_fits]
  show ?thesis
  proof (cases q)
    case (ReqCreate uuid body)
    have "rows_fit (db\<lparr>db_manifests := db_manifests db @ [m]\<rparr>)" if "row_fits Manifest_columns (manifest_values m)" for m
      using that assms(1) by (simp add: rows_fit_def)
    with assms show ?thesis
      by (auto simp: ReqCreate create_manifest_def Let_def manifest_in_ok_def manifest_fits intro!: rows_fit_event)
  next
    case (ReqApprove i who)
    with assms move fits show ?thesis
      by (auto simp: approve_manifest_def get_manifest_or_404_Inr Let_def manifest_fits split: sum.splits)
  next
    case (ReqReject i reason who)
    with assms move fits show ?thesis
      by (auto simp: reject_manifest_def get_manifest_or_404_Inr Let_def manifest_fits split: sum.splits)
  next
    case (ReqEnable i)
    with assms fits found show ?thesis
      by (auto simp: enable_manifest_def get_manifest_or_404_Inr Let_def manifest_fits
          intro!: rows_fit_event rows_fit_put split: sum.splits)
  next
    case (ReqDisable i)
    with assms fits found show ?thesis
      by (auto simp: disable_manifest_def get_manifest_or_404_Inr Let_def manifest_fits
          intro!: rows_fit_event rows_fit_put split: sum.splits)
  next
    case (ReqTags i tags)
    with assms move fits show ?thesis
      by (auto simp: update_manifest_tags_def get_manifest_or_404_Inr Let_def manifest_fits split: sum.splits)
  next
    case (ReqSync opt)
    with assms(1) show ?thesis
      by (auto simp: sync_rules_def Let_def split: sum.splits prod.splits intro!: rows_fit_event)
  next
    case (ReqArchive i)
    with assms fits found show ?thesis
      by (auto simp: archive_manifest_def get_manifest_or_404_Inr Let_def manifest_fits
          intro!: rows_fit_event rows_fit_put split: sum.splits)
  qed
qed

lemma rows_fit_campaign:
  assumes "rows_fit db" "get_campaign_or_404 i db = Inr c"
  shows "row_fits Campaign_columns (campaign_values c)" "length i \<le> 36" "length i \<le> 128"
proof -
  have c: "c \<in> set (db_campaigns db)" "cr_id c = i"
    using assms(2) by (auto simp: get_campaign_or_404_def find_Some_iff split: option.splits)
  with assms(1) show f: "row_fits Campaign_columns (campaign_values c)" by (simp add: rows_fit_def list_all_iff)
  from f c(2) show "length i \<le> 36" "length i \<le> 128" by (simp_all add: campaign_fits)
qed

lemma rows_fit_put_campaign:
  "rows_fit db \<Longrightarrow> row_fits Campaign_columns (campaign_values c) \<Longrightarrow> rows_fit (put_campaign c db)"
  by (auto simp: rows_fit_def put_campaign_def list_all_iff)

fun campaign_request_ok :: "campaign_request \<Rightarrow> bool" where
  "campaign_request_ok (ReqNewCampaign uuid body) = (length uuid \<le> 36)"
| "campaign_request_ok _ = True"

lemma campaign_step_fits:
  assumes "rows_fit db" "unordered db" "campaign_request_ok q"
  shows "rows_fit (campaign_step (now, q) db)"
proof -
  note found = rows_fit_campaign [OF assms(1)]
  note fits = found(1) [unfolded campaign_fits]
  show ?thesis
  proof (cases q)
    case (ReqNewCampaign uuid body)
    have "rows_fit (db\<lparr>db_campaigns := db_campaigns db @ [c]\<rparr>)" if "row_fits Campaign_columns (campaign_values c)" for c
      using that assms(1) by (simp add: rows_fit_def)
    with assms show ?thesis
      by (auto simp: ReqNewCampaign create_campaign_def Let_def name_ok_def campaign_fits intro!: rows_fit_event)
  next
    case (ReqUpdateCampaign i body)
    with assms(1) fits found(3) show ?thesis
      by (auto simp: update_campaign_def Let_def campaign_fits or_keep_def name_ok_def
          intro!: rows_fit_event rows_fit_put_campaign split: sum.splits option.splits)
  next
    case (ReqAddManifest i mid)
    have "rows_fit (db\<lparr>db_links := db_links db @ [l]\<rparr>)" if "row_fits CampaignManifest_columns (link_values l)" for l
      using that assms(1) by (simp add: rows_fit_def)
    moreover have "next_position (campaign_links i db) = 0"
      using assms(2) by (intro next_position_zero) (auto simp: unordered_def campaign_links_def list_all_iff)
    ultimately show ?thesis
      using assms(1) found(2,3) rows_fit_found(1) [OF assms(1)]
      by (auto simp: ReqAddManifest add_manifest_to_campaign_def get_manifest_or_404_Inr Let_def link_fits manifest_fits
          intro!: rows_fit_event split: sum.splits)
  next
    case (ReqRemoveManifest i mid)
    have "rows_fit (db\<lparr>db_links := filter P (db_links db)\<rparr>)" for P
      using assms(1) by (auto simp: rows_fit_def list_all_iff)
    with assms(1) found(3) show ?thesis
      by (auto simp: ReqRemoveManifest remove_manifest_from_campaign_def Let_def
          intro!: rows_fit_event split: sum.splits)
  next
    case (ReqArchiveCampaign i)
    with assms(1) fits found(3) show ?thesis
      by (auto simp: archive_campaign_def Let_def campaign_fits
          intro!: rows_fit_event rows_fit_put_campaign split: sum.splits)
  qed
qed

lemma asset_type_short: "length (detect_asset_type n) \<le> 32"
proof -
  have "length ty \<le> 32" if "map_of allowed_extensions k = Some ty" for k ty
    using map_of_SomeD [OF that] by (auto simp: allowed_extensions_def)
  then show ?thesis by (auto simp: detect_asset_type_def split: option.split)
qed

text \<open>Assets: a generated identifier, a digest of 64 digits; name and size of the file are not checked.\<close>

fun asset_request_ok :: "(string \<Rightarrow> string) \<Rightarrow> asset_request \<Rightarrow> bool" where
  "asset_request_ok sha256 (ReqUpload i fails_after name bytes) =
     (length i \<le> 128 \<and> short 512 name \<and> int (length bytes) < 2 ^ 63 \<and> length (sha256 bytes) \<le> 64)"
| "asset_request_ok sha256 (ReqArchiveAsset i) = True"

lemma asset_step_fits:
  assumes "rows_fit db" "asset_request_ok sha256 q"
  shows "rows_fit (asset_step sha256 (now, q) db)"
proof (cases q)
  case (ReqUpload i fails_after name bytes)
  define filename where "filename = (case name of None \<Rightarrow> ''unknown'' | Some n \<Rightarrow> if n = [] then ''unknown'' else n)"
  have len: "length filename \<le> 512" using assms(2) by (auto simp: filename_def ReqUpload short_def split: option.splits)
  have add: "rows_fit (db\<lparr>db_assets := db_assets db @ [a], fs_assets := x\<rparr>)"
    if "row_fits Asset_columns (asset_values a)" for a x
    using that assms(1) by (simp add: rows_fit_def)
  have ev: "rows_fit (write_event now ''asset.uploaded'' ''asset'' i ''operator'' p
       (db\<lparr>db_assets := db_assets db @ [\<lparr>ar_asset_id = i, ar_filename = filename, ar_asset_type = detect_asset_type filename,
          ar_size_bytes = us_size us, ar_sha256 = sha256 (us_hashed us), ar_manifest_id = None,
          ar_status = AssetActive, ar_uploaded_at = now\<rparr>], fs_assets := x\<rparr>))"
    if "stream_upload fails_after (read_chunks 65536 bytes) \<lparr>us_written = [], us_hashed = [], us_size = 0\<rparr> = (Inr (), us)" for us p x
  proof -
    have "us = \<lparr>us_written = bytes, us_hashed = bytes, us_size = length bytes\<rparr>"
      using stream_upload_done [OF that] concat_read_chunks [of 65536 bytes] by simp
    with assms(2) show ?thesis
      by (intro rows_fit_event add) (simp_all add: asset_fits len asset_type_short ReqUpload)
  qed
  show ?thesis
    using assms(1) ev
    by (auto simp add: ReqUpload upload_asset_def Let_def simp flip: filename_def split: prod.split sum.split)
next
  case (ReqArchiveAsset i)
  have "rows_fit (db\<lparr>db_assets := map (\<lambda>r. if ar_asset_id r = i then a\<lparr>ar_status := AssetArchived\<rparr> else r) (db_assets db)\<rparr>) \<and> length i \<le> 128"
    if "get_asset i db = Inr a" for a
  proof -
    have "a \<in> set (db_assets db)" "ar_asset_id a = i"
      using that by (auto simp: get_asset_def find_Some_iff split: option.splits)
    with assms(1) have a: "row_fits Asset_columns (asset_values a)" by (simp add: rows_fit_def list_all_iff)
    with \<open>ar_asset_id a = i\<close> have "length i \<le> 128" by (simp add: asset_fits)
    moreover have "row_fits Asset_columns (asset_values (a\<lparr>ar_status := AssetArchived\<rparr>))" using a by (simp add: asset_fits)
    ultimately show ?thesis using assms(1) by (auto simp: rows_fit_def list_all_iff)
  qed
  with assms(1) show ?thesis
    by (auto simp: ReqArchiveAsset archive_asset_def Let_def split: sum.splits intro!: rows_fit_event)
qed

text \<open>The query parameter \<open>cleared_by\<close> has no bound.\<close>

fun safe_mode_request_ok :: "safe_mode_request \<Rightarrow> bool" where
  "safe_mode_request_ok (ReqClear who) = (length who \<le> 128)"
| "safe_mode_request_ok _ = True"

lemma safe_mode_step_fits:
  assumes "rows_fit db" "safe_mode_request_ok q"
  shows "rows_fit (safe_mode_step (now, q) db)"
proof -
  have put: "rows_fit (db\<lparr>db_safe_mode := Some r\<rparr>)" if "row_fits SafeModeState_columns (safe_mode_values r)" for r
    using that assms(1) by (simp add: rows_fit_def)
  show ?thesis
    using assms by (cases q) (auto simp: engage_safe_mode_def clear_safe_mode_def Let_def safe_mode_fits
      intro!: rows_fit_event put)
qed

subsection \<open>Every row of the database fits its columns\<close>

text \<open>The writers of the dashboard: the routers and the three sinks.\<close>

datatype db_write =
    WriteApi "rat \<times> api_request"
  | WriteAudience "bool \<times> payload"
  | WritePlay "bool \<times> rat \<times> payload"
  | WriteUptime "bool \<times> rat \<times> http_answer"

fun db_write_step :: "dashboard_env \<Rightarrow> db_write \<Rightarrow> dashboard \<Rightarrow> dashboard" where
  "db_write_step env (WriteApi r) db = api_step (de_sha256 env) r db"
| "db_write_step env (WriteAudience m) db = snd (audience_handler env m db)"
| "db_write_step env (WritePlay m) db = snd (play_handler env m db)"
| "db_write_step env (WriteUptime m) db = snd (uptime_message m db)"

text \<open>
  Nothing bounds the count of a signal, but its column is an INTEGER: the rows a signal would add
  must have a count in that range, or their commit fails.
\<close>

fun db_write_ok :: "dashboard_env \<Rightarrow> db_write \<Rightarrow> bool" where
  "db_write_ok env (WriteApi (now, ApiManifest disk_ok q)) = manifest_request_ok q"
| "db_write_ok env (WriteApi (now, ApiCampaign q)) = campaign_request_ok q"
| "db_write_ok env (WriteApi (now, ApiAsset q)) = asset_request_ok (de_sha256 env) q"
| "db_write_ok env (WriteApi (now, ApiSafeMode q)) = safe_mode_request_ok q"
| "db_write_ok env (WriteAudience m) = list_all count_in_range (db_snapshots (snd (audience_handler env m empty_dashboard)))"
| "db_write_ok env _ = True"

lemma audience_message_appends:
  "snd (audience_message ip fp fromiso m db) =
     db\<lparr>db_snapshots := db_snapshots db @ db_snapshots (snd (audience_message ip fp fromiso m empty_dashboard))\<rparr>"
  by (cases m) (auto simp: audience_message_def empty_dashboard_def split: sum.split option.split)

lemma audience_message_fits:
  "rows_fit db \<Longrightarrow> db_write_ok env (WriteAudience m) \<Longrightarrow> rows_fit (snd (audience_handler env m db))"
  unfolding audience_handler_def
  by (subst audience_message_appends) (simp add: rows_fit_def snapshot_fits audience_handler_def)

lemma play_message_fits: "rows_fit db \<Longrightarrow> rows_fit (snd (play_message repr fromiso m db))"
  by (cases m)
    (auto simp: play_message_def Let_def rows_fit_def play_fits parse_play_event_def drop_malformed_def res_bind_Inr
      opt_str_field_def split: payload.splits sum.splits option.splits py_error.splits)

lemma uptime_message_fits: "rows_fit db \<Longrightarrow> rows_fit (snd (uptime_message m db))"
  by (cases m) (auto simp: uptime_message_def uptime_statuses_def Let_def rows_fit_def uptime_fits split: http_answer.splits)

lemma db_write_fits:
  assumes "rows_fit db" "unordered db" "db_write_ok env w"
  shows "rows_fit (db_write_step env w db) \<and> unordered (db_write_step env w db)"
proof (cases w)
  case (WriteApi r)
  obtain now q where r: "r = (now, q)" by (cases r)
  have same: "unordered db'" if "db_links db' = db_links db" for db' using assms(2) that by (simp add: unordered_def)
  show ?thesis
  proof (cases q)
    case (ApiManifest disk_ok mq)
    have "db_links (manifest_step (now, disk_ok, mq) db) = db_links db"
      by (rule manifest_step_frame)
    with assms same show ?thesis by (simp add: WriteApi r ApiManifest manifest_step_fits)
  next
    case (ApiCampaign cq)
    with assms show ?thesis by (simp add: WriteApi r campaign_step_fits unordered_step)
  next
    case (ApiAsset aq)
    with assms same show ?thesis by (simp add: WriteApi r asset_step_fits asset_step_frame)
  next
    case (ApiSafeMode sq)
    with assms same show ?thesis by (simp add: WriteApi r safe_mode_step_fits safe_mode_step_frame)
  next
    case ApiReadSafeMode
    with assms same show ?thesis
      by (auto simp: WriteApi r get_safe_mode_def get_or_create_safe_mode_def rows_fit_def safe_mode_fits short_def Let_def
          split: option.split)
  next
    case (ApiFallback is_file disk_ok fq)
    with assms same show ?thesis by (simp add: WriteApi r fallback_step_def rows_fit_def)
  qed
next
  case (WriteAudience m)
  have "db_links (snd (audience_handler env m db)) = db_links db"
    by (subst audience_handler_def, subst audience_message_appends) simp
  with assms audience_message_fits show ?thesis by (simp add: WriteAudience unordered_def del: db_write_ok.simps)
next
  case (WritePlay m)
  have "db_links (snd (play_handler env m db)) = db_links db"
    by (cases m) (simp add: play_handler_def play_message_def Let_def split: sum.splits option.splits)
  with assms show ?thesis by (simp add: WritePlay play_message_fits play_handler_def unordered_def)
next
  case (WriteUptime m)
  have "db_links (snd (uptime_message m db)) = db_links db"
    by (cases m) (simp add: uptime_message_def Let_def split: prod.splits)
  with assms show ?thesis by (simp add: WriteUptime uptime_message_fits unordered_def)
qed

text \<open>
  C31. Typing of the stored rows: after any history of API requests, audience signals, play
  events and uptime probes, every row of the nine tables fits the columns of the schema (strings
  within their widths, integers within their types, NULL only where allowed). By hypothesis
  \<open>schema_version\<close>, the name and size of an uploaded file and \<open>cleared_by\<close>, which no request model
  bounds, fit their columns, and so does the count of a signal the audience sink stores.
\<close>

theorem stored_rows_fit:
  assumes "list_all (db_write_ok env) ws"
  shows "rows_fit (fold (db_write_step env) ws empty_dashboard)"
proof -
  have "rows_fit db \<Longrightarrow> unordered db \<Longrightarrow> list_all (db_write_ok env) ws \<Longrightarrow>
      rows_fit (fold (db_write_step env) ws db)" for db
    by (induction ws arbitrary: db) (simp_all add: db_write_fits)
  moreover have "rows_fit empty_dashboard" "unordered empty_dashboard"
    by (simp_all add: rows_fit_def unordered_def empty_dashboard_def)
  ultimately show ?thesis using assms by blast
qed

definition demo_env :: dashboard_env where
  "demo_env = \<lparr>de_parse_int = (\<lambda>_. None), de_parse_float = (\<lambda>_. None), de_repr = (\<lambda>_. []),
     de_fromiso = (\<lambda>_. Inr (Aware 7)), de_sha256 = (\<lambda>_. ''digest'')\<rparr>"

definition demo_writes :: "db_write list" where
  "demo_writes =
     [WriteApi (1, ApiManifest True (ReqCreate ''u1'' (demo_in ''m1''))),
      WriteApi (2, ApiManifest True (ReqApprove ''m1'' ''alice'')),
      WriteAudience (True, Decoded (JObj [(''produced_at'', JStr ''t''),
        (''state'', JObj [(''presence'', JObj [(''count'', JInt 3), (''confidence'', JFloat 1)])])])),
      WriteUptime (True, 3, Answered 200 1)]"

theorem stored_rows_fit_witness:
  "length (db_manifests (fold (db_write_step demo_env) demo_writes empty_dashboard)) = 1 \<and>
   length (db_snapshots (fold (db_write_step demo_env) demo_writes empty_dashboard)) = 1 \<and>
   rows_fit (fold (db_write_step demo_env) demo_writes empty_dashboard)"
proof (intro conjI)
  show "length (db_manifests (fold (db_write_step demo_env) demo_writes empty_dashboard)) = 1"
    "length (db_snapshots (fold (db_write_step demo_env) demo_writes empty_dashboard)) = 1"
    by code_simp+
  have "list_all (db_write_ok demo_env) demo_writes" by code_simp
  then show "rows_fit (fold (db_write_step demo_env) demo_writes empty_dashboard)"
    by (rule stored_rows_fit)
qed

text \<open>A longer \<open>schema_version\<close> passes the request model and does not fit its column.\<close>

lemma long_schema_version_refused:
  assumes "manifest_in_ok body" "32 < length (mi_schema_version body)" "find_row (mi_manifest_id body) db = None"
  shows "\<exists>m. create_manifest now uuid body db = (Inr m, snd (create_manifest now uuid body db)) \<and>
    \<not> row_fits Manifest_columns (manifest_values m)"
  using assms by (simp add: create_manifest_def Let_def manifest_fits)

end
