(* ===== verification/SupervisorService.thy ===== *)
theory SupervisorService
  imports Supervisor PlayerMain
begin

section \<open>The supervisor process (services/supervisor/supervisor/main.py, health.py)\<close>

text \<open>
  The three loops of \<open>run\<close> on one asyncio thread: the health loop goes through the service
  table probe by probe, the relay ticks and the storage checks happen between its probes. The
  relay is also connected to the player it controls.
\<close>

subsection \<open>The process\<close>

record supervisor_service =
  su_core :: supervisor
  su_pending :: "managed_service list"
  su_storage :: "storage_status option"
  su_ended :: bool

datatype su_event =
    SuProbe round_env
  | SuRelay "(int \<times> json) option" "int option"
  | SuStorage "(int \<times> int \<times> int) option"

definition su_boot :: "managed_service list \<Rightarrow> supervisor_service" where
  "su_boot svcs = \<lparr>su_core = init_sv svcs, su_pending = [], su_storage = None, su_ended = False\<rparr>"

text \<open>The next probe of \<open>_health_loop\<close>; when the round is over (after the sleep) a new one starts.\<close>

definition probe_next :: "restart_manager \<Rightarrow> managed_service list \<Rightarrow> round_env \<Rightarrow> supervisor_service
    \<Rightarrow> supervisor_service" where
  "probe_next rm svcs env s =
     (case (if su_pending s = [] then svcs else su_pending s) of
        [] \<Rightarrow> s
      | svc # rest \<Rightarrow> s\<lparr>su_core := check_service rm env svc (su_core s), su_pending := rest\<rparr>)"

text \<open>
  \<open>_storage_loop\<close>: a file system of size 0 makes the division raise, which only \<open>OSError\<close>
  is caught for: the exception leaves \<open>gather\<close> and ends the process.
\<close>

definition storage_round :: "(int \<times> int \<times> int) option \<Rightarrow> supervisor_service \<Rightarrow> supervisor_service" where
  "storage_round usage s =
     (if (case usage of Some (bytes, used, free) \<Rightarrow> bytes = 0 | None \<Rightarrow> False) then s\<lparr>su_ended := True\<rparr>
      else s\<lparr>su_storage := Some (check_storage usage 80 90)\<rparr>)"

fun su_step :: "restart_manager \<Rightarrow> managed_service list \<Rightarrow> su_event \<Rightarrow> supervisor_service \<Rightarrow> supervisor_service" where
  "su_step rm svcs ev s =
     (if su_ended s then s
      else case ev of
        SuProbe env \<Rightarrow> probe_next rm svcs env s
      | SuRelay resp status \<Rightarrow>
          s\<lparr>su_core := (su_core s)\<lparr>sv_relay := relay_tick resp status (sv_relay (su_core s))\<rparr>\<rparr>
      | SuStorage usage \<Rightarrow> storage_round usage s)"

declare su_step.simps [simp del]

definition su_run :: "restart_manager \<Rightarrow> managed_service list \<Rightarrow> su_event list \<Rightarrow> supervisor_service
    \<Rightarrow> supervisor_service" where
  "su_run rm svcs evs s = fold (su_step rm svcs) evs s"

text \<open>\<open>/readyz\<close> and \<open>/status\<close>; \<open>format_ts\<close> is the wall-clock text of a monotonic time.\<close>

definition su_readyz :: "bool \<Rightarrow> supervisor \<Rightarrow> nat \<times> json" where
  "su_readyz is_ready sv =
     (if \<not> is_ready
      then (503, JObj [(''status'', JStr ''not_ready''), (''reason'', JStr ''startup_in_progress'')])
      else (200, JObj ((''status'', JStr ''ok'') #
        (if degraded_services sv = [] then [] else [(''degraded_services'', JArr (map JStr (degraded_services sv)))]))))"

definition su_report :: "(rat \<Rightarrow> string) \<Rightarrow> service_state \<Rightarrow> json" where
  "su_report format_ts s = JObj
     [(''is_healthy'', JBool (ss_is_healthy s)), (''consecutive_failures'', JInt (int (ss_consecutive_failures s))),
      (''restart_count'', JInt (int (ss_restart_count s))), (''in_boot_loop'', JBool (ss_in_boot_loop s)),
      (''escalated'', JBool (ss_escalated s)),
      (''last_restart_at'', opt_json (\<lambda>t. JStr (format_ts t)) (ss_last_restart_at s))]"

definition su_status :: "(rat \<Rightarrow> string) \<Rightarrow> supervisor \<Rightarrow> json" where
  "su_status format_ts sv = JObj
     [(''schema_version'', JStr ''1.0.0''),
      (''services'', JObj (map (\<lambda>(n, s). (n, su_report format_ts s)) (sv_states sv)))]"

subsection \<open>The invariant of the process\<close>

definition service_inv :: "restart_manager \<Rightarrow> service_state \<Rightarrow> bool" where
  "service_inv rm s \<longleftrightarrow>
     (ss_is_healthy s \<longleftrightarrow> ss_consecutive_failures s = 0) \<and>
     ss_restart_count s \<le> rm_restart_threshold rm \<and>
     length (ss_restart_timestamps s) \<le> rm_boot_loop_threshold rm \<and>
     length (ss_restart_timestamps s) \<le> ss_restart_count s \<and>
     (ss_last_restart_at s = None \<longleftrightarrow> ss_restart_count s = 0) \<and>
     \<not> (ss_in_boot_loop s \<and> ss_escalated s) \<and>
     (ss_in_boot_loop s \<longrightarrow> length (ss_restart_timestamps s) = rm_boot_loop_threshold rm) \<and>
     (ss_escalated s \<longrightarrow> ss_restart_count s = rm_restart_threshold rm)"

lemma service_inv_init: "service_inv rm init_ss"
  by (simp add: service_inv_def init_ss_def)

lemma service_inv_healthy: "service_inv rm s \<Longrightarrow> service_inv rm (record_healthy s)"
  by (simp add: service_inv_def record_healthy_def)

lemma service_inv_evaluate:
  assumes "service_inv rm s"
  shows "service_inv rm (snd (rm_evaluate rm now ok (record_failure s)))"
proof -
  define f where "f = record_failure s"
  define ts where "ts = filter (\<lambda>t. now - rm_fast_fail_window rm \<le> t) (ss_restart_timestamps s)"
  have len: "length ts \<le> length (ss_restart_timestamps s)" by (simp add: ts_def)
  have f: "service_inv rm f" using assms by (simp add: f_def record_failure_def service_inv_def)
  have p: "prune_timestamps (rm_fast_fail_window rm) now f = f\<lparr>ss_restart_timestamps := ts\<rparr>"
    by (simp add: f_def ts_def prune_timestamps_def record_failure_def)
  have ff: "ss_restart_timestamps f = ss_restart_timestamps s" "ss_restart_count f = ss_restart_count s"
    by (simp_all add: f_def record_failure_def)
  show ?thesis
  proof (cases "ss_consecutive_failures f < rm_failure_threshold rm \<or> terminal f")
    case True
    then have "snd (rm_evaluate rm now ok f) = f" by (auto simp: rm_evaluate_def terminal_def)
    with f show ?thesis by (simp flip: f_def)
  next
    case False
    then have nt: "\<not> ss_in_boot_loop f" "\<not> ss_escalated f" "\<not> ss_consecutive_failures f < rm_failure_threshold rm"
      by (simp_all add: terminal_def)
    consider "rm_boot_loop_threshold rm \<le> length ts"
      | "length ts < rm_boot_loop_threshold rm" "rm_restart_threshold rm \<le> ss_restart_count f"
      | "length ts < rm_boot_loop_threshold rm" "ss_restart_count f < rm_restart_threshold rm" by linarith
    then show ?thesis
    proof cases
      case 1
      then have "snd (rm_evaluate rm now ok f) = f\<lparr>ss_restart_timestamps := ts, ss_in_boot_loop := True\<rparr>"
        using nt by (simp add: rm_evaluate_def p)
      with f nt 1 len ff show ?thesis by (simp add: service_inv_def flip: f_def)
    next
      case 2
      then have "snd (rm_evaluate rm now ok f) = f\<lparr>ss_restart_timestamps := ts, ss_escalated := True\<rparr>"
        using nt by (simp add: rm_evaluate_def p)
      with f nt 2 len ff show ?thesis by (simp add: service_inv_def flip: f_def)
    next
      case 3
      then have "snd (rm_evaluate rm now ok f) =
          (if docker_restart rm ok then record_restart now (f\<lparr>ss_restart_timestamps := ts\<rparr>) else f\<lparr>ss_restart_timestamps := ts\<rparr>)"
        using nt by (simp add: rm_evaluate_def p)
      with f nt 3 len ff show ?thesis by (simp add: service_inv_def record_restart_def flip: f_def)
    qed
  qed
qed

definition supervisor_inv :: "restart_manager \<Rightarrow> managed_service list \<Rightarrow> supervisor \<Rightarrow> bool" where
  "supervisor_inv rm svcs sv \<longleftrightarrow>
     map fst (sv_states sv) = map ms_name svcs \<and>
     list_all (\<lambda>(n, s). service_inv rm s) (sv_states sv) \<and>
     (sr_engaged_by_supervisor (sv_relay sv) \<longrightarrow>
        list_ex (\<lambda>svc. ms_priority svc = Critical \<and> terminal (sv_state sv (ms_name svc))) svcs)"

lemma sv_state_inv: "list_all (\<lambda>(n, s). service_inv rm s) (sv_states sv) \<Longrightarrow> service_inv rm (sv_state sv n)"
  by (auto simp: sv_state_def service_inv_init list_all_iff split: option.split dest: map_of_SomeD)

lemma update_states_inv:
  assumes "list_all (\<lambda>(n, s). service_inv rm s) xs" "service_inv rm s"
  shows "list_all (\<lambda>(n, s). service_inv rm s) (AList.update n s xs)"
  using assms by (induction xs) auto

lemma update_names: "n \<in> set (map fst xs) \<Longrightarrow> map fst (AList.update n s xs) = map fst xs"
  by (induction xs) auto

lemma evaluate_terminal:
  assumes "rm_evaluate rm now ok s = (d, s')"
  shows "(d = BOOT_LOOP \<or> d = ESCALATED \<longrightarrow> terminal s') \<and> (terminal s \<longrightarrow> terminal s')"
  using assms by (auto simp: rm_evaluate_def terminal_def prune_timestamps_def record_restart_def Let_def split: if_splits)

lemma supervisor_inv_put:
  assumes "supervisor_inv rm svcs sv" "n \<in> set (map ms_name svcs)" "service_inv rm x"
    and "terminal (sv_state sv n) \<longrightarrow> terminal x"
  shows "supervisor_inv rm svcs (sv\<lparr>sv_states := AList.update n x (sv_states sv)\<rparr>)"
proof -
  let ?sv = "sv\<lparr>sv_states := AList.update n x (sv_states sv)\<rparr>"
  have inv: "map fst (sv_states sv) = map ms_name svcs" "list_all (\<lambda>(n, s). service_inv rm s) (sv_states sv)"
    using assms(1) by (simp_all add: supervisor_inv_def)
  have names: "map fst (sv_states ?sv) = map ms_name svcs" using inv(1) assms(2) by (simp add: update_names)
  have states: "list_all (\<lambda>(n, s). service_inv rm s) (sv_states ?sv)"
    using update_states_inv [OF inv(2) assms(3)] by simp
  have keep: "terminal (sv_state sv m) \<longrightarrow> terminal (sv_state ?sv m)" for m using assms(4) by simp
  have "list_ex (\<lambda>svc. ms_priority svc = Critical \<and> terminal (sv_state ?sv (ms_name svc))) svcs"
    if "sr_engaged_by_supervisor (sv_relay sv)"
  proof -
    from that assms(1) obtain c where "c \<in> set svcs" "ms_priority c = Critical" "terminal (sv_state sv (ms_name c))"
      by (auto simp: supervisor_inv_def list_ex_iff)
    with keep show ?thesis unfolding list_ex_iff by blast
  qed
  with names states show ?thesis by (simp add: supervisor_inv_def)
qed

lemma check_service_inv:
  assumes "supervisor_inv rm svcs sv" "svc \<in> set svcs"
  shows "supervisor_inv rm svcs (check_service rm env svc sv)"
proof -
  define n s where "n = ms_name svc" and "s = sv_state sv n"
  have n: "n \<in> set (map ms_name svcs)" using assms(2) by (simp add: n_def)
  have s: "service_inv rm s" unfolding s_def by (rule sv_state_inv) (use assms(1) in \<open>simp add: supervisor_inv_def\<close>)
  note put = supervisor_inv_put [OF assms(1) n, folded s_def]
  show ?thesis
  proof (cases "probe_healthy (re_status env n)")
    case True
    then have "check_service rm env svc sv = sv\<lparr>sv_states := AList.update n (record_healthy s) (sv_states sv)\<rparr>"
      by (simp add: check_service_def Let_def n_def s_def)
    with put [OF service_inv_healthy [OF s]] show ?thesis by (simp add: terminal_records)
  next
    case False
    obtain d s' where d: "rm_evaluate rm (re_now env) (re_docker_ok env n) (record_failure s) = (d, s')"
      by (rule prod.exhaust)
    have s': "service_inv rm s'" "terminal s \<longrightarrow> terminal s'" "d = BOOT_LOOP \<or> d = ESCALATED \<longrightarrow> terminal s'"
      using service_inv_evaluate [OF s, of "re_now env" "re_docker_ok env n"] evaluate_terminal [OF d] d
      by (simp_all add: terminal_records)
    let ?sv = "sv\<lparr>sv_states := AList.update n s' (sv_states sv)\<rparr>"
    have put': "supervisor_inv rm svcs ?sv" by (rule put [OF s'(1,2)])
    have eq: "check_service rm env svc sv =
        (if (d = BOOT_LOOP \<or> d = ESCALATED) \<and> ms_priority svc = Critical
         then ?sv\<lparr>sv_relay := snd (engage_safe_mode_supervisor (re_engage_status env) ''supervisor_escalation'' (sv_relay ?sv))\<rparr>
         else ?sv)"
      using False d by (simp add: check_service_def Let_def n_def s_def)
    have "list_ex (\<lambda>c. ms_priority c = Critical \<and> terminal (sv_state ?sv (ms_name c))) svcs"
      if "d = BOOT_LOOP \<or> d = ESCALATED" "ms_priority svc = Critical"
      unfolding list_ex_iff
      by (rule bexI [of _ svc]) (use that s'(3) assms(2) in \<open>simp_all flip: n_def\<close>)
    with put' show ?thesis unfolding eq by (simp add: supervisor_inv_def)
  qed
qed

lemma relay_tick_supervisor_flag:
  "sr_engaged_by_supervisor (relay_tick resp st sr) = sr_engaged_by_supervisor sr"
  by (auto simp: relay_tick_def post_engage_def delete_clear_def Let_def split: option.split)

definition process_inv :: "restart_manager \<Rightarrow> managed_service list \<Rightarrow> supervisor_service \<Rightarrow> bool" where
  "process_inv rm svcs s \<longleftrightarrow> supervisor_inv rm svcs (su_core s) \<and> set (su_pending s) \<subseteq> set svcs"

lemma su_step_inv:
  assumes "process_inv rm svcs s"
  shows "process_inv rm svcs (su_step rm svcs ev s)"
proof (cases ev)
  case (SuProbe env)
  obtain xs where xs: "xs = (if su_pending s = [] then svcs else su_pending s)" "set xs \<subseteq> set svcs"
    using assms by (auto simp: process_inv_def)
  then show ?thesis
    using assms check_service_inv [of rm svcs "su_core s"]
    by (cases xs) (auto simp: SuProbe su_step.simps probe_next_def process_inv_def simp flip: xs(1))
next
  case (SuRelay resp st)
  with assms show ?thesis
    by (simp add: su_step.simps process_inv_def supervisor_inv_def relay_tick_supervisor_flag)
next
  case (SuStorage usage)
  with assms show ?thesis by (simp add: su_step.simps storage_round_def process_inv_def)
qed

text \<open>
  C17. The invariant of the supervisor: after any interleaving of probes, relay ticks and
  storage checks, in every service record a healthy service has no failures counted, the
  restarts stay within their thresholds, boot loop and escalation exclude each other and are
  entered only at their thresholds, and the supervisor has engaged safe mode only if
  some critical service is in one of these two final states; the report names the services of the table.
\<close>

theorem supervisor_process_inv:
  "supervisor_inv rm svcs (su_core (su_run rm svcs evs (su_boot svcs)))"
proof -
  have "process_inv rm svcs (su_boot svcs)"
    by (simp add: process_inv_def su_boot_def init_sv_def supervisor_inv_def init_relay_def list_all_iff service_inv_init comp_def)
  moreover have "process_inv rm svcs s \<Longrightarrow> process_inv rm svcs (su_run rm svcs evs s)" for s
    unfolding su_run_def by (induction evs arbitrary: s) (simp_all add: su_step_inv)
  ultimately show ?thesis by (simp add: process_inv_def)
qed

subsection \<open>The relay and the player\<close>

text \<open>The player's answer to a request of the relay (health.py of the player).\<close>

definition player_answers :: "'r renderer \<Rightarrow> string \<Rightarrow> rat \<Rightarrow> relay_call \<Rightarrow> 'r player \<Rightarrow> nat \<times> 'r player" where
  "player_answers R cache now call pl =
     (case call of
        PostEngage reason \<Rightarrow> safe_mode_engage R cache now (Some (JObj [(''reason'', reason)])) pl
      | DeleteClear \<Rightarrow> safe_mode_clear R cache pl)"

text \<open>
  One relay tick connected to a player: the request the tick sends, if it sends one, is
  answered by the player, and the tick acts on that status.
\<close>

definition linked_tick :: "'r renderer \<Rightarrow> string \<Rightarrow> rat \<times> (int \<times> json) option \<Rightarrow> safe_mode_relay \<times> 'r player
    \<Rightarrow> safe_mode_relay \<times> 'r player" where
  "linked_tick R cache tick w =
     (case (tick, w) of ((now, resp), (sr, pl)) \<Rightarrow>
        case drop (length (sr_calls sr)) (sr_calls (relay_tick resp None sr)) of
          [] \<Rightarrow> (sr, pl)
        | call # _ \<Rightarrow>
            (let (status, pl') = player_answers R cache now call pl
             in (relay_tick resp (Some (int status)) sr, pl')))"

text \<open>The dashboard answers and wants safe mode, or does not answer.\<close>

definition wanting :: "rat \<times> (int \<times> json) option \<Rightarrow> bool" where
  "wanting tick =
     (case snd tick of
        None \<Rightarrow> True
      | Some (status, intent) \<Rightarrow>
          (if status = 200 then (case jget intent ''is_active'' of Some v \<Rightarrow> truthy v | None \<Rightarrow> False) else True))"

lemma wanting_silent:
  assumes "sr_engaged_by_dashboard sr" "wanting tick"
  shows "relay_tick (snd tick) st sr = sr"
proof (cases "snd tick")
  case (Some a)
  obtain status intent where a: "a = (status, intent)" by (cases a)
  show ?thesis
    using assms by (auto simp: Some a relay_tick_def poll_dashboard_def wanting_def Let_def split: option.splits)
qed (simp add: relay_tick_def poll_dashboard_def)

text \<open>
  Safe mode does not survive a restart of the player: the relay sends the dashboard's
  intent once, when it changes. A player that has started again is in
  its initial state, not in safe mode; as long as the dashboard goes on wanting safe mode,
  the relay that had engaged the previous process sends it nothing.
\<close>

theorem restarted_player_not_reengaged:
  assumes "sr_engaged_by_dashboard sr" and "list_all wanting ticks"
    and "player_boot R errs env dir world r0 = Booted pl"
  shows "fold (linked_tick R cache) ticks (sr, pl) = (sr, pl) \<and> sm_state (ch_sm (pl_handler pl)) = FALLBACK"
proof -
  have "linked_tick R cache tick (sr, pl) = (sr, pl)" if "wanting tick" for tick
  proof -
    obtain now resp where t: "tick = (now, resp)" by (cases tick)
    from wanting_silent [OF assms(1) that, of None] show ?thesis by (simp add: linked_tick_def t)
  qed
  then have "fold (linked_tick R cache) ticks (sr, pl) = (sr, pl)"
    using assms(2) by (induction ticks) simp_all
  moreover have "sm_state (ch_sm (pl_handler pl)) = FALLBACK"
    using assms(3) by (auto simp: player_boot_def init_handler_def init_sm_def split: sum.splits prod.splits if_splits)
  ultimately show ?thesis by blast
qed

definition active_intent :: json where
  "active_intent = JObj [(''is_active'', JBool True), (''reason'', JStr ''operator_manual'')]"

definition engaged_pair :: "safe_mode_relay \<times> stub_log player" where
  "engaged_pair = linked_tick stub_renderer ''/cache'' (1, Some (200, active_intent)) (init_relay, demo_boot)"

theorem restarted_player_not_reengaged_witness:
  "sm_state (ch_sm (pl_handler (snd engaged_pair))) = SAFE_MODE \<and>
   fold (linked_tick stub_renderer ''/cache'') [(2, Some (200, active_intent)), (3, None)] (fst engaged_pair, demo_boot) =
     (fst engaged_pair, demo_boot)"
proof -
  have e: "sr_engaged_by_dashboard (fst engaged_pair)" "sm_state (ch_sm (pl_handler (snd engaged_pair))) = SAFE_MODE"
    by code_simp+
  have w: "list_all wanting [(2, Some (200, active_intent)), (3, None)]" by code_simp
  from restarted_player_not_reengaged [OF e(1) w demo_boot_booted] e(2) show ?thesis by blast
qed

end
