(* ===== verification/ApiContracts.thy ===== *)
theory ApiContracts
  imports ApiResponses Contracts
begin

section \<open>The dashboard's contracts (contracts/dashboard-api)\<close>

text \<open>
  The schemas of the business objects the frontend receives (ICD-6) and of the audit records
  (ICD-7), and how far the responses of the API satisfy them. No code validates with these
  schemas. \<open>format\<close> is an annotation, as in the other contracts.
\<close>

subsection \<open>Schemas\<close>

definition opt_str_where :: "(string \<Rightarrow> bool) \<Rightarrow> json \<Rightarrow> bool" where
  "opt_str_where p = null_or (str_where p)"

definition any_str :: "json \<Rightarrow> bool" where
  "any_str = str_where (\<lambda>_. True)"

definition one_of :: "string list \<Rightarrow> json \<Rightarrow> bool" where
  "one_of xs = str_where (\<lambda>s. s \<in> set xs)"

definition sized :: "nat \<Rightarrow> nat \<Rightarrow> json \<Rightarrow> bool" where
  "sized lo hi = str_where (\<lambda>s. lo \<le> length s \<and> length s \<le> hi)"

definition manifest_record_contract :: "json \<Rightarrow> bool" where
  "manifest_record_contract = schema_object
     [''id'', ''manifest_id'', ''title'', ''status'', ''schema_version'', ''created_at'', ''updated_at'']
     [(''id'', any_str), (''manifest_id'', sized 1 128), (''title'', sized 1 255),
      (''status'', one_of [''draft'', ''approved'', ''rejected'', ''enabled'', ''disabled'', ''archived'']),
      (''schema_version'', any_str), (''manifest_json'', null_or is_obj),
      (''rejection_reason'', opt_str_where (\<lambda>s. length s \<le> 1024)),
      (''approved_by'', opt_str_where (\<lambda>s. length s \<le> 128)), (''approved_at'', opt_str_where (\<lambda>_. True)),
      (''enabled_at'', opt_str_where (\<lambda>_. True)), (''created_at'', any_str), (''updated_at'', any_str)]"

definition campaign_record_contract :: "json \<Rightarrow> bool" where
  "campaign_record_contract = schema_object [''id'', ''name'', ''status'', ''created_at'', ''updated_at'']
     [(''id'', any_str), (''name'', sized 1 255), (''description'', opt_str_where (\<lambda>s. length s \<le> 2048)),
      (''status'', one_of [''draft'', ''active'', ''paused'', ''archived'']),
      (''start_at'', opt_str_where (\<lambda>_. True)), (''end_at'', opt_str_where (\<lambda>_. True)),
      (''manifest_ids'', \<lambda>j. case j of JArr xs \<Rightarrow> list_all any_str xs | _ \<Rightarrow> False),
      (''created_at'', any_str), (''updated_at'', any_str)]"

definition probe_contract :: "json \<Rightarrow> bool" where
  "probe_contract = schema_object [''status'', ''probed_at'']
     [(''status'', one_of [''healthy'', ''unhealthy'', ''unreachable'']), (''probed_at'', any_str),
      (''latency_ms'', null_or (int_where (\<lambda>n. 0 \<le> n))), (''detail'', opt_str_where (\<lambda>_. True))]"

definition dict_where :: "(json \<Rightarrow> bool) \<Rightarrow> json \<Rightarrow> bool" where
  "dict_where p j = (case j of JObj kvs \<Rightarrow> list_all (\<lambda>(_, v). p v) kvs | _ \<Rightarrow> False)"

definition system_status_contract :: "json \<Rightarrow> bool" where
  "system_status_contract = schema_object [''sampled_at'', ''overall'', ''safe_mode'', ''services'']
     [(''sampled_at'', any_str), (''overall'', one_of [''healthy'', ''degraded'', ''critical'']),
      (''safe_mode'', schema_object [''active''] [(''active'', bool_where (\<lambda>_. True)),
         (''reason'', opt_str_where (\<lambda>_. True)), (''activated_at'', opt_str_where (\<lambda>_. True))]),
      (''services'', dict_where probe_contract)]"

definition contract_event_types :: "string list" where
  "contract_event_types =
     [''manifest.created'', ''manifest.approved'', ''manifest.rejected'', ''manifest.enabled'', ''manifest.disabled'',
      ''manifest.archived'', ''campaign.created'', ''campaign.updated'', ''campaign.archived'',
      ''campaign.manifest_added'', ''campaign.manifest_removed'', ''asset.uploaded'', ''asset.archived'',
      ''safe_mode.engaged'', ''safe_mode.cleared'']"

definition audit_event_contract :: "json \<Rightarrow> bool" where
  "audit_event_contract = schema_object
     [''id'', ''event_type'', ''entity_type'', ''entity_id'', ''actor'', ''created_at'']
     [(''id'', any_str), (''event_type'', one_of contract_event_types),
      (''entity_type'', one_of [''manifest'', ''campaign'', ''asset'', ''system'']), (''entity_id'', any_str),
      (''actor'', sized 0 128), (''payload'', null_or is_obj), (''created_at'', any_str)]"

subsection \<open>System status\<close>

definition probe_json :: "(rat \<Rightarrow> string) \<Rightarrow> service_probe \<Rightarrow> json" where
  "probe_json fmt p = JObj
     [(''status'', JStr (probe_status_str (sp_status p))), (''probed_at'', JStr (fmt (sp_probed_at p))),
      (''latency_ms'', opt_json JInt (sp_latency_ms p)), (''detail'', opt_json JStr (sp_detail p))]"

definition system_status_json :: "(rat \<Rightarrow> string) \<Rightarrow> system_status \<Rightarrow> json" where
  "system_status_json fmt sy = JObj
     [(''sampled_at'', JStr (fmt (sy_sampled_at sy))), (''overall'', JStr (overall_str (sy_overall sy))),
      (''safe_mode'', safe_mode_json fmt (sy_safe_mode sy)),
      (''services'', JObj (map (\<lambda>(n, p). (n, probe_json fmt p)) (sy_services sy)))]"

lemma where_strs [simp]:
  "any_str (JStr s)" "one_of xs (JStr s) \<longleftrightarrow> s \<in> set xs" "sized lo hi (JStr s) \<longleftrightarrow> lo \<le> length s \<and> length s \<le> hi"
  "opt_str_where p JNull" "opt_str_where p (JStr s) \<longleftrightarrow> p s" "opt_str_where (\<lambda>_. True) (time_json fmt t)"
  "opt_str_where p (opt_json JStr v) \<longleftrightarrow> (case v of None \<Rightarrow> True | Some s \<Rightarrow> p s)"
  by (simp_all add: any_str_def one_of_def sized_def opt_str_where_def null_or_def time_json_def opt_json_def
      split: option.split)

lemma probe_conforms:
  assumes "case answer of Answered _ seconds \<Rightarrow> 0 \<le> seconds | _ \<Rightarrow> True"
  shows "probe_contract (probe_json fmt (probe_service now answer))"
proof -
  have "probe_status_str s \<in> set [''healthy'', ''unhealthy'', ''unreachable'']" for s by (cases s) simp_all
  moreover have "null_or (int_where (\<lambda>n. 0 \<le> n)) (opt_json JInt (sp_latency_ms (probe_service now answer)))"
    using assms by (auto simp: probe_service_def null_or_def opt_json_def py_int_nonneg split: http_answer.splits)
  ultimately show ?thesis
    by (simp add: probe_contract_def probe_json_def schema_object_def dict_keys_def split: option.split)
qed

text \<open>
  The aggregated status satisfies its contract whatever the probed services answer, as
  long as no answer took negative time.
\<close>

theorem system_status_conforms:
  assumes "list_all (\<lambda>n. case answers n of Answered _ seconds \<Rightarrow> 0 \<le> seconds | _ \<Rightarrow> True) probe_targets"
  shows "system_status_contract (system_status_json fmt (get_system_status now answers db))"
proof -
  have "overall_str x \<in> set [''healthy'', ''degraded'', ''critical'']" for x by (cases x) simp_all
  moreover have "opt_str_where (\<lambda>_. True) (opt_json (\<lambda>t. JStr (fmt t)) v)" for v
    by (simp add: opt_json_def split: option.split)
  moreover have "dict_where probe_contract
      (JObj (map (\<lambda>(n, p). (n, probe_json fmt p)) (sy_services (get_system_status now answers db))))"
    using assms probe_conforms by (auto simp: dict_where_def get_system_status_def Let_def list_all_iff)
  ultimately show ?thesis
    by (simp add: system_status_contract_def system_status_json_def safe_mode_json_def schema_object_def dict_keys_def
        split: option.split)
qed

theorem system_status_conforms_witness:
  "system_status_contract (system_status_json (\<lambda>_. ''t'')
     (get_system_status 5 (\<lambda>n. if n = ''player'' then Answered 503 (1/4) else TimedOut) empty_dashboard))"
proof (rule system_status_conforms)
  show "list_all (\<lambda>n. case (if n = ''player'' then Answered 503 (1/4) else TimedOut) of
      Answered _ seconds \<Rightarrow> 0 \<le> seconds | _ \<Rightarrow> True) probe_targets"
    by (simp add: probe_targets_def)
qed

subsection \<open>What the routers keep of the records\<close>

definition manifest_record_ok :: "manifest_row \<Rightarrow> bool" where
  "manifest_record_ok m \<longleftrightarrow>
     1 \<le> length (mr_manifest_id m) \<and> length (mr_manifest_id m) \<le> 128 \<and>
     1 \<le> length (mr_title m) \<and> length (mr_title m) \<le> 255 \<and> is_obj (mr_manifest_json m) \<and>
     (case mr_rejection_reason m of None \<Rightarrow> True | Some s \<Rightarrow> length s \<le> 1024) \<and>
     (case mr_approved_by m of None \<Rightarrow> True | Some s \<Rightarrow> length s \<le> 128)"

definition campaign_record_ok :: "campaign_row \<Rightarrow> bool" where
  "campaign_record_ok c \<longleftrightarrow> name_ok (cr_name c) \<and> description_ok (cr_description c)"

text \<open>The event types of the two operations added after the contract was written.\<close>

definition later_event_types :: "string list" where
  "later_event_types = [''manifest.tags_updated'', ''manifest.rules_synced'']"

definition audit_record_ok :: "audit_event \<Rightarrow> bool" where
  "audit_record_ok e \<longleftrightarrow>
     ae_event_type e \<in> set (contract_event_types @ later_event_types) \<and>
     ae_entity_type e \<in> set [''manifest'', ''campaign'', ''asset'', ''system''] \<and>
     length (ae_actor e) \<le> 128 \<and> is_obj (ae_payload e)"

definition records_ok :: "dashboard \<Rightarrow> bool" where
  "records_ok db \<longleftrightarrow> list_all manifest_record_ok (db_manifests db) \<and>
     list_all campaign_record_ok (db_campaigns db) \<and> list_all audit_record_ok (db_audit db)"

lemma records_ok_event:
  "records_ok db \<Longrightarrow> ty \<in> set (contract_event_types @ later_event_types) \<Longrightarrow>
   et \<in> set [''manifest'', ''campaign'', ''asset'', ''system''] \<Longrightarrow> length who \<le> 128 \<Longrightarrow>
   records_ok (write_event now ty et i who p db)"
  by (simp add: records_ok_def write_event_def audit_record_ok_def)

lemma records_ok_put: "records_ok db \<Longrightarrow> manifest_record_ok m \<Longrightarrow> records_ok (put_row m db)"
  by (auto simp: records_ok_def put_row_def list_all_iff)

lemma records_ok_put_campaign: "records_ok db \<Longrightarrow> campaign_record_ok c \<Longrightarrow> records_ok (put_campaign c db)"
  by (auto simp: records_ok_def put_campaign_def list_all_iff)

lemma records_ok_frame [simp]:
  "records_ok (write_manifest_to_disk ok m db) = records_ok db" "records_ok (remove_manifest_from_disk ok i db) = records_ok db"
  "records_ok (db\<lparr>fs_rules := x\<rparr>) = records_ok db" "records_ok (db\<lparr>fs_assets := y\<rparr>) = records_ok db"
  "records_ok (db\<lparr>db_assets := z\<rparr>) = records_ok db" "records_ok (db\<lparr>db_links := l\<rparr>) = records_ok db"
  "records_ok (db\<lparr>db_safe_mode := s\<rparr>) = records_ok db" "records_ok (db\<lparr>fs_fallback := b\<rparr>) = records_ok db"
  by (simp_all add: records_ok_def write_manifest_to_disk_def remove_manifest_from_disk_def)

lemma records_ok_found:
  assumes "records_ok db" "find_row i db = Some m"
  shows "manifest_record_ok m"
  using assms unfolding records_ok_def list_all_iff find_row_def find_Some_iff by (metis nth_mem)

lemma records_ok_campaign_found:
  assumes "records_ok db" "get_campaign_or_404 i db = Inr c"
  shows "campaign_record_ok c"
  using assms unfolding records_ok_def list_all_iff get_campaign_or_404_def
  by (auto simp: find_Some_iff split: option.splits)

lemmas event_type_defs = contract_event_types_def later_event_types_def

lemma records_ok_add:
  "records_ok db \<Longrightarrow> manifest_record_ok m \<Longrightarrow> records_ok (db\<lparr>db_manifests := db_manifests db @ [m]\<rparr>)"
  "records_ok db \<Longrightarrow> campaign_record_ok c \<Longrightarrow> records_ok (db\<lparr>db_campaigns := db_campaigns db @ [c]\<rparr>)"
  by (simp_all add: records_ok_def)

lemma moved_row_ok:
  assumes "manifest_record_ok m"
  shows "length who \<le> 128 \<Longrightarrow> manifest_record_ok (m\<lparr>mr_status := s, mr_approved_by := Some who, mr_approved_at := t,
      mr_rejection_reason := None, mr_updated_at := u\<rparr>)"
    and "length why \<le> 1024 \<Longrightarrow> manifest_record_ok (m\<lparr>mr_status := s, mr_rejection_reason := Some why, mr_updated_at := u\<rparr>)"
    and "manifest_record_ok (m\<lparr>mr_status := s, mr_enabled_at := t, mr_updated_at := u\<rparr>)"
    and "manifest_record_ok (m\<lparr>mr_status := s, mr_updated_at := u\<rparr>)"
    and "manifest_record_ok (m\<lparr>mr_audience_tags := ts, mr_updated_at := u\<rparr>)"
  using assms by (simp_all add: manifest_record_ok_def)

lemma manifest_step_records:
  assumes "records_ok db"
  shows "records_ok (manifest_step r db)"
proof (cases r rule: manifest_step_cases)
  case (1 now disk_ok uuid body)
  with assms show ?thesis
    by (auto simp: create_manifest_def Let_def manifest_in_ok_def manifest_record_ok_def event_type_defs
        intro!: records_ok_event records_ok_add)
next
  case (2 now disk_ok mid who)
  with assms show ?thesis
    by (auto simp: approve_manifest_def Let_def get_manifest_or_404_def event_type_defs moved_row_ok(1) records_ok_found
        intro!: records_ok_event records_ok_put split: option.split)
next
  case (3 now disk_ok mid reason who)
  with assms show ?thesis
    by (auto simp: reject_manifest_def Let_def get_manifest_or_404_def event_type_defs moved_row_ok(2) records_ok_found
        intro!: records_ok_event records_ok_put split: option.split)
next
  case (4 now disk_ok mid)
  with assms show ?thesis
    by (auto simp: enable_manifest_def Let_def get_manifest_or_404_def event_type_defs moved_row_ok(3) records_ok_found
        intro!: records_ok_event records_ok_put split: option.split)
next
  case (5 now disk_ok mid)
  with assms show ?thesis
    by (auto simp: disable_manifest_def Let_def get_manifest_or_404_def event_type_defs moved_row_ok(4) records_ok_found
        intro!: records_ok_event records_ok_put split: option.split)
next
  case (6 now disk_ok mid tags)
  with assms show ?thesis
    by (auto simp: update_manifest_tags_def Let_def get_manifest_or_404_def event_type_defs moved_row_ok(5) records_ok_found
        intro!: records_ok_event records_ok_put split: option.split)
next
  case (7 now disk_ok opt)
  with assms show ?thesis
    by (auto simp: sync_rules_def Let_def split_beta event_type_defs intro!: records_ok_event)
next
  case (8 now disk_ok mid)
  with assms show ?thesis
    by (auto simp: archive_manifest_def Let_def get_manifest_or_404_def event_type_defs moved_row_ok(4) records_ok_found
        intro!: records_ok_event records_ok_put split: option.split)
qed

lemma campaign_step_records:
  assumes "records_ok db"
  shows "records_ok (campaign_step r db)"
proof (cases "snd r")
  case (ReqNewCampaign uuid body)
  with assms show ?thesis
    by (cases r) (auto simp: create_campaign_def Let_def campaign_record_ok_def event_type_defs
        intro!: records_ok_event records_ok_add)
next
  case (ReqUpdateCampaign cid body)
  have keep: "(case new of None \<Rightarrow> True | Some n \<Rightarrow> name_ok n) \<Longrightarrow> name_ok n' \<Longrightarrow> name_ok (or_keep new n')"
    "description_ok d \<Longrightarrow> description_ok d' \<Longrightarrow> description_ok (or_keep_opt d d')" for new n' d d'
    by (auto simp: or_keep_def or_keep_opt_def split: option.splits)
  note found = records_ok_campaign_found [OF assms, unfolded campaign_record_ok_def]
  show ?thesis
    using assms ReqUpdateCampaign
    by (cases r) (auto simp: update_campaign_def Let_def event_type_defs found keep campaign_record_ok_def
        intro!: records_ok_event records_ok_put_campaign split: option.splits sum.split)
next
  case (ReqAddManifest cid mid)
  with assms show ?thesis
    by (cases r) (auto simp: add_manifest_to_campaign_def Let_def event_type_defs intro!: records_ok_event
        split: option.split sum.split)
next
  case (ReqRemoveManifest cid mid)
  with assms show ?thesis
    by (cases r) (auto simp: remove_manifest_from_campaign_def Let_def event_type_defs intro!: records_ok_event
        split: option.split sum.split)
next
  case (ReqArchiveCampaign cid)
  have "campaign_record_ok (c\<lparr>cr_status := s, cr_updated_at := v\<rparr>)" if "campaign_record_ok c" for c s v
    using that by (simp add: campaign_record_ok_def)
  with assms ReqArchiveCampaign show ?thesis
    by (cases r) (auto simp: archive_campaign_def Let_def event_type_defs records_ok_campaign_found
        intro!: records_ok_event records_ok_put_campaign split: option.split sum.split)
qed

lemma asset_step_records: "records_ok db \<Longrightarrow> records_ok (asset_step h r db)"
  by (cases r; cases "snd r")
    (auto simp: upload_asset_def archive_asset_def Let_def split_beta event_type_defs
      intro!: records_ok_event split: option.split sum.split)

text \<open>\<open>cleared_by\<close> is a query parameter without a length limit.\<close>

fun clear_bounded :: "rat \<times> api_request \<Rightarrow> bool" where
  "clear_bounded (now, ApiSafeMode (ReqClear who)) = (length who \<le> 128)"
| "clear_bounded _ = True"

lemma api_step_records:
  assumes "records_ok db" "clear_bounded r"
  shows "records_ok (api_step h r db)"
proof (cases r)
  case (Pair now q)
  show ?thesis
  proof (cases q)
    case (ApiSafeMode sq)
    with assms Pair show ?thesis
      by (cases sq) (auto simp: engage_safe_mode_def clear_safe_mode_def Let_def event_type_defs intro!: records_ok_event)
  qed (use assms Pair manifest_step_records campaign_step_records asset_step_records in
      \<open>simp_all add: get_safe_mode_def fallback_step_def Let_def\<close>)
qed

lemma run_records: "list_all clear_bounded rs \<Longrightarrow> records_ok (api_run h rs empty_dashboard)"
  by (rule api_run_induct)
    (auto simp: list_all_iff intro: api_step_records, simp add: records_ok_def empty_dashboard_def)

subsection \<open>Which records satisfy their contract\<close>

lemma campaign_record_conforms:
  "campaign_record_ok (co_campaign co) \<Longrightarrow> campaign_record_contract (campaign_out_json fmt co)"
proof -
  assume ok: "campaign_record_ok (co_campaign co)"
  have "campaign_status_str st \<in> set [''draft'', ''active'', ''paused'', ''archived'']" for st by (cases st) simp_all
  moreover have "list_all any_str (map JStr xs)" for xs by (simp add: list_all_iff)
  ultimately show ?thesis
    using ok by (simp add: campaign_record_contract_def campaign_out_json_def schema_object_def dict_keys_def Let_def
        campaign_record_ok_def name_ok_def description_ok_def split: option.split)
qed

lemma manifest_record_fields:
  assumes "manifest_out fmt m = Inr j"
  obtains kvs tags where "j = JObj (kvs @ [(''audience_tags'', tags)])"
    and "manifest_record_ok m \<Longrightarrow> manifest_record_contract (JObj kvs)" "''audience_tags'' \<notin> set (map fst kvs)"
proof -
  have st: "status_str x \<in> set [''draft'', ''approved'', ''rejected'', ''enabled'', ''disabled'', ''archived'']" for x
    by (cases x) simp_all
  obtain tags where tags: "tags_json (mr_audience_tags m) = Inr tags"
    using assms by (auto simp: manifest_out_def res_bind_Inr)
  define kvs where "kvs =
     [(''id'', JStr (mr_id m)), (''manifest_id'', JStr (mr_manifest_id m)), (''title'', JStr (mr_title m)),
      (''status'', JStr (status_str (mr_status m))), (''schema_version'', JStr (mr_schema_version m)),
      (''manifest_json'', mr_manifest_json m), (''rejection_reason'', opt_json JStr (mr_rejection_reason m)),
      (''approved_by'', opt_json JStr (mr_approved_by m)), (''approved_at'', time_json fmt (mr_approved_at m)),
      (''enabled_at'', time_json fmt (mr_enabled_at m)), (''created_at'', JStr (fmt (mr_created_at m))),
      (''updated_at'', JStr (fmt (mr_updated_at m)))]"
  have "j = JObj (kvs @ [(''audience_tags'', tags)])" using assms tags by (simp add: manifest_out_def kvs_def)
  moreover have "manifest_record_contract (JObj kvs)" if "manifest_record_ok m"
    using that st [of "mr_status m"]
    by (simp add: manifest_record_contract_def schema_object_def dict_keys_def kvs_def manifest_record_ok_def null_or_def)
  moreover have "''audience_tags'' \<notin> set (map fst kvs)" by (simp add: kvs_def)
  ultimately show ?thesis by (rule that)
qed

lemma extra_property_refused:
  "map_of props k = None \<Longrightarrow> \<not> schema_object req props (JObj (kvs @ [(k, v)]))"
  by (simp add: schema_object_def)

lemma audit_record_conforms:
  "audit_record_ok e \<Longrightarrow>
   audit_event_contract (audit_event_out fmt uuid e) \<longleftrightarrow> ae_event_type e \<notin> set later_event_types"
proof -
  assume ok: "audit_record_ok e"
  have "set contract_event_types \<inter> set later_event_types = {}" by (simp add: event_type_defs)
  with ok show ?thesis
    by (auto simp: audit_event_contract_def audit_event_out_def schema_object_def dict_keys_def audit_record_ok_def
        null_or_def)
qed

text \<open>
  C32. How the API keeps its contracts: after any history of requests (clear requests naming
  an operator within the column width) every campaign answer satisfies ICD-6; an audit event
  satisfies ICD-7 exactly when it is not one of the two types added with the audience tags;
  and no manifest answer satisfies ICD-6, only because of the field \<open>audience_tags\<close>.
\<close>

theorem api_contracts_kept:
  assumes "list_all clear_bounded rs" "db = api_run h rs empty_dashboard"
  shows "list_all (\<lambda>c. campaign_record_contract (campaign_out_json fmt (build_campaign_out c db))) (db_campaigns db) \<and>
    list_all (\<lambda>e. audit_event_contract (audit_event_out fmt uuid e) \<longleftrightarrow> ae_event_type e \<notin> set later_event_types)
      (db_audit db) \<and>
    list_all (\<lambda>m. case manifest_out fmt m of
        Inr (JObj kvs) \<Rightarrow> \<not> manifest_record_contract (JObj kvs) \<and>
          manifest_record_contract (JObj (filter (\<lambda>(k, _). k \<noteq> ''audience_tags'') kvs))
      | _ \<Rightarrow> False) (db_manifests db)"
proof -
  have ok: "records_ok db" unfolding assms(2) by (rule run_records [OF assms(1)])
  have tagged: "all_tagged db" unfolding assms(2) by (rule run_all_tagged)
  have "case manifest_out fmt m of
      Inr (JObj kvs) \<Rightarrow> \<not> manifest_record_contract (JObj kvs) \<and>
        manifest_record_contract (JObj (filter (\<lambda>(k, _). k \<noteq> ''audience_tags'') kvs))
    | _ \<Rightarrow> False" if m: "m \<in> set (db_manifests db)" for m
  proof -
    have "\<not> is_inl (manifest_out fmt m)"
      using tagged m by (auto simp: all_tagged_def list_all_iff manifest_out_def tags_json_def split: option.split)
    then obtain j where j: "manifest_out fmt m = Inr j" by (cases "manifest_out fmt m") simp_all
    obtain kvs tags where k: "j = JObj (kvs @ [(''audience_tags'', tags)])" "manifest_record_contract (JObj kvs)"
        "''audience_tags'' \<notin> set (map fst kvs)"
      using manifest_record_fields [OF j] ok m by (auto simp: records_ok_def list_all_iff)
    have "\<not> manifest_record_contract (JObj (kvs @ [(''audience_tags'', tags)]))"
      unfolding manifest_record_contract_def by (rule extra_property_refused) simp
    moreover have "filter (\<lambda>(k, _). k \<noteq> ''audience_tags'') kvs = kvs"
      using k(3) by (force simp: filter_id_conv)
    ultimately show ?thesis using j k(1,2) by simp
  qed
  moreover have "campaign_record_contract (campaign_out_json fmt (build_campaign_out c db))"
    if "c \<in> set (db_campaigns db)" for c
    using that ok by (intro campaign_record_conforms) (simp add: build_campaign_out_def records_ok_def list_all_iff)
  moreover have "audit_event_contract (audit_event_out fmt uuid e) \<longleftrightarrow> ae_event_type e \<notin> set later_event_types"
    if "e \<in> set (db_audit db)" for e
    using that ok by (intro audit_record_conforms) (simp add: records_ok_def list_all_iff)
  ultimately show ?thesis by (simp add: list_all_iff)
qed

theorem api_contracts_kept_witness:
  "db_manifests (api_run id one_manifest empty_dashboard) \<noteq> [] \<and>
   list_all (\<lambda>m. case manifest_out (\<lambda>_. []) m of
        Inr (JObj kvs) \<Rightarrow> \<not> manifest_record_contract (JObj kvs) \<and>
          manifest_record_contract (JObj (filter (\<lambda>(k, _). k \<noteq> ''audience_tags'') kvs))
      | _ \<Rightarrow> False) (db_manifests (api_run id one_manifest empty_dashboard))"
proof -
  have "list_all clear_bounded one_manifest" by (simp add: one_manifest_def)
  moreover have "db_manifests (api_run id one_manifest empty_dashboard) \<noteq> []" by code_simp
  ultimately show ?thesis using api_contracts_kept [OF _ refl, where rs = one_manifest and h = id and fmt = "\<lambda>_. []"] by blast
qed

end
